(* ===== verification/Prelude.thy ===== *)
theory Prelude
  imports Main "HOL-Library.Multiset" "HOL-Library.AList" "HOL-Library.List_Lexorder"
    "HOL-Library.Char_ord" "HOL-Library.Product_Lexorder" "HOL-Library.Word"
    "HOL-Library.Code_Target_Nat"
begin

text \<open>
  Shared vocabulary of the development.

  A Go function that returns \<open>(T, error)\<close> is a function into \<open>'e + 'a\<close>: \<open>Inl\<close> is a
  non-nil error, \<open>Inr\<close> a result with a nil error. A loop body that may return early is
  iterated by \<open>foldE\<close>; a loop whose partly updated state is still used by the caller after
  an error is iterated by \<open>loopE\<close>, which returns both the state and the error. A Go map is an
  association list with distinct keys: the order of the list stands for one of the orders in
  which a Go \<open>range\<close> over the map may visit it.

  The two locales are the interfaces the components share: \<open>ledger\<close> is a state into which
  signed amounts are posted with a checked addition, \<open>keyed_order\<close> is a comparison function
  handed to \<open>sort.Slice\<close>.
\<close>

section \<open>Lists\<close>

lemma sum_list_if_filter:
  "(\<Sum>x\<leftarrow>xs. if P x then f x else (0::int)) = (\<Sum>x\<leftarrow>filter P xs. f x)"
  by (induction xs) auto

lemma sum_list_mset_cong:
  assumes "mset xs = mset ys"
  shows "sum_list (map f xs) = (sum_list (map f ys) :: int)"
proof -
  have "sum_mset (image_mset f (mset xs)) = sum_mset (image_mset f (mset ys))"
    using assms by simp
  then show ?thesis by (simp only: mset_map [symmetric] sum_mset_sum_list)
qed

lemma sum_list_concat_map:
  "(\<Sum>x\<leftarrow>concat (map g xs). f x) = (\<Sum>x\<leftarrow>xs. \<Sum>y\<leftarrow>g x. (f y :: int))"
  by (induction xs) auto

lemma distinct_length_le_1: "distinct xs \<Longrightarrow> (\<And>x. x \<in> set xs \<Longrightarrow> x = a) \<Longrightarrow> length xs \<le> 1"
  by (cases xs; cases "tl xs") auto

section \<open>Results and loops\<close>

named_theorems result_simps \<open>rewriting of results of fallible operations\<close>

abbreviation is_ok :: "'e + 'a \<Rightarrow> bool" where
  "is_ok r \<equiv> \<not> isl r"

lemma case_sum_Inr_iff [result_simps]:
  "case_sum (\<lambda>e. Inl (g e)) f r = Inr y \<longleftrightarrow> (\<exists>x. r = Inr x \<and> f x = Inr y)"
  by (cases r) auto

lemma if_Inl_Inr_iff [result_simps]:
  "(if b then Inl e else r) = Inr y \<longleftrightarrow> \<not> b \<and> r = Inr y"
  by auto

lemma is_ok_iff: "is_ok r \<longleftrightarrow> (\<exists>x. r = Inr x)"
  by (cases r) auto

fun foldE :: "('a \<Rightarrow> 's \<Rightarrow> 'e + 's) \<Rightarrow> 'a list \<Rightarrow> 's \<Rightarrow> 'e + 's" where
  "foldE f [] s = Inr s"
| "foldE f (x # xs) s = (case f x s of Inl e \<Rightarrow> Inl e | Inr s' \<Rightarrow> foldE f xs s')"

lemma foldE_Cons_Inr [result_simps]:
  "foldE f (x # xs) s = Inr t \<longleftrightarrow> (\<exists>s'. f x s = Inr s' \<and> foldE f xs s' = Inr t)"
  by (simp add: result_simps)

lemma foldE_append:
  "foldE f (xs @ ys) s = (case foldE f xs s of Inl e \<Rightarrow> Inl e | Inr s' \<Rightarrow> foldE f ys s')"
  by (induction xs arbitrary: s) (auto split: sum.splits)

lemma foldE_invariant:
  assumes "foldE f xs s = Inr t" and "P s"
    and "\<And>x u v. x \<in> set xs \<Longrightarrow> f x u = Inr v \<Longrightarrow> P u \<Longrightarrow> P v"
  shows "P t"
  using assms
proof (induction xs arbitrary: s)
  case Nil
  then show ?case by simp
next
  case (Cons x xs)
  from Cons.prems(1) obtain s' where s': "f x s = Inr s'" "foldE f xs s' = Inr t"
    by (auto simp: result_simps)
  have "P s'"
    using Cons.prems(3)[OF _ s'(1) Cons.prems(2)] by simp
  then show ?case
    using Cons.IH[OF s'(2)] Cons.prems(3) by (metis list.set_intros(2))
qed

lemma foldE_concat:
  "foldE f (concat xss) s = foldE (\<lambda>xs. foldE f xs) xss s"
  by (induction xss arbitrary: s) (auto simp: foldE_append split: sum.splits)

lemma foldE_cong:
  "(\<And>x s. x \<in> set xs \<Longrightarrow> f x s = g x s) \<Longrightarrow> foldE f xs s = foldE g xs s"
  by (induction xs arbitrary: s) (auto split: sum.splits)

lemma foldE_filter:
  "foldE f (filter P xs) s = foldE (\<lambda>x s. if P x then f x s else Inr s) xs s"
  by (induction xs arbitrary: s) (auto split: sum.splits)

text \<open>Applying a fallible function to each element, stopping at the first error.\<close>

fun mapE :: "('a \<Rightarrow> 'e + 'b) \<Rightarrow> 'a list \<Rightarrow> 'e + 'b list" where
  "mapE f [] = Inr []"
| "mapE f (x # xs) =
     (case f x of Inl e \<Rightarrow> Inl e
      | Inr y \<Rightarrow> (case mapE f xs of Inl e \<Rightarrow> Inl e | Inr ys \<Rightarrow> Inr (y # ys)))"

lemma mapE_Inr_iff: "mapE f xs = Inr ys \<longleftrightarrow> list_all2 (\<lambda>x y. f x = Inr y) xs ys"
proof (induction xs arbitrary: ys)
  case Nil
  then show ?case by auto
next
  case (Cons x xs)
  show ?case
    by (cases "f x"; cases "mapE f xs") (auto simp: list_all2_Cons1 simp flip: Cons.IH)
qed

text \<open>
  The second kind of loop keeps the state the body had reached when it stopped.
\<close>

fun loopE :: "('a \<Rightarrow> 's \<Rightarrow> 's \<times> 'e option) \<Rightarrow> 'a list \<Rightarrow> 's \<Rightarrow> 's \<times> 'e option" where
  "loopE f [] s = (s, None)"
| "loopE f (x # xs) s =
     (case f x s of (s', Some e) \<Rightarrow> (s', Some e) | (s', None) \<Rightarrow> loopE f xs s')"

lemma loopE_Cons_None [result_simps]:
  "loopE f (x # xs) s = (t, None) \<longleftrightarrow> (\<exists>s'. f x s = (s', None) \<and> loopE f xs s' = (t, None))"
  by (auto split: prod.splits option.splits)

lemma loopE_append:
  "loopE f (xs @ ys) s =
     (case loopE f xs s of (s', Some e) \<Rightarrow> (s', Some e) | (s', None) \<Rightarrow> loopE f ys s')"
  by (induction xs arbitrary: s) (auto split: prod.splits option.splits)

lemma loopE_invariant:
  assumes "loopE f xs s = (t, e)" and "P s"
    and "\<And>x u v d. x \<in> set xs \<Longrightarrow> f x u = (v, d) \<Longrightarrow> P u \<Longrightarrow> P v"
  shows "P t"
  using assms
proof (induction xs arbitrary: s)
  case Nil
  then show ?case by simp
next
  case (Cons x xs)
  obtain s' d where fx: "f x s = (s', d)"
    by (cases "f x s")
  have Ps': "P s'"
    using Cons.prems(3)[OF _ fx Cons.prems(2)] by simp
  show ?case
  proof (cases d)
    case None
    with Cons.prems(1) fx have rest: "loopE f xs s' = (t, e)" by simp
    show ?thesis
      by (rule Cons.IH[OF rest Ps']) (use Cons.prems(3) in auto)
  next
    case (Some x2)
    with Cons.prems(1) fx Ps' show ?thesis by simp
  qed
qed

lemma loopE_invariant_None:
  assumes "loopE f xs s = (t, None)" and "P s"
    and "\<And>x u v. x \<in> set xs \<Longrightarrow> f x u = (v, None) \<Longrightarrow> P u \<Longrightarrow> P v"
  shows "P t"
  using assms
proof (induction xs arbitrary: s)
  case Nil
  then show ?case by simp
next
  case (Cons x xs)
  from Cons.prems(1) obtain s' where s': "f x s = (s', None)" "loopE f xs s' = (t, None)"
    unfolding loopE_Cons_None by blast
  have "P s'"
    using Cons.prems(3)[OF _ s'(1) Cons.prems(2)] by simp
  then show ?case
    using Cons.IH[OF s'(2)] Cons.prems(3) by (metis list.set_intros(2))
qed

section \<open>Go maps\<close>

type_synonym ('k, 'v) gomap = "('k \<times> 'v) list"

text \<open>Reading a missing key yields the zero value of the element type.\<close>

definition gget :: "'v \<Rightarrow> ('k, 'v) gomap \<Rightarrow> 'k \<Rightarrow> 'v" where
  "gget z m k = (case map_of m k of None \<Rightarrow> z | Some v \<Rightarrow> v)"

definition ghas :: "('k, 'v) gomap \<Rightarrow> 'k \<Rightarrow> bool" where
  "ghas m k \<longleftrightarrow> map_of m k \<noteq> None"

abbreviation gput :: "'k \<Rightarrow> 'v \<Rightarrow> ('k, 'v) gomap \<Rightarrow> ('k, 'v) gomap" where
  "gput \<equiv> AList.update"

abbreviation gkeys :: "('k, 'v) gomap \<Rightarrow> 'k list" where
  "gkeys m \<equiv> map fst m"

lemma gget_Nil [simp]: "gget z [] k = z"
  by (simp add: gget_def)

lemma ghas_Nil [simp]: "\<not> ghas [] k"
  by (simp add: ghas_def)

lemma gget_gput [simp]: "gget z (gput k v m) j = (if k = j then v else gget z m j)"
  by (simp add: gget_def update_conv')

lemma ghas_gput [simp]: "ghas (gput k v m) j \<longleftrightarrow> k = j \<or> ghas m j"
  by (auto simp: ghas_def update_conv')

lemma ghas_keys: "ghas m k \<longleftrightarrow> k \<in> set (gkeys m)"
  by (simp add: ghas_def map_of_eq_None_iff)

lemma gget_missing: "\<not> ghas m k \<Longrightarrow> gget z m k = z"
  by (simp add: ghas_def gget_def)

lemma distinct_gput [simp]: "distinct (gkeys m) \<Longrightarrow> distinct (gkeys (gput k v m))"
  by (rule distinct_update)

lemma set_gkeys_gput [simp]: "set (gkeys (gput k v m)) = insert k (set (gkeys m))"
  by (simp add: dom_update)

lemma gget_in: "distinct (gkeys m) \<Longrightarrow> (k, v) \<in> set m \<Longrightarrow> gget z m k = v"
  by (simp add: gget_def)

section \<open>Ledgers\<close>

text \<open>
  A posting changes the balance of one account by its amount, or is refused. Running totals,
  per-group buckets and summary buckets are all ledgers; what the clients need is that a run of
  postings that is not refused leaves exactly the sums, whatever the order.
\<close>

locale ledger =
  fixes post :: "'p \<Rightarrow> 's \<Rightarrow> 'e + 's"
    and balance :: "'s \<Rightarrow> 'k \<Rightarrow> int"
    and account :: "'p \<Rightarrow> 'k"
    and amount :: "'p \<Rightarrow> int"
  assumes post_exact: "post p s = Inr s' \<Longrightarrow>
    balance s' k = balance s k + (if account p = k then amount p else 0)"
begin

lemma run_exact:
  "foldE post ps s = Inr s' \<Longrightarrow>
     balance s' k = balance s k + (\<Sum>p\<leftarrow>ps. if account p = k then amount p else 0)"
proof (induction ps arbitrary: s)
  case Nil
  then show ?case by simp
next
  case (Cons p ps)
  then obtain u where u: "post p s = Inr u" "foldE post ps u = Inr s'"
    by (auto simp: result_simps)
  from Cons.IH[OF u(2)] post_exact[OF u(1), of k] show ?case by simp
qed

lemma run_order_irrelevant:
  assumes "mset ps = mset qs" and "foldE post ps s = Inr t" and "foldE post qs s = Inr u"
  shows "balance t k = balance u k"
proof -
  let ?g = "\<lambda>p. if account p = k then amount p else 0"
  have "sum_list (map ?g ps) = sum_list (map ?g qs)"
    using assms(1) by (rule sum_list_mset_cong)
  with run_exact[OF assms(2), of k] run_exact[OF assms(3), of k] show ?thesis by simp
qed

end

text \<open>
  A ledger that refuses a posting only when the new balance would leave a range.
\<close>

locale bounded_ledger = ledger +
  fixes lo hi :: int
  assumes post_accepts:
    "lo \<le> balance s (account p) + amount p \<Longrightarrow> balance s (account p) + amount p \<le> hi \<Longrightarrow>
       \<exists>s'. post p s = Inr s'"
begin

text \<open>
  A run is accepted if on every account the amounts posted there are small enough together.
\<close>

lemma run_accepts:
  assumes "\<And>k. \<bar>balance s k\<bar> + (\<Sum>p\<leftarrow>ps. if account p = k then \<bar>amount p\<bar> else 0) \<le> min hi (- lo)"
  shows "\<exists>s'. foldE post ps s = Inr s'"
  using assms
proof (induction ps arbitrary: s)
  case Nil
  then show ?case by simp
next
  case (Cons p ps)
  have nonneg: "0 \<le> (\<Sum>q\<leftarrow>ps. if account q = k then \<bar>amount q\<bar> else 0)" for k
    by (rule sum_list_nonneg) auto
  from Cons.prems[of "account p"] nonneg[of "account p"]
  have "lo \<le> balance s (account p) + amount p" "balance s (account p) + amount p \<le> hi"
    by auto
  then obtain u where u: "post p s = Inr u"
    using post_accepts by blast
  have "\<bar>balance u k\<bar> + (\<Sum>q\<leftarrow>ps. if account q = k then \<bar>amount q\<bar> else 0) \<le> min hi (- lo)" for k
    using post_exact[OF u, of k] Cons.prems[of k] by (auto split: if_splits)
  from Cons.IH[OF this] u show ?case by simp
qed

end

section \<open>Sorting by a comparison function\<close>

text \<open>
  \<open>sort.Slice\<close> and \<open>sort.SliceStable\<close> take a comparison function. The model is the stable
  insertion sort; where the sort is not stable in Go the properties below use only what holds
  of every sort: the result is an ordered permutation, and it is unique when no two elements
  have the same key.
\<close>

fun insert_by :: "('a \<Rightarrow> 'a \<Rightarrow> bool) \<Rightarrow> 'a \<Rightarrow> 'a list \<Rightarrow> 'a list" where
  "insert_by lt x [] = [x]"
| "insert_by lt x (y # ys) = (if lt y x then y # insert_by lt x ys else x # y # ys)"

definition sort_by :: "('a \<Rightarrow> 'a \<Rightarrow> bool) \<Rightarrow> 'a list \<Rightarrow> 'a list" where
  "sort_by lt xs = foldr (insert_by lt) xs []"

lemma mset_insert_by [simp]: "mset (insert_by lt x xs) = add_mset x (mset xs)"
  by (induction xs) auto

lemma mset_sort_by [simp]: "mset (sort_by lt xs) = mset xs"
  by (induction xs) (auto simp: sort_by_def)

lemma set_sort_by [simp]: "set (sort_by lt xs) = set xs"
  by (metis mset_sort_by set_mset_mset)

lemma length_sort_by [simp]: "length (sort_by lt xs) = length xs"
  by (metis mset_sort_by size_mset)

lemma sort_by_eq_Nil [simp]: "sort_by lt xs = [] \<longleftrightarrow> xs = []"
  by (metis length_0_conv length_sort_by)

locale keyed_order =
  fixes lt :: "'a \<Rightarrow> 'a \<Rightarrow> bool"
    and key :: "'a \<Rightarrow> 'k::linorder"
  assumes less_key: "lt x y \<longleftrightarrow> key x < key y"
begin

lemma insert_by_insort: "insert_by lt x xs = insort_key key x xs"
  by (induction xs) (auto simp: less_key not_less)

lemma sort_by_sort_key: "sort_by lt xs = sort_key key xs"
  unfolding sort_by_def sort_key_def
  by (induction xs) (auto simp: insert_by_insort)

lemma sorted_sort_by: "sorted (map key (sort_by lt xs))"
  by (simp add: sort_by_sort_key)

lemma sort_by_unique:
  assumes "mset xs = mset ys" and "inj_on key (set xs)"
  shows "sort_by lt xs = sort_by lt ys"
proof -
  have "sort_key key xs = sort_key key ys"
  proof (rule sort_key_inj_key_eq)
    show "mset xs = mset (sort_key key ys)" using assms(1) by simp
    show "inj_on key (set xs)" by (fact assms(2))
    show "sorted (map key (sort_key key ys))" by simp
  qed
  then show ?thesis by (simp add: sort_by_sort_key)
qed

end

section \<open>Evaluation of 64-bit words\<close>

text \<open>
  Code equations that spare the evaluation the powers of two of the width every program integer
  has.
\<close>

lemma take_bit_int_code64 [code]:
  "take_bit n (k :: int) = (if n = 64 then k mod 18446744073709551616 else k mod 2 ^ n)"
  by (simp add: take_bit_eq_mod)

lemma signed_take_bit_int_code63 [code]:
  "signed_take_bit n (k :: int) =
     (if n = 63 then (k + 9223372036854775808) mod 18446744073709551616 - 9223372036854775808
      else take_bit (Suc n) (k + 2 ^ n) - 2 ^ n)"
  by (simp add: signed_take_bit_eq_take_bit_shift take_bit_eq_mod)

end
