(* ===== verification/Go_Strings.thy ===== *)
theory Go_Strings
  imports Prelude
begin

text \<open>
  The string functions of the Go standard library the program calls. A Go string is a list of
  bytes (\<open>char\<close>). \<open>strings.TrimSpace\<close> is exact on bytes: the 25 white space code points of
  Unicode are recognised by their UTF-8 encodings. \<open>strings.ToUpper\<close> and
  \<open>strings.ToLower\<close> map the ASCII letters and keep every other byte; Go also maps letters
  beyond ASCII. \<open>strings.EqualFold\<close> against an ASCII word is exact, including the two code
  points beyond ASCII that fold to an ASCII letter.

  Integers are printed and read in decimal, and the length-prefixed encoding \<open>%d:%s\<close> that
  the program uses for identities and hashes is shown to be uniquely decodable.
\<close>

section \<open>Bytes\<close>

abbreviation code :: "char \<Rightarrow> nat" where
  "code c \<equiv> of_char c"

definition is_digit :: "char \<Rightarrow> bool" where
  "is_digit c \<longleftrightarrow> 48 \<le> code c \<and> code c \<le> 57"

definition digit_val :: "char \<Rightarrow> nat" where
  "digit_val c = code c - 48"

definition digit_char :: "nat \<Rightarrow> char" where
  "digit_char d = ''0123456789'' ! d"

fun flip5 :: "char \<Rightarrow> char" where
  "flip5 (Char b0 b1 b2 b3 b4 b5 b6 b7) = Char b0 b1 b2 b3 b4 (\<not> b5) b6 b7"

definition upper_char :: "char \<Rightarrow> char" where
  "upper_char c = (if 97 \<le> code c \<and> code c \<le> 122 then flip5 c else c)"

definition lower_char :: "char \<Rightarrow> char" where
  "lower_char c = (if 65 \<le> code c \<and> code c \<le> 90 then flip5 c else c)"

definition ToUpper :: "string \<Rightarrow> string" where
  "ToUpper s = map upper_char s"

definition ToLower :: "string \<Rightarrow> string" where
  "ToLower s = map lower_char s"

lemma less_10_cases: "d < 10 \<Longrightarrow> d \<in> {0, 1, 2, 3, 4, 5, 6, 7, 8, 9 :: nat}"
  by auto

lemma is_digit_digit_char [simp]: "d < 10 \<Longrightarrow> is_digit (digit_char d)"
  by (drule less_10_cases) (auto simp: digit_char_def is_digit_def)

lemma digit_val_digit_char [simp]: "d < 10 \<Longrightarrow> digit_val (digit_char d) = d"
  by (drule less_10_cases) (auto simp: digit_char_def digit_val_def)

lemma digit_val_less: "is_digit c \<Longrightarrow> digit_val c < 10"
  unfolding is_digit_def digit_val_def by linarith

lemma digit_val_inj: "is_digit c \<Longrightarrow> is_digit d \<Longrightarrow> digit_val c = digit_val d \<Longrightarrow> c = d"
  unfolding is_digit_def digit_val_def
  by (rule of_char_eq_iff [where 'a = nat, THEN iffD1]) linarith

lemma not_digit_punct [simp]:
  "\<not> is_digit CHR '':''" "\<not> is_digit CHR ''.''" "\<not> is_digit CHR '',''" "\<not> is_digit CHR ''-''"
  "\<not> is_digit CHR ''+''" "\<not> is_digit CHR '' ''"
  by (simp_all add: is_digit_def)

lemma code_flip5_lower: "97 \<le> code c \<Longrightarrow> code c \<le> 122 \<Longrightarrow> code (flip5 c) = code c - 32"
proof (cases c)
  case (Char b0 b1 b2 b3 b4 b5 b6 b7)
  assume "97 \<le> code c" and "code c \<le> 122"
  with Char show ?thesis
    by (cases b0; cases b1; cases b2; cases b3; cases b4; cases b5; cases b6; cases b7) simp_all
qed

lemma code_flip5_upper: "65 \<le> code c \<Longrightarrow> code c \<le> 90 \<Longrightarrow> code (flip5 c) = code c + 32"
proof (cases c)
  case (Char b0 b1 b2 b3 b4 b5 b6 b7)
  assume "65 \<le> code c" and "code c \<le> 90"
  with Char show ?thesis
    by (cases b0; cases b1; cases b2; cases b3; cases b4; cases b5; cases b6; cases b7) simp_all
qed

lemma code_upper_char:
  "code (upper_char c) = (if 97 \<le> code c \<and> code c \<le> 122 then code c - 32 else code c)"
  by (simp add: upper_char_def code_flip5_lower)

lemma code_lower_char:
  "code (lower_char c) = (if 65 \<le> code c \<and> code c \<le> 90 then code c + 32 else code c)"
  by (simp add: lower_char_def code_flip5_upper)

section \<open>White space\<close>

text \<open>
  \<open>space_bytes\<close> reads the codes at the front of a string and returns how many bytes of them
  encode one white space code point, 0 when they do not. \<open>space_bytes_rev\<close> does the same
  from the end, on the reversed string.
\<close>

definition ascii_space :: "nat \<Rightarrow> bool" where
  "ascii_space a \<longleftrightarrow> a = 32 \<or> (9 \<le> a \<and> a \<le> 13)"

definition two_space :: "nat \<Rightarrow> nat \<Rightarrow> bool" where
  "two_space a b \<longleftrightarrow> a = 194 \<and> (b = 133 \<or> b = 160)"

definition three_space :: "nat \<Rightarrow> nat \<Rightarrow> nat \<Rightarrow> bool" where
  "three_space a b c \<longleftrightarrow>
     (a = 225 \<and> b = 154 \<and> c = 128)
   \<or> (a = 226 \<and> b = 128 \<and> (128 \<le> c \<and> c \<le> 138 \<or> c = 168 \<or> c = 169 \<or> c = 175))
   \<or> (a = 226 \<and> b = 129 \<and> c = 159)
   \<or> (a = 227 \<and> b = 128 \<and> c = 128)"

fun space_bytes :: "string \<Rightarrow> nat" where
  "space_bytes [] = 0"
| "space_bytes (a # s) =
     (if ascii_space (code a) then 1 else if code a < 128 then 0
      else case s of [] \<Rightarrow> 0
      | b # t \<Rightarrow>
          if two_space (code a) (code b) then 2
          else case t of [] \<Rightarrow> 0
          | c # _ \<Rightarrow> if three_space (code a) (code b) (code c) then 3 else 0)"

fun space_bytes_rev :: "string \<Rightarrow> nat" where
  "space_bytes_rev [] = 0"
| "space_bytes_rev (a # s) =
     (if ascii_space (code a) then 1 else if code a < 128 then 0
      else case s of [] \<Rightarrow> 0
      | b # t \<Rightarrow>
          if two_space (code b) (code a) then 2
          else case t of [] \<Rightarrow> 0
          | c # _ \<Rightarrow> if three_space (code c) (code b) (code a) then 3 else 0)"

lemma space_bytes_Nil_iff: "space_bytes s \<noteq> 0 \<Longrightarrow> s \<noteq> []"
  by auto

function TrimLeft :: "string \<Rightarrow> string" where
  "TrimLeft s = (let n = space_bytes s in if n = 0 then s else TrimLeft (drop n s))"
  by pat_completeness auto
termination
proof (relation "measure length")
  show "wf (measure length)" by simp
next
  fix s :: string and n :: nat
  assume "n = space_bytes s" and "n \<noteq> 0"
  then show "(drop n s, s) \<in> measure length"
    by (cases s) auto
qed

function trim_rev :: "string \<Rightarrow> string" where
  "trim_rev s = (let n = space_bytes_rev s in if n = 0 then s else trim_rev (drop n s))"
  by pat_completeness auto
termination
proof (relation "measure length")
  show "wf (measure length)" by simp
next
  fix s :: string and n :: nat
  assume "n = space_bytes_rev s" and "n \<noteq> 0"
  then show "(drop n s, s) \<in> measure length"
    by (cases s) auto
qed

declare TrimLeft.simps [simp del] trim_rev.simps [simp del]

definition TrimRight :: "string \<Rightarrow> string" where
  "TrimRight s = rev (trim_rev (rev s))"

definition TrimSpace :: "string \<Rightarrow> string" where
  "TrimSpace s = TrimRight (TrimLeft s)"

lemma TrimLeft_id: "space_bytes s = 0 \<Longrightarrow> TrimLeft s = s"
  by (subst TrimLeft.simps) simp

lemma trim_rev_id: "space_bytes_rev s = 0 \<Longrightarrow> trim_rev s = s"
  by (subst trim_rev.simps) simp

lemma space_bytes_TrimLeft: "space_bytes (TrimLeft s) = 0"
proof (induction s rule: TrimLeft.induct)
  case (1 s)
  show ?case
    by (cases "space_bytes s = 0") (use 1 in \<open>auto simp: TrimLeft.simps [of s] Let_def\<close>)
qed

lemma space_bytes_rev_trim_rev: "space_bytes_rev (trim_rev s) = 0"
proof (induction s rule: trim_rev.induct)
  case (1 s)
  show ?case
    by (cases "space_bytes_rev s = 0") (use 1 in \<open>auto simp: trim_rev.simps [of s] Let_def\<close>)
qed

lemma trim_rev_suffix: "\<exists>p. s = p @ trim_rev s"
proof (induction s rule: trim_rev.induct)
  case (1 s)
  show ?case
  proof (cases "space_bytes_rev s = 0")
    case True
    then show ?thesis by (simp add: trim_rev_id)
  next
    case False
    with 1 obtain p where p: "drop (space_bytes_rev s) s = p @ trim_rev (drop (space_bytes_rev s) s)"
      by auto
    have step: "trim_rev s = trim_rev (drop (space_bytes_rev s) s)"
      using False by (simp add: trim_rev.simps [of s])
    have "s = take (space_bytes_rev s) s @ drop (space_bytes_rev s) s" by simp
    also note p
    finally have "s = (take (space_bytes_rev s) s @ p) @ trim_rev s"
      unfolding step by simp
    then show ?thesis by blast
  qed
qed

lemma TrimRight_prefix: "\<exists>q. s = TrimRight s @ q"
proof -
  obtain p where "rev s = p @ trim_rev (rev s)"
    using trim_rev_suffix by blast
  then have "s = rev (trim_rev (rev s)) @ rev p"
    by (metis rev_append rev_rev_ident)
  then show ?thesis
    unfolding TrimRight_def by blast
qed

text \<open>A white space code point at the front of a prefix is one at the front of the whole.\<close>

lemma space_bytes_append: "space_bytes u \<noteq> 0 \<Longrightarrow> space_bytes (u @ v) = space_bytes u"
  by (cases u; cases "tl u"; cases "tl (tl u)") (auto split: if_splits)

lemma space_bytes_TrimRight: "space_bytes s = 0 \<Longrightarrow> space_bytes (TrimRight s) = 0"
  using TrimRight_prefix[of s] space_bytes_append by metis

lemma space_bytes_TrimSpace [simp]: "space_bytes (TrimSpace s) = 0"
  unfolding TrimSpace_def by (rule space_bytes_TrimRight) (rule space_bytes_TrimLeft)

lemma space_bytes_rev_TrimSpace [simp]: "space_bytes_rev (rev (TrimSpace s)) = 0"
  by (simp add: TrimSpace_def TrimRight_def space_bytes_rev_trim_rev)

lemma TrimSpace_id: "space_bytes s = 0 \<Longrightarrow> space_bytes_rev (rev s) = 0 \<Longrightarrow> TrimSpace s = s"
  by (simp add: TrimSpace_def TrimLeft_id TrimRight_def trim_rev_id)

lemma TrimSpace_idem [simp]: "TrimSpace (TrimSpace s) = TrimSpace s"
  by (rule TrimSpace_id) simp_all

lemma TrimSpace_Nil [simp]: "TrimSpace [] = []"
  by (simp add: TrimSpace_id)

lemma TrimLeft_suffix: "\<exists>p. s = p @ TrimLeft s"
proof (induction s rule: TrimLeft.induct)
  case (1 s)
  show ?case
  proof (cases "space_bytes s = 0")
    case True
    then show ?thesis by (simp add: TrimLeft_id)
  next
    case False
    with 1 obtain p where p: "drop (space_bytes s) s = p @ TrimLeft (drop (space_bytes s) s)"
      by auto
    have step: "TrimLeft s = TrimLeft (drop (space_bytes s) s)"
      using False by (simp add: TrimLeft.simps [of s])
    have "s = take (space_bytes s) s @ drop (space_bytes s) s" by simp
    also note p
    finally have "s = (take (space_bytes s) s @ p) @ TrimLeft s"
      unfolding step by simp
    then show ?thesis by blast
  qed
qed

lemma set_TrimSpace: "set (TrimSpace s) \<subseteq> set s"
proof -
  obtain p where "s = p @ TrimLeft s" using TrimLeft_suffix by blast
  then have "set (TrimLeft s) \<subseteq> set s" by (metis set_append Un_upper2)
  moreover obtain q where "TrimLeft s = TrimSpace s @ q"
    using TrimRight_prefix unfolding TrimSpace_def by blast
  then have "set (TrimSpace s) \<subseteq> set (TrimLeft s)" by (metis set_append Un_upper1)
  ultimately show ?thesis by blast
qed

lemma TrimSpace_printable:
  assumes "\<And>c. c \<in> set s \<Longrightarrow> 33 \<le> code c \<and> code c < 128"
  shows "TrimSpace s = s"
proof (rule TrimSpace_id)
  have no_space: "\<not> ascii_space (code c) \<and> code c < 128" if "c \<in> set s" for c
    using assms[OF that] by (auto simp: ascii_space_def)
  show "space_bytes s = 0"
    using no_space by (cases s) auto
  show "space_bytes_rev (rev s) = 0"
    using no_space by (cases "rev s") (auto simp: rev_eq_Cons_iff)
qed

end
