(* ===== verification/Go_Text.thy ===== *)
theory Go_Text
  imports Go_Strings
begin

text \<open>
  Splitting, joining and printing: \<open>strings.Split\<close> and \<open>strings.Join\<close> for the
  separators the program uses, \<open>strings.EqualFold\<close> against an ASCII word, decimal printing
  (\<open>%d\<close>) and reading (\<open>strconv.ParseUint\<close>, \<open>strconv.Atoi\<close>), and the length-prefixed
  encoding of a list of strings with the interface \<open>self_delimiting\<close> that makes it injective.
\<close>

section \<open>Split and Join\<close>

fun Split :: "char \<Rightarrow> string \<Rightarrow> string list" where
  "Split c [] = [[]]"
| "Split c (x # xs) =
     (if x = c then [] # Split c xs
      else (case Split c xs of [] \<Rightarrow> [[x]] | w # ws \<Rightarrow> (x # w) # ws))"

fun Join :: "string list \<Rightarrow> string \<Rightarrow> string" where
  "Join [] sep = []"
| "Join [w] sep = w"
| "Join (w # v # ws) sep = w @ sep @ Join (v # ws) sep"

lemma Split_nonempty [simp]: "Split c s \<noteq> []"
  by (induction s) (auto split: list.splits)

lemma Split_no_sep: "c \<notin> set w \<Longrightarrow> Split c w = [w]"
  by (induction w) auto

lemma Split_append_sep: "c \<notin> set w \<Longrightarrow> Split c (w @ c # s) = w # Split c s"
  by (induction w) auto

lemma Split_Join:
  "ws \<noteq> [] \<Longrightarrow> (\<And>w. w \<in> set ws \<Longrightarrow> c \<notin> set w) \<Longrightarrow> Split c (Join ws [c]) = ws"
  by (induction ws "[c]" rule: Join.induct) (auto simp: Split_no_sep Split_append_sep)

lemma Join_inject:
  assumes "ws \<noteq> []" "vs \<noteq> []"
    and "\<And>w. w \<in> set ws \<Longrightarrow> c \<notin> set w" "\<And>v. v \<in> set vs \<Longrightarrow> c \<notin> set v"
  shows "Join ws [c] = Join vs [c] \<longleftrightarrow> ws = vs"
  using Split_Join[OF assms(1) assms(3)] Split_Join[OF assms(2) assms(4)] by metis

lemma Join_eq_Nil: "ws \<noteq> [] \<Longrightarrow> (\<And>w. w \<in> set ws \<Longrightarrow> w \<noteq> []) \<Longrightarrow> Join ws sep \<noteq> []"
  by (induction ws sep rule: Join.induct) auto

section \<open>EqualFold\<close>

text \<open>
  \<open>strings.EqualFold(s, w)\<close> for an ASCII word \<open>w\<close>: each byte of \<open>w\<close> is met by itself
  in either case, or, for s and k, by the code point U+017F or U+212A.
\<close>

fun EqualFold :: "string \<Rightarrow> string \<Rightarrow> bool" where
  "EqualFold s [] = (s = [])"
| "EqualFold [] (c # w) = False"
| "EqualFold (x # s) (c # w) =
     (if lower_char x = lower_char c then EqualFold s w
      else if lower_char c = CHR ''s'' \<and> code x = 197 then
        (case s of y # t \<Rightarrow> code y = 191 \<and> EqualFold t w | [] \<Rightarrow> False)
      else if lower_char c = CHR ''k'' \<and> code x = 226 then
        (case s of y # z # t \<Rightarrow> code y = 132 \<and> code z = 170 \<and> EqualFold t w | _ \<Rightarrow> False)
      else False)"

lemma EqualFold_refl [simp]: "EqualFold s s"
  by (induction s) auto

lemma EqualFold_released_deferred:
  "EqualFold s ''Released'' \<Longrightarrow> \<not> EqualFold s ''Deferred''"
  by (cases s) (auto simp: lower_char_def split: if_splits)

section \<open>Decimal numbers\<close>

fun dec :: "nat \<Rightarrow> string" where
  "dec n = (if n < 10 then [digit_char n] else dec (n div 10) @ [digit_char (n mod 10)])"

declare dec.simps [simp del]

definition dec_int :: "int \<Rightarrow> string" where
  "dec_int i = (if i < 0 then CHR ''-'' # dec (nat (- i)) else dec (nat i))"

definition dec_value :: "string \<Rightarrow> nat" where
  "dec_value s = foldl (\<lambda>n c. 10 * n + digit_val c) 0 s"

definition all_digits :: "string \<Rightarrow> bool" where
  "all_digits s \<longleftrightarrow> s \<noteq> [] \<and> list_all is_digit s"

lemma dec_value_Nil [simp]: "dec_value [] = 0"
  by (simp add: dec_value_def)

lemma dec_value_snoc [simp]: "dec_value (s @ [c]) = 10 * dec_value s + digit_val c"
  by (simp add: dec_value_def)

lemma dec_value_single [simp]: "dec_value [c] = digit_val c"
  by (simp add: dec_value_def)

lemma dec_small [simp]: "n < 10 \<Longrightarrow> dec n = [digit_char n]"
  by (subst dec.simps) simp

lemma dec_large: "10 \<le> n \<Longrightarrow> dec n = dec (n div 10) @ [digit_char (n mod 10)]"
  by (subst dec.simps) simp

lemma dec_nonempty [simp]: "dec n \<noteq> []"
  by (subst dec.simps) simp

lemma dec_digits: "list_all is_digit (dec n)"
proof (induction n rule: dec.induct)
  case (1 n)
  then show ?case by (cases "n < 10") (auto simp: dec_large)
qed

lemma all_digits_dec [simp]: "all_digits (dec n)"
  by (simp add: all_digits_def dec_digits)

lemma dec_value_dec [simp]: "dec_value (dec n) = n"
proof (induction n rule: dec.induct)
  case (1 n)
  then show ?case by (cases "n < 10") (auto simp: dec_large)
qed

lemma dec_inject [simp]: "dec n = dec m \<longleftrightarrow> n = m"
  by (metis dec_value_dec)

lemma dec_value_bound: "list_all is_digit s \<Longrightarrow> dec_value s < 10 ^ length s"
proof (induction s rule: rev_induct)
  case Nil
  then show ?case by simp
next
  case (snoc c s)
  then have "dec_value s < 10 ^ length s" "digit_val c < 10"
    by (auto simp: digit_val_less)
  then show ?case by simp
qed

lemma dec_length_le: "n < 10 ^ k \<Longrightarrow> 0 < k \<Longrightarrow> length (dec n) \<le> k"
proof (induction k arbitrary: n)
  case 0
  then show ?case by simp
next
  case (Suc k)
  show ?case
  proof (cases "n < 10")
    case True
    then show ?thesis by simp
  next
    case False
    with Suc.prems have "0 < k" by (cases k) auto
    moreover have "n div 10 < 10 ^ k"
      using Suc.prems(1) by (simp add: less_mult_imp_div_less mult.commute)
    ultimately have "length (dec (n div 10)) \<le> k" using Suc.IH by simp
    with False show ?thesis by (simp add: dec_large)
  qed
qed

text \<open>No leading zero: the first digit of a printed number of two or more digits.\<close>

lemma hd_dec_nonzero: "0 < n \<Longrightarrow> 0 < digit_val (hd (dec n))"
proof (induction n rule: dec.induct)
  case (1 n)
  then show ?case by (cases "n < 10") (auto simp: dec_large)
qed

lemma dec_int_inject [simp]: "dec_int a = dec_int b \<longleftrightarrow> a = b"
proof
  have minus: "CHR ''-'' # s \<noteq> dec n" for s n
    using dec_digits[of n] by (cases "dec n") (auto simp: is_digit_def)
  assume "dec_int a = dec_int b"
  then show "a = b" using minus minus[symmetric] by (auto simp: dec_int_def split: if_splits)
qed simp

section \<open>Length-prefixed encoding\<close>

definition hash_part :: "string \<Rightarrow> string" where
  "hash_part v = dec (length v) @ '':'' @ v"

locale self_delimiting =
  fixes enc :: "'a \<Rightarrow> string"
  assumes enc_split: "enc x @ u = enc y @ v \<Longrightarrow> x = y \<and> u = v"
begin

lemma concat_inject_length:
  "concat (map enc xs) @ u = concat (map enc ys) @ v \<Longrightarrow> length xs = length ys \<Longrightarrow>
     xs = ys \<and> u = v"
proof (induction xs arbitrary: ys)
  case Nil
  then show ?case by simp
next
  case (Cons x xs)
  then obtain y zs where ys: "ys = y # zs" by (cases ys) auto
  with Cons.prems(1) have "x = y \<and> concat (map enc xs) @ u = concat (map enc zs) @ v"
    by (intro enc_split) simp
  with Cons.IH[of zs] Cons.prems(2) ys show ?case by simp
qed

lemma enc_nonempty: "enc x = [] \<Longrightarrow> enc y = [] \<Longrightarrow> x = y"
  using enc_split[of x "[]" y "[]"] by simp

end

text \<open>An encoding none of whose words is empty also separates lists of different lengths.\<close>

locale self_delimiting_nonempty = self_delimiting +
  assumes enc_not_Nil: "enc x \<noteq> []"
begin

lemma concat_inject: "concat (map enc xs) = concat (map enc ys) \<longleftrightarrow> xs = ys"
proof (induction xs arbitrary: ys)
  case Nil
  then show ?case using enc_not_Nil by (cases ys) auto
next
  case (Cons x xs)
  show ?case
  proof (cases ys)
    case Nil
    then show ?thesis using enc_not_Nil by simp
  next
    case (Cons y zs)
    then show ?thesis
      using enc_split[of x "concat (map enc xs)" y "concat (map enc zs)"] Cons.IH[of zs] by auto
  qed
qed

end

lemma takeWhile_dec_colon: "takeWhile is_digit (dec n @ CHR '':'' # u) = dec n"
  using dec_digits[of n] by (subst takeWhile_append2) (auto simp: list_all_iff)

lemma hash_part_split: "hash_part x @ u = hash_part y @ v \<Longrightarrow> x = y \<and> u = v"
proof -
  assume eq: "hash_part x @ u = hash_part y @ v"
  then have "dec (length x) @ CHR '':'' # (x @ u) = dec (length y) @ CHR '':'' # (y @ v)"
    by (simp add: hash_part_def)
  then have len: "dec (length x) = dec (length y)"
    by (metis takeWhile_dec_colon)
  with eq show ?thesis by (simp add: hash_part_def)
qed

interpretation hash_code: self_delimiting_nonempty hash_part
proof unfold_locales
  show "x = y \<and> u = v" if "hash_part x @ u = hash_part y @ v" for x y u v
    using that by (rule hash_part_split)
  show "hash_part x \<noteq> []" for x
    by (simp add: hash_part_def)
qed

section \<open>strconv\<close>

datatype num_error = ErrSyntax | ErrRange

text \<open>
  \<open>strconv.ParseUint(s, 10, 64)\<close>: only digits, and the value must fit 64 bits.
\<close>

definition ParseUint64 :: "string \<Rightarrow> num_error + 64 word" where
  "ParseUint64 s =
     (if \<not> all_digits s then Inl ErrSyntax
      else if 2 ^ 64 \<le> dec_value s then Inl ErrRange
      else Inr (of_nat (dec_value s)))"

lemma ParseUint64_Inr: "ParseUint64 s = Inr w \<Longrightarrow> unat w = dec_value s"
  by (auto simp: ParseUint64_def unat_of_nat split: if_splits)

lemma ParseUint64_ok:
  "all_digits s \<Longrightarrow> dec_value s < 2 ^ 64 \<Longrightarrow> ParseUint64 s = Inr (of_nat (dec_value s))"
  by (simp add: ParseUint64_def)

text \<open>\<open>strconv.Atoi\<close> on a 64-bit platform: an optional sign, then decimal digits.\<close>

definition Atoi :: "string \<Rightarrow> num_error + int" where
  "Atoi s =
     (let neg = (s \<noteq> [] \<and> hd s = CHR ''-'');
          body = (if s \<noteq> [] \<and> (hd s = CHR ''-'' \<or> hd s = CHR ''+'') then tl s else s)
      in if \<not> all_digits body then Inl ErrSyntax
         else let v = (if neg then - int (dec_value body) else int (dec_value body))
              in if - (2 ^ 63) \<le> v \<and> v < 2 ^ 63 then Inr v else Inl ErrRange)"

lemma Atoi_dec: "n < 2 ^ 63 \<Longrightarrow> Atoi (dec n) = Inr (int n)"
proof -
  assume n: "n < 2 ^ 63"
  have "is_digit (hd (dec n))"
    using dec_digits[of n] by (metis dec_nonempty list.pred_set hd_in_set)
  then have "hd (dec n) \<noteq> CHR ''-''" "hd (dec n) \<noteq> CHR ''+''"
    by auto
  with n show ?thesis by (simp add: Atoi_def)
qed

end
