(* ===== verification/Money.thy ===== *)
theory Money
  imports Go_Text
begin

unbundle bit_operations_syntax

text \<open>
  Package \<open>internal/money\<close>: signed cents in an \<open>int64\<close>. Values are 64-bit words; \<open><s\<close>
  and \<open>\<le>s\<close> compare them as signed numbers, the plain comparisons and \<open>div\<close>, \<open>mod\<close> as
  unsigned ones, and a conversion between \<open>int64\<close> and \<open>uint64\<close> keeps the bits.

  The lemmas say what the checked operations compute over the integers: each returns exactly
  when the exact result fits, and then it is the exact result.
\<close>

type_synonym int64 = "64 word"
type_synonym uint64 = "64 word"

datatype money_error =
    EmptyAmount
  | InvalidAmount string
  | AmountSyntax string num_error
  | CentsOverflow string
  | AdditionOverflow
  | AdditionUnderflow
  | SubtractionUnderflow
  | SubtractionOverflow

definition maxInt64 :: int64 where
  "maxInt64 = drop_bit 1 (NOT 0)"

section \<open>Checked addition and subtraction\<close>

definition Add :: "int64 \<Rightarrow> int64 \<Rightarrow> money_error + int64" where
  "Add a b =
     (if 0 <s b \<and> maxInt64 - b <s a then Inl AdditionOverflow
      else if b <s 0 \<and> a <s - maxInt64 - 1 - b then Inl AdditionUnderflow
      else Inr (a + b))"

definition Sub :: "int64 \<Rightarrow> int64 \<Rightarrow> money_error + int64" where
  "Sub a b =
     (if 0 <s b \<and> a <s - maxInt64 - 1 + b then Inl SubtractionUnderflow
      else if b <s 0 \<and> maxInt64 + b <s a then Inl SubtractionOverflow
      else Inr (a - b))"

section \<open>Parsing and printing amounts\<close>

text \<open>
  The regular expression \<open>^-?(?:0|[1-9]\d{0,2}(?:,\d{3})*|\d+)(?:\.\d{1,2})?$\<close>: its
  whole part has no full stop, so the text up to the first full stop is matched by the
  alternatives and the rest by the optional fraction.
\<close>

fun thousands :: "string \<Rightarrow> bool" where
  "thousands [] = True"
| "thousands (c # a # b # d # s) =
     (c = CHR '','' \<and> is_digit a \<and> is_digit b \<and> is_digit d \<and> thousands s)"
| "thousands _ = False"

definition grouped :: "string \<Rightarrow> bool" where
  "grouped w =
     (let h = takeWhile is_digit w
      in h \<noteq> [] \<and> hd h \<noteq> CHR ''0'' \<and> length h \<le> 3 \<and> thousands (dropWhile is_digit w))"

definition whole_ok :: "string \<Rightarrow> bool" where
  "whole_ok w \<longleftrightarrow> w = ''0'' \<or> grouped w \<or> all_digits w"

definition frac_ok :: "string \<Rightarrow> bool" where
  "frac_ok r \<longleftrightarrow> r = [] \<or>
     (hd r = CHR ''.'' \<and> (length r = 2 \<or> length r = 3) \<and> list_all is_digit (tl r))"

definition amountPattern :: "string \<Rightarrow> bool" where
  "amountPattern s =
     (let u = (if take 1 s = ''-'' then tl s else s)
      in whole_ok (takeWhile (\<lambda>c. c \<noteq> CHR ''.'') u) \<and>
         frac_ok (dropWhile (\<lambda>c. c \<noteq> CHR ''.'') u))"

text \<open>\<open>strings.SplitN(s, sep, 2)\<close> for a one-byte separator.\<close>

definition SplitN2 :: "char \<Rightarrow> string \<Rightarrow> string list" where
  "SplitN2 c s =
     (if c \<in> set s then [takeWhile (\<lambda>x. x \<noteq> c) s, tl (dropWhile (\<lambda>x. x \<noteq> c) s)] else [s])"

definition parse_frac :: "string list \<Rightarrow> num_error + uint64" where
  "parse_frac parts =
     (if length parts = 2
      then let f = parts ! 1; f = (if length f = 1 then f @ ''0'' else f) in ParseUint64 f
      else Inr 0)"

definition signed_cents :: "string \<Rightarrow> bool \<Rightarrow> uint64 \<Rightarrow> uint64 \<Rightarrow> money_error + int64" where
  "signed_cents s negative whole frac =
     (let limit = (if negative then maxInt64 + 1 else maxInt64)
      in if limit < frac \<or> (limit - frac) div 100 < whole then Inl (CentsOverflow s)
         else let magnitude = whole * 100 + frac
              in if negative
                 then if magnitude = maxInt64 + 1 then Inr (- maxInt64 - 1) else Inr (- magnitude)
                 else Inr magnitude)"

definition ParseCents :: "string \<Rightarrow> money_error + int64" where
  "ParseCents s0 =
     (let s = TrimSpace s0
      in if s = [] then Inl EmptyAmount
         else if \<not> amountPattern s then Inl (InvalidAmount s)
         else let negative = (take 1 s = ''-'');
                  s = (if negative then tl s else s);
                  parts = SplitN2 CHR ''.'' s;
                  wholeText = filter (\<lambda>c. c \<noteq> CHR '','') (parts ! 0)
              in case ParseUint64 wholeText of Inl e \<Rightarrow> Inl (AmountSyntax s e)
                 | Inr whole \<Rightarrow>
                     (case parse_frac parts of Inl e \<Rightarrow> Inl (AmountSyntax s e)
                      | Inr frac \<Rightarrow> signed_cents s negative whole frac))"

text \<open>\<open>fmt.Sprintf("%d.%02d", whole, frac)\<close> after the magnitude is taken without overflow.\<close>

definition pad2 :: "nat \<Rightarrow> string" where
  "pad2 n = (if n < 10 then CHR ''0'' # dec n else dec n)"

definition FormatCents :: "int64 \<Rightarrow> string" where
  "FormatCents v =
     (let neg = (v <s 0);
          magnitude = (if neg then - (v + 1) + 1 else v);
          whole = magnitude div 100;
          frac = magnitude mod 100;
          s = dec (unat whole) @ ''.'' @ pad2 (unat frac)
      in if neg then CHR ''-'' # s else s)"

section \<open>Signed words\<close>

lemma maxInt64_num [code]: "maxInt64 = 9223372036854775807"
  by (simp add: maxInt64_def mask_eq_exp_minus_1)

lemma sint_maxInt64 [simp]: "sint maxInt64 = 9223372036854775807"
  by (simp add: maxInt64_num)

lemma sint_minInt64 [simp]: "sint (- maxInt64 - 1) = - 9223372036854775808"
  by (simp add: maxInt64_num)

lemma sint64_range: "- 9223372036854775808 \<le> sint (a :: int64)" "sint (a :: int64) \<le> 9223372036854775807"
  using sint_ge [of a] sint_lt [of a] by simp_all

lemma sint_add_exact:
  assumes "- 9223372036854775808 \<le> sint (a :: int64) + sint b" "sint a + sint b \<le> 9223372036854775807"
  shows "sint (a + b) = sint a + sint b"
  using assms by (simp add: sint_word_ariths signed_take_bit_int_eq_self)

lemma sint_diff_exact:
  assumes "- 9223372036854775808 \<le> sint (a :: int64) - sint b" "sint a - sint b \<le> 9223372036854775807"
  shows "sint (a - b) = sint a - sint b"
  using assms by (simp add: sint_word_ariths signed_take_bit_int_eq_self)

lemma sint_eqD: "sint (a :: int64) = sint b \<Longrightarrow> a = b"
  by (simp add: signed_word_eqI)

lemma word_sless_0: "(a :: int64) <s 0 \<longleftrightarrow> sint a < 0" "0 <s (a :: int64) \<longleftrightarrow> 0 < sint a"
  by (simp_all add: word_sless_alt)

lemma Add_cases:
  "Add a b =
     (if 9223372036854775807 < sint a + sint b then Inl AdditionOverflow
      else if sint a + sint b < - 9223372036854775808 then Inl AdditionUnderflow
      else Inr (a + b))"
proof -
  have over: "(0 <s b \<and> maxInt64 - b <s a) \<longleftrightarrow> 9223372036854775807 < sint a + sint b"
  proof (cases "0 < sint b")
    case True
    then have "sint (maxInt64 - b) = 9223372036854775807 - sint b"
      using sint64_range[of b] by (subst sint_diff_exact) auto
    with True show ?thesis by (auto simp: word_sless_alt)
  next
    case False
    then show ?thesis using sint64_range[of a] by (auto simp: word_sless_alt)
  qed
  have under: "(b <s 0 \<and> a <s - maxInt64 - 1 - b) \<longleftrightarrow> sint a + sint b < - 9223372036854775808"
  proof (cases "sint b < 0")
    case True
    then have "sint (- maxInt64 - 1 - b) = - 9223372036854775808 - sint b"
      using sint64_range[of b] by (subst sint_diff_exact) auto
    with True show ?thesis by (auto simp: word_sless_alt)
  next
    case False
    then show ?thesis using sint64_range[of a] by (auto simp: word_sless_alt)
  qed
  show ?thesis unfolding Add_def over under by simp
qed

lemma Sub_cases:
  "Sub a b =
     (if sint a - sint b < - 9223372036854775808 then Inl SubtractionUnderflow
      else if 9223372036854775807 < sint a - sint b then Inl SubtractionOverflow
      else Inr (a - b))"
proof -
  have under: "(0 <s b \<and> a <s - maxInt64 - 1 + b) \<longleftrightarrow> sint a - sint b < - 9223372036854775808"
  proof (cases "0 < sint b")
    case True
    then have "sint ((- maxInt64 - 1) + b) = - 9223372036854775808 + sint b"
      using sint64_range[of b] by (subst sint_add_exact) auto
    with True show ?thesis by (auto simp: word_sless_alt)
  next
    case False
    then show ?thesis using sint64_range[of a] by (auto simp: word_sless_alt)
  qed
  have over: "(b <s 0 \<and> maxInt64 + b <s a) \<longleftrightarrow> 9223372036854775807 < sint a - sint b"
  proof (cases "sint b < 0")
    case True
    then have "sint (maxInt64 + b) = 9223372036854775807 + sint b"
      using sint64_range[of b] by (subst sint_add_exact) auto
    with True show ?thesis by (auto simp: word_sless_alt)
  next
    case False
    then show ?thesis using sint64_range[of a] by (auto simp: word_sless_alt)
  qed
  show ?thesis unfolding Sub_def under over by simp
qed

lemma Add_Inr_iff: "Add a b = Inr c \<longleftrightarrow> sint c = sint a + sint b"
proof
  assume "Add a b = Inr c"
  then show "sint c = sint a + sint b"
    by (auto simp: Add_cases sint_add_exact split: if_splits)
next
  assume c: "sint c = sint a + sint b"
  then have "\<not> 9223372036854775807 < sint a + sint b" "\<not> sint a + sint b < - 9223372036854775808"
    using sint64_range[of c] by auto
  moreover from this c have "a + b = c"
    by (intro sint_eqD) (simp add: sint_add_exact)
  ultimately show "Add a b = Inr c" by (simp add: Add_cases)
qed

lemma Sub_Inr_iff: "Sub a b = Inr c \<longleftrightarrow> sint c = sint a - sint b"
proof
  assume "Sub a b = Inr c"
  then show "sint c = sint a - sint b"
    by (auto simp: Sub_cases sint_diff_exact split: if_splits)
next
  assume c: "sint c = sint a - sint b"
  then have "\<not> 9223372036854775807 < sint a - sint b" "\<not> sint a - sint b < - 9223372036854775808"
    using sint64_range[of c] by auto
  moreover from this c have "a - b = c"
    by (intro sint_eqD) (simp add: sint_diff_exact)
  ultimately show "Sub a b = Inr c" by (simp add: Sub_cases)
qed

lemma Add_accepts:
  "- 9223372036854775808 \<le> sint a + sint b \<Longrightarrow> sint a + sint b \<le> 9223372036854775807 \<Longrightarrow>
     \<exists>c. Add a b = Inr c"
  by (simp add: Add_cases)

text \<open>A running total is a ledger with one account.\<close>

interpretation running: bounded_ledger "\<lambda>x s. Add s x" "\<lambda>s (_ :: unit). sint s" "\<lambda>_. ()" sint
  "- 9223372036854775808" "9223372036854775807"
proof unfold_locales
  show "sint s' = sint s + (if () = k then sint p else 0)" if "Add s p = Inr s'" for p s s' and k :: unit
    using that by (simp add: Add_Inr_iff)
  show "\<exists>s'. Add s p = Inr s'"
    if "- 9223372036854775808 \<le> sint s + sint p" "sint s + sint p \<le> 9223372036854775807" for s p
    using that by (rule Add_accepts)
qed

section \<open>Parsing\<close>

text \<open>
  The number of cents a text denotes, as an integer of any size: the reference the word
  arithmetic is checked against.
\<close>

definition decimal_cents :: "string \<Rightarrow> int" where
  "decimal_cents s =
     (let neg = (take 1 s = ''-''); u = (if neg then tl s else s);
          w = filter (\<lambda>c. c \<noteq> CHR '','') (takeWhile (\<lambda>c. c \<noteq> CHR ''.'') u);
          f = drop 1 (dropWhile (\<lambda>c. c \<noteq> CHR ''.'') u);
          m = 100 * int (dec_value w) +
              (if length f = 1 then 10 * int (dec_value f) else int (dec_value f))
      in if neg then - m else m)"

lemma thousands_digits: "thousands t \<Longrightarrow> list_all is_digit (filter (\<lambda>c. c \<noteq> CHR '','') t)"
  by (induction t rule: thousands.induct) (auto simp: list_all_iff)

lemma grouped_digits: "grouped w \<Longrightarrow> all_digits (filter (\<lambda>c. c \<noteq> CHR '','') w)"
proof -
  assume g: "grouped w"
  let ?h = "takeWhile is_digit w" and ?t = "dropWhile is_digit w"
  have h: "list_all is_digit ?h" "?h \<noteq> []"
    using g by (auto simp: grouped_def Let_def list_all_iff dest: set_takeWhileD)
  then have fh: "filter (\<lambda>c. c \<noteq> CHR '','') ?h = ?h"
    by (auto simp: filter_id_conv list_all_iff)
  have ft: "list_all is_digit (filter (\<lambda>c. c \<noteq> CHR '','') ?t)"
    using g by (intro thousands_digits) (simp add: grouped_def Let_def)
  have "filter (\<lambda>c. c \<noteq> CHR '','') w = ?h @ filter (\<lambda>c. c \<noteq> CHR '','') ?t"
    by (metis filter_append fh takeWhile_dropWhile_id)
  with h ft show ?thesis by (simp add: all_digits_def)
qed

lemma whole_ok_digits: "whole_ok w \<Longrightarrow> all_digits (filter (\<lambda>c. c \<noteq> CHR '','') w)"
proof -
  assume "whole_ok w"
  moreover have "all_digits w \<Longrightarrow> filter (\<lambda>c. c \<noteq> CHR '','') w = w"
    by (auto simp: all_digits_def list_all_iff filter_id_conv)
  ultimately show ?thesis
    by (auto simp: whole_ok_def grouped_digits) (simp add: all_digits_def is_digit_def)
qed

lemma no_sep_takeWhile:
  "c \<notin> set s \<Longrightarrow> takeWhile (\<lambda>x. x \<noteq> c) s = s \<and> dropWhile (\<lambda>x. x \<noteq> c) s = []"
  by (induction s) auto

lemma SplitN2_parts:
  "SplitN2 c s ! 0 = takeWhile (\<lambda>x. x \<noteq> c) s"
  "length (SplitN2 c s) = 2 \<longleftrightarrow> c \<in> set s"
  "c \<in> set s \<Longrightarrow> SplitN2 c s ! 1 = drop 1 (dropWhile (\<lambda>x. x \<noteq> c) s)"
  by (auto simp: SplitN2_def drop_Suc no_sep_takeWhile)

lemma parse_frac_SplitN2:
  assumes "frac_ok (dropWhile (\<lambda>c. c \<noteq> CHR ''.'') u)"
  defines "f \<equiv> drop 1 (dropWhile (\<lambda>c. c \<noteq> CHR ''.'') u)"
  shows "\<exists>w. parse_frac (SplitN2 CHR ''.'' u) = Inr w \<and> unat w < 100 \<and>
     unat w = (if length f = 1 then 10 * dec_value f else dec_value f)"
proof (cases "CHR ''.'' \<in> set u")
  case False
  then have "f = []" by (simp add: f_def no_sep_takeWhile)
  with False show ?thesis by (simp add: parse_frac_def SplitN2_parts)
next
  case True
  then have "dropWhile (\<lambda>c. c \<noteq> CHR ''.'') u \<noteq> []"
    by (auto simp: dropWhile_eq_Nil_conv)
  with assms(1) have f: "length f = 1 \<or> length f = 2" "list_all is_digit f"
    by (auto simp: f_def frac_ok_def drop_Suc)
  define g where "g = (if length f = 1 then f @ ''0'' else f)"
  have g: "length g = 2" "list_all is_digit g" "all_digits g"
    using f by (auto simp: g_def is_digit_def all_digits_def)
  have val: "dec_value g = (if length f = 1 then 10 * dec_value f else dec_value f)"
    by (simp add: g_def digit_val_def)
  have small: "dec_value g < 100"
    using dec_value_bound[OF g(2)] g(1) by simp
  then have ok: "ParseUint64 g = Inr (of_nat (dec_value g))"
    using g(3) by (intro ParseUint64_ok) auto
  have "SplitN2 CHR ''.'' u ! 1 = f"
    using True by (simp only: SplitN2_parts(3) f_def)
  then have "parse_frac (SplitN2 CHR ''.'' u) = ParseUint64 g"
    using True by (simp add: parse_frac_def SplitN2_parts(2) g_def)
  with ok small val show ?thesis by (simp add: unat_of_nat)
qed

lemma sint_small:
  assumes "unat (w :: int64) < 9223372036854775808"
  shows "sint w = int (unat w)"
proof -
  have pow: "(2 :: int) ^ 63 = 9223372036854775808" by simp
  have "uint w < 9223372036854775808" and "0 \<le> uint w"
    unfolding uint_nat using assms by linarith+
  then have "signed_take_bit 63 (uint w) = uint w"
    using pow by (intro signed_take_bit_int_eq_self) linarith+
  then show ?thesis by (simp add: sint_uint)
qed

lemma sint_neg_small:
  assumes "unat (w :: int64) < 9223372036854775808"
  shows "sint (- w) = - int (unat w)"
proof -
  have "sint w = int (unat w)" by (rule sint_small [OF assms])
  with assms have "- 9223372036854775808 \<le> - sint w" "- sint w \<le> 9223372036854775807"
    by linarith+
  then have "sint (0 - w) = 0 - sint w"
    by (subst sint_diff_exact) simp_all
  then show ?thesis using \<open>sint w = int (unat w)\<close> by simp
qed

lemma unat_limit:
  "unat (if neg then maxInt64 + 1 else maxInt64) = (if neg then 9223372036854775808 else 9223372036854775807)"
  by (simp add: maxInt64_num)

lemma div_100_less_iff: "(a :: nat) div 100 < w \<longleftrightarrow> a < 100 * w"
  by (simp add: div_less_iff_less_mult mult.commute)

lemma signed_cents_iff:
  fixes whole frac :: uint64
  assumes frac: "unat frac < 100"
  defines "m \<equiv> 100 * unat whole + unat frac"
  shows "signed_cents s neg whole frac = Inr v \<longleftrightarrow> sint v = (if neg then - int m else int m)"
proof -
  define L :: int64 where "L = (if neg then maxInt64 + 1 else maxInt64)"
  define l where "l = unat L"
  have l: "l = (if neg then 9223372036854775808 else 9223372036854775807)"
    unfolding l_def L_def by (rule unat_limit)
  have nlt: "\<not> L < frac"
    using frac l by (auto simp: word_less_nat_alt l_def)
  have sub: "unat (L - frac) = l - unat frac"
    using nlt by (simp add: unat_sub l_def not_less)
  have "(L - frac) div 100 < whole \<longleftrightarrow> (l - unat frac) div 100 < unat whole"
    by (simp add: word_less_nat_alt unat_div sub)
  also have "\<dots> \<longleftrightarrow> l < m"
    using frac l by (auto simp: div_100_less_iff m_def)
  finally have over: "(L - frac) div 100 < whole \<longleftrightarrow> l < m" .
  have eq: "signed_cents s neg whole frac =
     (if l < m then Inl (CentsOverflow s)
      else if neg then if whole * 100 + frac = maxInt64 + 1 then Inr (- maxInt64 - 1)
                       else Inr (- (whole * 100 + frac))
      else Inr (whole * 100 + frac))"
    using nlt over unfolding signed_cents_def L_def Let_def by simp
  show ?thesis
  proof (cases "l < m")
    case True
    then have "sint v \<noteq> (if neg then - int m else int m)"
      using l sint64_range[of v] by (auto split: if_splits)
    with True eq show ?thesis by simp
  next
    case False
    then have m64: "m < 2 ^ 64" and mle: "m \<le> l" using l by (auto split: if_splits)
    have mag: "unat (whole * 100 + frac) = m"
    proof -
      have "whole * 100 + frac = of_nat m"
        by (simp add: m_def)
      with m64 show ?thesis by (simp add: unat_of_nat)
    qed
    have min: "whole * 100 + frac = maxInt64 + 1 \<longleftrightarrow> m = 9223372036854775808"
      unfolding word_unat_eq_iff mag by (simp add: maxInt64_num)
    define r where "r = (if neg then if m = 9223372036854775808 then - maxInt64 - 1
                       else - (whole * 100 + frac) else whole * 100 + frac)"
    have "sint r = (if neg then - int m else int m)"
      using sint_small[of "whole * 100 + frac"] sint_neg_small[of "whole * 100 + frac"] mag mle l
      by (auto simp: r_def split: if_splits)
    moreover have "signed_cents s neg whole frac = Inr r"
      using False eq min by (simp add: r_def)
    ultimately show ?thesis by (metis Inr_inject sint_eqD)
  qed
qed

lemma ParseCents_iff:
  "ParseCents s = Inr v \<longleftrightarrow>
     amountPattern (TrimSpace s) \<and> sint v = decimal_cents (TrimSpace s)"
proof -
  define t where "t = TrimSpace s"
  define neg where "neg = (take 1 t = ''-'')"
  define u where "u = (if neg then tl t else t)"
  define w where "w = filter (\<lambda>c. c \<noteq> CHR '','') (takeWhile (\<lambda>c. c \<noteq> CHR ''.'') u)"
  have Nil: "\<not> amountPattern []"
    by (simp add: amountPattern_def whole_ok_def grouped_def all_digits_def)
  show ?thesis
  proof (cases "amountPattern t")
    case False
    then show ?thesis by (auto simp: ParseCents_def t_def Let_def)
  next
    case True
    then have "t \<noteq> []" using Nil by auto
    from True have ok: "all_digits w" "frac_ok (dropWhile (\<lambda>c. c \<noteq> CHR ''.'') u)"
      by (auto simp: amountPattern_def Let_def w_def u_def neg_def whole_ok_digits)
    from parse_frac_SplitN2[OF ok(2)] obtain frac where
      frac: "parse_frac (SplitN2 CHR ''.'' u) = Inr frac" "unat frac < 100"
      and fval: "decimal_cents t = (if neg then - (100 * int (dec_value w) + int (unat frac))
                  else 100 * int (dec_value w) + int (unat frac))"
      by (auto simp: decimal_cents_def Let_def neg_def u_def w_def)
    have parse: "ParseCents s = (case ParseUint64 w of Inl e \<Rightarrow> Inl (AmountSyntax u e)
                   | Inr whole \<Rightarrow> signed_cents u neg whole frac)"
      unfolding ParseCents_def Let_def t_def [symmetric] neg_def [symmetric] u_def [symmetric]
        SplitN2_parts(1) w_def [symmetric]
      using True \<open>t \<noteq> []\<close> frac(1) by (simp split: sum.splits)
    show ?thesis
    proof (cases "dec_value w < 2 ^ 64")
      case big: True
      then have whole: "ParseUint64 w = Inr (of_nat (dec_value w))"
        using ok(1) by (rule ParseUint64_ok[rotated])
      have "unat (of_nat (dec_value w) :: uint64) = dec_value w"
        using big by (simp add: unat_of_nat)
      with parse whole True fval signed_cents_iff[OF frac(2)] show ?thesis
        by (simp add: t_def [symmetric])
    next
      case False
      then have "ParseUint64 w = Inl ErrRange"
        using ok(1) by (simp add: ParseUint64_def)
      moreover have "sint v \<noteq> decimal_cents t"
      proof -
        have "(2 :: nat) ^ 64 = 18446744073709551616" by simp
        with False have "18446744073709551616 \<le> dec_value w" by linarith
        then have "9223372036854775808 < 100 * int (dec_value w) + int (unat frac)" by linarith
        with fval sint64_range[of v] show ?thesis by (cases neg) auto
      qed
      ultimately show ?thesis using parse by (simp add: t_def [symmetric])
    qed
  qed
qed

section \<open>Printing\<close>

lemma unat_magnitude:
  "unat (if v <s 0 then - (v + 1) + 1 else (v :: int64)) = nat \<bar>sint v\<bar>"
proof (cases "sint v < 0")
  case True
  have "v = word_of_int (sint v)" by simp
  then have "- v = word_of_int (- sint v)" by (metis wi_hom_neg)
  also have "\<dots> = of_nat (nat (- sint v))" using True by simp
  finally have "unat (- v) = nat (- sint v)"
    using sint64_range[of v] by (simp add: unat_of_nat)
  with True show ?thesis by (simp add: word_sless_0)
next
  case False
  have "v = word_of_int (sint v)" by simp
  also have "\<dots> = of_nat (nat (sint v))" using False by simp
  finally have "unat v = unat (of_nat (nat (sint v)) :: int64)" by simp
  also have "\<dots> = nat (sint v)"
    using sint64_range[of v] by (simp add: unat_of_nat)
  finally show ?thesis using False by (simp add: word_sless_0)
qed

lemma FormatCents_eq:
  "FormatCents v =
     (if sint v < 0 then ''-'' else []) @
     dec (nat \<bar>sint v\<bar> div 100) @ ''.'' @ pad2 (nat \<bar>sint v\<bar> mod 100)"
  using unat_magnitude[of v]
  by (simp add: FormatCents_def Let_def unat_div unat_mod word_sless_0 split: if_splits)

lemma pad2_digits: "n < 100 \<Longrightarrow> list_all is_digit (pad2 n) \<and> length (pad2 n) = 2 \<and> dec_value (pad2 n) = n"
proof -
  assume n: "n < 100"
  have "length (dec n) = 2" if "10 \<le> n"
    using that n by (simp add: dec_large)
  moreover have "dec_value (CHR ''0'' # dec n) = dec_value (dec n)"
    by (simp add: dec_value_def digit_val_def)
  ultimately show ?thesis
    by (auto simp: pad2_def dec_digits is_digit_def simp del: dec_small) (simp_all add: dec_small)
qed

lemma digits_no_char:
  "list_all is_digit s \<Longrightarrow> \<not> is_digit c \<Longrightarrow> c \<notin> set s"
  by (auto simp: list_all_iff)

lemma FormatCents_printable: "c \<in> set (FormatCents v) \<Longrightarrow> 33 \<le> code c \<and> code c < 128"
proof -
  let ?n = "nat \<bar>sint v\<bar>"
  assume "c \<in> set (FormatCents v)"
  then have "c = CHR ''-'' \<or> c = CHR ''.'' \<or> is_digit c"
    using dec_digits[of "?n div 100"] pad2_digits[of "?n mod 100"]
    by (auto simp: FormatCents_eq list_all_iff split: if_splits)
  then show ?thesis by (auto simp: is_digit_def)
qed

lemma decimal_cents_format:
  fixes w f :: nat
  assumes "f < 100"
  defines "u \<equiv> dec w @ ''.'' @ pad2 f"
  shows "amountPattern u" "amountPattern (CHR ''-'' # u)"
    "decimal_cents u = int (100 * w + f)" "decimal_cents (CHR ''-'' # u) = - int (100 * w + f)"
proof -
  have nodot: "CHR ''.'' \<notin> set (dec w)" and nocomma: "CHR '','' \<notin> set (dec w)"
    using digits_no_char[OF dec_digits[of w]] by simp_all
  have dash: "take 1 u \<noteq> ''-''"
  proof -
    have "hd (dec w) \<noteq> CHR ''-''"
      by (metis dec_nonempty hd_in_set digits_no_char dec_digits not_digit_punct(4))
    then show ?thesis by (cases "dec w") (auto simp: u_def)
  qed
  have tw: "takeWhile (\<lambda>c. c \<noteq> CHR ''.'') u = dec w" "dropWhile (\<lambda>c. c \<noteq> CHR ''.'') u = CHR ''.'' # pad2 f"
    using nodot unfolding u_def by (auto simp: takeWhile_append dropWhile_append no_sep_takeWhile)
  have filter_dec: "filter (\<lambda>c. c \<noteq> CHR '','') (dec w) = dec w"
    using nocomma by (auto simp: filter_id_conv)
  have fr: "frac_ok (CHR ''.'' # pad2 f)" "length (pad2 f) = 2" "dec_value (pad2 f) = f"
    using pad2_digits[OF assms(1)] by (auto simp: frac_ok_def)
  show "amountPattern u" "amountPattern (CHR ''-'' # u)"
    using dash tw fr(1) by (simp_all add: amountPattern_def whole_ok_def)
  show "decimal_cents u = int (100 * w + f)" "decimal_cents (CHR ''-'' # u) = - int (100 * w + f)"
    using dash tw fr(2,3) filter_dec by (simp_all add: decimal_cents_def)
qed

section \<open>Properties\<close>

text \<open>
  C9. \<open>ParseCents\<close> accepts a text exactly when it matches the amount pattern and the number
  of cents it denotes fits a signed 64-bit integer, and then returns that number. The word
  arithmetic of the limit check neither rejects a representable amount, the least one
  included, nor lets a value wrap around.
\<close>

theorem ParseCents_exact:
  "ParseCents s = Inr v \<longleftrightarrow>
     amountPattern (TrimSpace s) \<and> sint v = decimal_cents (TrimSpace s)"
  by (rule ParseCents_iff)

text \<open>
  C16. Every amount that \<open>FormatCents\<close> prints, for all 2^64 values including the least one,
  is read back by \<open>ParseCents\<close> as the same amount: storing an amount as text in the
  database or in a report loses nothing.
\<close>

theorem ParseCents_FormatCents: "ParseCents (FormatCents v) = Inr v"
proof -
  let ?n = "nat \<bar>sint v\<bar>"
  let ?u = "dec (?n div 100) @ ''.'' @ pad2 (?n mod 100)"
  have trim: "TrimSpace (FormatCents v) = FormatCents v"
    using FormatCents_printable by (intro TrimSpace_printable) blast
  have "FormatCents v = (if sint v < 0 then CHR ''-'' # ?u else ?u)"
    by (simp add: FormatCents_eq)
  moreover have "int (100 * (?n div 100) + ?n mod 100) = \<bar>sint v\<bar>"
    by (simp add: mult.commute)
  ultimately have "amountPattern (FormatCents v)" "decimal_cents (FormatCents v) = sint v"
    using decimal_cents_format[of "?n mod 100" "?n div 100"] by auto
  then show ?thesis by (simp add: ParseCents_iff trim)
qed

text \<open>
  C17. \<open>Add\<close> and \<open>Sub\<close> return the exact sum and difference when it fits a signed 64-bit
  integer, report overflow when it is too large and underflow when it is too small, on every
  pair of operands; their guards, which themselves subtract and add words, never wrap.
\<close>

theorem checked_arithmetic_exact:
  "Add a b = (if 2 ^ 63 \<le> sint a + sint b then Inl AdditionOverflow
              else if sint a + sint b < - (2 ^ 63) then Inl AdditionUnderflow
              else Inr (word_of_int (sint a + sint b)))
   \<and> Sub a b = (if sint a - sint b < - (2 ^ 63) then Inl SubtractionUnderflow
                else if 2 ^ 63 \<le> sint a - sint b then Inl SubtractionOverflow
                else Inr (word_of_int (sint a - sint b)))"
proof -
  have "word_of_int (sint a + sint b) = a + b" "word_of_int (sint a - sint b) = a - b"
    by (simp_all flip: wi_hom_add wi_hom_sub)
  then show ?thesis by (auto simp: Add_cases Sub_cases)
qed

end
