(* ===== verification/Domain.thy ===== *)
theory Domain
  imports Money
begin

text \<open>
  Package \<open>internal/domain\<close>: the data the components exchange. The string enumerations of
  the source are datatypes; \<open>source_string\<close> and \<open>scope_string\<close> give the strings they stand
  for, which the program prints, stores and sorts by. \<open>ScopeNone\<close> is the empty scope of a row
  that has not been classified. The serialized copies of the two payload maps
  (\<open>RawPayload\<close>, \<open>CanonicalPayload\<close>) are functions of \<open>Raw\<close> and \<open>Canonical\<close>
  and are not fields of the model. Instants are seconds since 1970-01-01 00:00:00 UTC.
\<close>

datatype source = SourcePayment | SourceSettlement | SourceOther string

datatype row_kind = RowTransaction | RowMetadata

datatype scope_reason =
    ScopeNone | ScopeIn | ScopeDeferred | ScopeOther | ScopeMetadata | ScopeUnsupported

datatype recon_status =
    StatusReconciled | StatusUnreconciledPayment | StatusUnreconciledSettle

fun source_string :: "source \<Rightarrow> string" where
  "source_string SourcePayment = ''payment''"
| "source_string SourceSettlement = ''settlement''"
| "source_string (SourceOther s) = s"

fun scope_string :: "scope_reason \<Rightarrow> string" where
  "scope_string ScopeNone = []"
| "scope_string ScopeIn = ''IN_SCOPE''"
| "scope_string ScopeDeferred = ''DEFERRED''"
| "scope_string ScopeOther = ''OTHER_SETTLEMENT''"
| "scope_string ScopeMetadata = ''METADATA''"
| "scope_string ScopeUnsupported = ''UNSUPPORTED''"

fun status_string :: "recon_status \<Rightarrow> string" where
  "status_string StatusReconciled = ''reconciled''"
| "status_string StatusUnreconciledPayment = ''unreconciled_payment''"
| "status_string StatusUnreconciledSettle = ''unreconciled_settlement''"

text \<open>A map from strings to strings of the source, read with \<open>m[k]\<close>.\<close>

type_synonym strmap = "string \<rightharpoonup> string"

definition sget :: "strmap \<Rightarrow> string \<Rightarrow> string" where
  "sget m k = (case m k of None \<Rightarrow> [] | Some v \<Rightarrow> v)"

record raw_row =
  row_Source :: source
  row_Kind :: row_kind
  row_Ordinal :: int
  row_LineStart :: int
  row_LineEnd :: int
  row_ByteStart :: int
  row_ByteEnd :: int
  row_Raw :: strmap
  row_Canonical :: strmap
  row_SettlementID :: string
  row_Currency :: string
  row_Transaction :: string
  row_Description :: string
  row_AmountType :: string
  row_AmountDesc :: string
  row_SKU :: string
  row_TxnRef :: string
  row_PostedAt :: "int option"
  row_ReleaseAt :: "int option"
  row_KeyDate :: string
  row_Status :: string
  row_ReconAmount :: int64
  row_HasRecon :: bool
  row_Scope :: scope_reason
  row_EventClass :: string

record config_rule =
  rule_ID :: int64
  rule_Source :: source
  rule_OriginFile :: string
  rule_OriginLine :: int
  rule_TransactionType :: string
  rule_Description :: string
  rule_AmountField :: string
  rule_AmountType :: string
  rule_AmountDescription :: string
  rule_RecordRef :: string
  rule_PositiveTarget :: string
  rule_NegativeTarget :: string

datatype decision = Routed | OptionalAbsent | DecisionZero | NotSummarized

record contribution =
  con_RowOrdinal :: int
  con_Rule :: config_rule
  con_Field :: string
  con_Amount :: int64
  con_Target :: string
  con_Decision :: decision
  con_KeyParts :: "string list"
  con_Key :: string

record 'i mapped =
  m_Row :: raw_row
  m_Contributions :: "contribution list"
  m_KeyParts :: "string list"
  m_Key :: string
  m_Issues :: "'i list"

record group =
  g_KeyParts :: "string list"
  g_Key :: string
  g_SettlementID :: string
  g_Currency :: string
  g_Scope :: scope_reason
  g_PaymentRows :: "raw_row list"
  g_SettlementRows :: "raw_row list"
  g_PaymentAmount :: int64
  g_SettlementAmt :: int64
  g_PaymentBuckets :: "(string, int64) gomap"
  g_SettleBuckets :: "(string, int64) gomap"

text \<open>\<open>Summary.Buckets\<close>: summary field, then source, then the total in cents.\<close>

type_synonym buckets = "(string, (source, int64) gomap) gomap"

record summary =
  Buckets :: buckets

record 'i run_result =
  res_PaymentRows :: "'i mapped list"
  res_SettlementRows :: "'i mapped list"
  res_Groups :: "group list"
  res_Summary :: summary
  res_SettlementHeader :: int64
  res_SettlementCurrency :: string
  res_Issues :: "'i list"

definition bucket :: "summary \<Rightarrow> string \<Rightarrow> source \<Rightarrow> int64" where
  "bucket s t src = gget 0 (gget [] (Buckets s) t) src"

text \<open>Scopes are ordered as their strings, which is how the program sorts them.\<close>

lemma scope_string_inject: "scope_string a = scope_string b \<Longrightarrow> a = b"
  by (cases a; cases b) simp_all

instantiation scope_reason :: linorder
begin

definition less_eq_scope_reason :: "scope_reason \<Rightarrow> scope_reason \<Rightarrow> bool" where
  "a \<le> b \<longleftrightarrow> scope_string a \<le> scope_string b"

definition less_scope_reason :: "scope_reason \<Rightarrow> scope_reason \<Rightarrow> bool" where
  "a < b \<longleftrightarrow> scope_string a < scope_string b"

instance
  by standard
    (auto simp: less_eq_scope_reason_def less_scope_reason_def intro: scope_string_inject)

end

end
