(* ===== verification/Normalize.thy ===== *)
theory Normalize
  imports Domain
begin

text \<open>
  Package \<open>internal/normalize\<close>: labels, header names and the transfer alias. The regular
  expression \<open>\s+\<close> is Go's ASCII class (tab, newline, form feed, carriage return, space),
  which is smaller than the white space \<open>TrimSpace\<close> removes at the ends.
\<close>

definition regex_space :: "char \<Rightarrow> bool" where
  "regex_space c \<longleftrightarrow> code c \<in> {9, 10, 12, 13, 32}"

text \<open>\<open>spaces.ReplaceAllString(s, "_")\<close>: each maximal run of spaces becomes one underscore.\<close>

fun replace_spaces :: "string \<Rightarrow> string" where
  "replace_spaces [] = []"
| "replace_spaces (c # s) =
     (if regex_space c
      then if s \<noteq> [] \<and> regex_space (hd s) then replace_spaces s else CHR ''_'' # replace_spaces s
      else c # replace_spaces s)"

definition Label :: "string \<Rightarrow> string" where
  "Label s = ToUpper (replace_spaces (TrimSpace s))"

definition utf8_bom :: string where
  "utf8_bom = [CHR 0xEF, CHR 0xBB, CHR 0xBF]"

definition TrimPrefix :: "string \<Rightarrow> string \<Rightarrow> string" where
  "TrimPrefix s p = (if take (length p) s = p then drop (length p) s else s)"

definition replace_char :: "char \<Rightarrow> char \<Rightarrow> string \<Rightarrow> string" where
  "replace_char a b s = map (\<lambda>c. if c = a then b else c) s"

definition Header :: "string \<Rightarrow> string" where
  "Header s0 =
     (let s = TrimSpace (TrimPrefix s0 utf8_bom);
          s = replace_char CHR ''-'' CHR ''_'' s;
          s = replace_char CHR '' '' CHR ''_'' s
      in ToLower s)"

definition TransferDescription :: "string \<Rightarrow> string" where
  "TransferDescription s =
     (let n = Label s
      in if take 23 n = ''TO_ACCOUNT_ENDING_WITH:'' then ''TO_ACCOUNT_ENDING'' else n)"

section \<open>Labels are normal forms\<close>

lemma regex_space_not_underscore [simp]: "\<not> regex_space CHR ''_''"
  by (simp add: regex_space_def)

lemma replace_spaces_none: "c \<in> set (replace_spaces s) \<Longrightarrow> \<not> regex_space c"
  by (induction s rule: replace_spaces.induct) (auto split: if_splits)

lemma replace_spaces_id: "(\<And>c. c \<in> set s \<Longrightarrow> \<not> regex_space c) \<Longrightarrow> replace_spaces s = s"
  by (induction s) auto

lemma regex_space_upper: "regex_space (upper_char c) \<Longrightarrow> regex_space c"
  by (auto simp: regex_space_def code_upper_char split: if_splits)

lemma upper_char_idem [simp]: "upper_char (upper_char c) = upper_char c"
proof -
  have "upper_char d = d" if "\<not> (97 \<le> code d \<and> code d \<le> 122)" for d
    using that by (simp only: upper_char_def if_False)
  then show ?thesis
    by (cases "97 \<le> code c \<and> code c \<le> 122") (auto simp: code_upper_char)
qed

lemma ToUpper_idem [simp]: "ToUpper (ToUpper s) = ToUpper s"
  by (simp add: ToUpper_def)

lemma Label_no_space: "c \<in> set (Label s) \<Longrightarrow> \<not> regex_space c"
  using replace_spaces_none regex_space_upper by (auto simp: Label_def ToUpper_def)

lemma replace_spaces_eq_Nil [simp]: "replace_spaces s = [] \<longleftrightarrow> s = []"
  by (induction s rule: replace_spaces.induct) (auto split: if_splits)

lemma Label_eq_Nil: "Label s = [] \<longleftrightarrow> TrimSpace s = []"
  by (simp add: Label_def ToUpper_def)

lemma replace_spaces_Cons:
  "replace_spaces t = c # v \<Longrightarrow> c \<noteq> CHR ''_'' \<Longrightarrow> \<exists>t'. t = c # t' \<and> replace_spaces t' = v"
  by (induction t rule: replace_spaces.induct) (auto split: if_splits)

lemma replace_spaces_snoc:
  "replace_spaces (t @ [c]) =
     (if \<not> regex_space c then replace_spaces t @ [c]
      else if t \<noteq> [] \<and> regex_space (last t) then replace_spaces t else replace_spaces t @ ''_'')"
  by (induction t rule: replace_spaces.induct) (auto simp: hd_append)

lemma last_replace_spaces: "t \<noteq> [] \<Longrightarrow> regex_space (last t) \<Longrightarrow> last (replace_spaces t) = CHR ''_''"
  by (induction t rule: replace_spaces.induct) (auto split: if_splits)

lemma replace_spaces_snoc_inv:
  "replace_spaces t = v @ [c] \<Longrightarrow> c \<noteq> CHR ''_'' \<Longrightarrow> \<exists>t'. t = t' @ [c] \<and> replace_spaces t' = v"
proof (cases t rule: rev_cases)
  case Nil
  then show "replace_spaces t = v @ [c] \<Longrightarrow> ?thesis" by simp
next
  case (snoc t' d)
  assume eq: "replace_spaces t = v @ [c]" and c: "c \<noteq> CHR ''_''"
  show ?thesis
  proof (cases "regex_space d")
    case True
    then have "last (replace_spaces t) = CHR ''_''"
      using snoc by (intro last_replace_spaces) auto
    with eq c show ?thesis by simp
  next
    case False
    with eq snoc show ?thesis by (simp add: replace_spaces_snoc)
  qed
qed

text \<open>Upper-casing keeps every byte that is not a lower case letter.\<close>

lemma upper_char_high: "128 \<le> code (upper_char c) \<Longrightarrow> upper_char c = c"
  by (auto simp: upper_char_def code_flip5_lower split: if_splits)

lemma space_bytes_cases:
  assumes "space_bytes s \<noteq> 0"
  obtains (one) a u where "s = a # u" "ascii_space (code a)"
  | (two) a b u where "s = a # b # u" "two_space (code a) (code b)"
  | (three) a b c u where "s = a # b # c # u" "three_space (code a) (code b) (code c)"
  using assms by (cases s; cases "tl s"; cases "tl (tl s)") (auto split: if_splits)

lemma space_bytes_rev_cases:
  assumes "space_bytes_rev s \<noteq> 0"
  obtains (one) a u where "s = a # u" "ascii_space (code a)"
  | (two) a b u where "s = b # a # u" "two_space (code a) (code b)"
  | (three) a b c u where "s = c # b # a # u" "three_space (code a) (code b) (code c)"
  using assms by (cases s; cases "tl s"; cases "tl (tl s)") (auto split: if_splits)

lemma space_codes:
  "two_space a b \<Longrightarrow> 128 \<le> a \<and> 128 \<le> b"
  "three_space a b c \<Longrightarrow> 128 \<le> a \<and> 128 \<le> b \<and> 128 \<le> c"
  "ascii_space (code (upper_char x)) \<Longrightarrow> upper_char x = x"
  by (auto simp: two_space_def three_space_def ascii_space_def upper_char_def code_flip5_lower)

text \<open>
  What \<open>Label\<close> does to the trimmed text creates no white space at either end: a byte beyond ASCII, or an ASCII white space byte, in its result was already there.
\<close>

lemma upper_replace_Cons:
  assumes "ToUpper (replace_spaces t) = c # v" and "128 \<le> code c \<or> ascii_space (code c)"
  shows "\<exists>t'. t = c # t' \<and> ToUpper (replace_spaces t') = v"
proof -
  from assms(1) obtain d w where d: "replace_spaces t = d # w" "c = upper_char d" "v = ToUpper w"
    by (auto simp: ToUpper_def map_eq_Cons_conv)
  then have "c = d" using assms(2) upper_char_high space_codes(3) by metis
  with d assms(2) have "c \<noteq> CHR ''_''" by (auto simp: ascii_space_def)
  with d \<open>c = d\<close> replace_spaces_Cons[of t c w] show ?thesis by auto
qed

lemma upper_replace_snoc:
  assumes "rev (ToUpper (replace_spaces t)) = c # v" and "128 \<le> code c \<or> ascii_space (code c)"
  shows "\<exists>t'. t = t' @ [c] \<and> rev (ToUpper (replace_spaces t')) = v"
proof -
  have "map upper_char (rev (replace_spaces t)) = c # v"
    using assms(1) by (simp add: ToUpper_def rev_map)
  then obtain d w where d: "rev (replace_spaces t) = d # w" "c = upper_char d" "v = map upper_char w"
    by (auto simp: map_eq_Cons_conv)
  then have "c = d" using assms(2) upper_char_high space_codes(3) by metis
  with d assms(2) have "c \<noteq> CHR ''_''" by (auto simp: ascii_space_def)
  moreover have "replace_spaces t = rev w @ [c]" using d(1) \<open>c = d\<close> by (metis rev.simps(2) rev_rev_ident)
  ultimately obtain t' where "t = t' @ [c]" "replace_spaces t' = rev w"
    using replace_spaces_snoc_inv by blast
  with d(3) show ?thesis by (auto simp: ToUpper_def rev_map)
qed

lemma space_bytes_upper_replace:
  assumes "space_bytes t = 0"
  shows "space_bytes (ToUpper (replace_spaces t)) = 0"
proof (rule ccontr)
  assume "space_bytes (ToUpper (replace_spaces t)) \<noteq> 0"
  then show False
  proof (cases rule: space_bytes_cases)
    case (one a u)
    with upper_replace_Cons[of t a u] assms show False by auto
  next
    case (two a b u)
    with upper_replace_Cons[of t a "b # u"] upper_replace_Cons[of _ b u] assms space_codes(1)
    show False by (fastforce split: if_splits)
  next
    case (three a b c u)
    with upper_replace_Cons[of t a "b # c # u"] upper_replace_Cons[of _ b "c # u"]
      upper_replace_Cons[of _ c u] assms space_codes(2)
    show False by (fastforce split: if_splits)
  qed
qed

lemma space_bytes_rev_upper_replace:
  assumes "space_bytes_rev (rev t) = 0"
  shows "space_bytes_rev (rev (ToUpper (replace_spaces t))) = 0"
proof (rule ccontr)
  assume "space_bytes_rev (rev (ToUpper (replace_spaces t))) \<noteq> 0"
  then show False
  proof (cases rule: space_bytes_rev_cases)
    case (one a u)
    with upper_replace_snoc[of t a u] assms show False by auto
  next
    case (two a b u)
    with upper_replace_snoc[of t b "a # u"] upper_replace_snoc[of _ a u] assms space_codes(1)
    show False by (fastforce split: if_splits)
  next
    case (three a b c u)
    with upper_replace_snoc[of t c "b # a # u"] upper_replace_snoc[of _ b "a # u"]
      upper_replace_snoc[of _ a u] assms space_codes(2)
    show False by (fastforce split: if_splits)
  qed
qed

lemma TrimSpace_Label [simp]: "TrimSpace (Label s) = Label s"
  unfolding Label_def
  by (intro TrimSpace_id space_bytes_upper_replace space_bytes_rev_upper_replace) simp_all

lemma Label_idem [simp]: "Label (Label s) = Label s"
proof -
  have "replace_spaces (Label s) = Label s"
    by (rule replace_spaces_id) (rule Label_no_space)
  then have "Label (Label s) = ToUpper (Label s)"
    by (simp add: Label_def [of "Label s"])
  then show ?thesis by (simp add: Label_def)
qed

section \<open>Properties\<close>

text \<open>
  A label is a normal form: labelling it again, as the mapping engine does whenever it
  compares a rule's selector with a row, changes nothing, a label has no white space at either
  end and no byte of the class \<open>\s\<close>, and it is empty only for a text of white space alone.
\<close>

theorem Label_normal_form:
  "Label (Label s) = Label s \<and> TrimSpace (Label s) = Label s \<and>
   list_all (\<lambda>c. \<not> regex_space c) (Label s) \<and> (Label s = [] \<longleftrightarrow> TrimSpace s = [])"
  by (simp add: Label_eq_Nil list_all_iff) (use Label_no_space in blast)

end
