(* ===== verification/Mapping_Config.thy ===== *)
theory Mapping_Config
  imports Normalize
begin

text \<open>
  \<open>internal/mapping/config.go\<close>: the summary fields the program knows and the loading of a
  mapping configuration. A CSV reader (\<open>encoding/csv\<close>) is the list of what its successive
  calls of \<open>Read\<close> return: a record with its fields and positions, or an error; the end of the
  list is \<open>io.EOF\<close>. The file system is a parameter: the outcome of opening a path.
\<close>

section \<open>Reading records\<close>

datatype io_error = IOError string

datatype csv_error = ErrBareQuote | ErrQuote | ErrFieldCount | ErrRead io_error | ErrEOF

record csv_record =
  csv_fields :: "string list"
  csv_line :: int
  csv_last_line :: int
  csv_before :: int
  csv_after :: int

type_synonym csv_stream = "(csv_error + csv_record) list"

type_synonym file_system = "string \<Rightarrow> io_error + csv_stream"

section \<open>Known summary fields\<close>

definition knownSummaryFields :: "string list" where
  "knownSummaryFields =
     [''sales_product_charges'', ''sales_tax'', ''sales_shipping'', ''sales_amazon_fees'',
      ''sales_inventory_reimbursements'', ''sales_other'', ''refunded_expenses'',
      ''refunded_sales'', ''expenses_promotional_rebates'', ''expenses_fba_fees'',
      ''expenses_cost_of_advertising'', ''expenses_amazon_fees'',
      ''expenses_reversed_reimbursements'', ''expenses_other'', ''paid_to_amazon'',
      ''bank_account_transfer_round_off'', ''amazon_carried_forward'', ''beginning_balance'',
      ''current_reserve_amount'', ''total_adjustment_other_buyer_recharge_amt'',
      ''total_refund_expense_or_sales_amt'']"

definition KnownSummaryField :: "string \<Rightarrow> bool" where
  "KnownSummaryField field \<longleftrightarrow> field \<in> set knownSummaryFields"

section \<open>Loading a configuration\<close>

datatype config_error =
    UnsupportedConfigSource source
  | ConfigOpen io_error
  | ConfigHead csv_error
  | ConfigBlankHeader int
  | ConfigDuplicateHeader string
  | ConfigMissingHeader string
  | ConfigRecord csv_error
  | ConfigWidth int
  | ConfigNoRecordRef int
  | ConfigUnknownTarget int string

type_synonym header_index = "string \<rightharpoonup> nat"

fun config_headers :: "nat \<Rightarrow> string list \<Rightarrow> header_index \<Rightarrow> config_error + header_index" where
  "config_headers i [] idx = Inr idx"
| "config_headers i (h # hs) idx =
     (if h = [] then Inl (ConfigBlankHeader (int i + 1))
      else if idx h \<noteq> None then Inl (ConfigDuplicateHeader h)
      else config_headers (Suc i) hs (idx(h \<mapsto> i)))"

definition config_required :: "string list" where
  "config_required =
     [''transaction_type'', ''record_ref'', ''to_summary_field_when_positive_amount'',
      ''to_summary_field_when_negative_amount'']"

definition first_missing :: "header_index \<Rightarrow> string list \<Rightarrow> string option" where
  "first_missing idx hs = find (\<lambda>h. idx h = None) hs"

definition column :: "header_index \<Rightarrow> string list \<Rightarrow> string \<Rightarrow> string" where
  "column idx row k =
     (case idx k of Some i \<Rightarrow> if i < length row then TrimSpace (row ! i) else [] | None \<Rightarrow> [])"

definition config_rule_of ::
  "string \<Rightarrow> source \<Rightarrow> header_index \<Rightarrow> int \<Rightarrow> string list \<Rightarrow> config_rule" where
  "config_rule_of path src idx line row =
     \<lparr>rule_ID = 0, rule_Source = src, rule_OriginFile = path, rule_OriginLine = line,
      rule_TransactionType = column idx row ''transaction_type'',
      rule_Description = (if src = SourcePayment then column idx row ''description'' else []),
      rule_AmountField = (if src = SourcePayment then column idx row ''amount_field'' else []),
      rule_AmountType = (if src = SourcePayment then [] else column idx row ''amount_type''),
      rule_AmountDescription =
        (if src = SourcePayment then [] else column idx row ''amount_description''),
      rule_RecordRef = column idx row ''record_ref'',
      rule_PositiveTarget = column idx row ''to_summary_field_when_positive_amount'',
      rule_NegativeTarget = column idx row ''to_summary_field_when_negative_amount''\<rparr>"

definition unknown_target :: "config_rule \<Rightarrow> string option" where
  "unknown_target r =
     find (\<lambda>t. t \<noteq> [] \<and> \<not> KnownSummaryField t) [rule_PositiveTarget r, rule_NegativeTarget r]"

definition config_row ::
  "string \<Rightarrow> source \<Rightarrow> nat \<Rightarrow> header_index \<Rightarrow> csv_record \<Rightarrow> config_error + config_rule" where
  "config_row path src width idx rec =
     (let line = csv_line rec; row = csv_fields rec
      in if length row \<noteq> width then Inl (ConfigWidth line)
         else let c = config_rule_of path src idx line row
              in if TrimSpace (rule_RecordRef c) = [] \<and>
                    (rule_PositiveTarget c \<noteq> [] \<or> rule_NegativeTarget c \<noteq> [])
                 then Inl (ConfigNoRecordRef line)
                 else case unknown_target c of Some t \<Rightarrow> Inl (ConfigUnknownTarget line t)
                      | None \<Rightarrow> Inr c)"

fun config_rows ::
  "string \<Rightarrow> source \<Rightarrow> nat \<Rightarrow> header_index \<Rightarrow> csv_stream \<Rightarrow> config_error + config_rule list" where
  "config_rows path src width idx [] = Inr []"
| "config_rows path src width idx (Inl e # rest) = Inl (ConfigRecord e)"
| "config_rows path src width idx (Inr rec # rest) =
     (case config_row path src width idx rec of Inl e \<Rightarrow> Inl e
      | Inr c \<Rightarrow> (case config_rows path src width idx rest of Inl e \<Rightarrow> Inl e
                 | Inr cs \<Rightarrow> Inr (c # cs)))"

definition LoadConfig :: "file_system \<Rightarrow> string \<Rightarrow> source \<Rightarrow> config_error + config_rule list" where
  "LoadConfig fs path src =
     (if src \<noteq> SourcePayment \<and> src \<noteq> SourceSettlement then Inl (UnsupportedConfigSource src)
      else case fs path of Inl e \<Rightarrow> Inl (ConfigOpen e)
      | Inr [] \<Rightarrow> Inl (ConfigHead ErrEOF)
      | Inr (Inl e # _) \<Rightarrow> Inl (ConfigHead e)
      | Inr (Inr rec # rest) \<Rightarrow>
          let head = map Header (csv_fields rec)
          in case config_headers 0 head Map.empty of Inl e \<Rightarrow> Inl e
             | Inr idx \<Rightarrow>
                 (case first_missing idx config_required of
                    Some h \<Rightarrow> Inl (ConfigMissingHeader h)
                  | None \<Rightarrow> config_rows path src (length head) idx rest))"

section \<open>What a loaded rule satisfies\<close>

definition routes :: "config_rule \<Rightarrow> bool" where
  "routes r \<longleftrightarrow> rule_PositiveTarget r \<noteq> [] \<or> rule_NegativeTarget r \<noteq> []"

definition known_targets :: "config_rule \<Rightarrow> bool" where
  "known_targets r \<longleftrightarrow>
     (rule_PositiveTarget r = [] \<or> KnownSummaryField (rule_PositiveTarget r)) \<and>
     (rule_NegativeTarget r = [] \<or> KnownSummaryField (rule_NegativeTarget r))"

text \<open>A rule as the loader leaves it.\<close>

definition wf_rule :: "string \<Rightarrow> source \<Rightarrow> config_rule \<Rightarrow> bool" where
  "wf_rule path src r \<longleftrightarrow>
     rule_Source r = src \<and> rule_OriginFile r = path \<and> known_targets r \<and>
     (routes r \<longrightarrow> TrimSpace (rule_RecordRef r) \<noteq> [])"

lemma unknown_target_None: "unknown_target r = None \<longleftrightarrow> known_targets r"
  by (auto simp: unknown_target_def known_targets_def)

lemma config_row_Inr:
  "config_row path src w idx rec = Inr c \<longleftrightarrow>
     length (csv_fields rec) = w \<and> c = config_rule_of path src idx (csv_line rec) (csv_fields rec) \<and>
     wf_rule path src c"
  by (auto simp: config_row_def Let_def wf_rule_def routes_def config_rule_of_def
        unknown_target_None [symmetric] split: if_splits option.splits)

lemma config_rows_Inr:
  "config_rows path src w idx st = Inr cs \<Longrightarrow>
     list_all2 (\<lambda>r c. \<exists>rec. r = Inr rec \<and> length (csv_fields rec) = w \<and>
        c = config_rule_of path src idx (csv_line rec) (csv_fields rec) \<and> wf_rule path src c) st cs"
proof (induction st arbitrary: cs)
  case Nil
  then show ?case by simp
next
  case (Cons r st)
  then show ?case
    by (cases r) (auto simp: result_simps config_row_Inr split: sum.splits)
qed

lemma config_headers_dom:
  "config_headers i hs idx = Inr idx' \<Longrightarrow>
     distinct hs \<and> [] \<notin> set hs \<and> dom idx' = dom idx \<union> set hs \<and> set hs \<inter> dom idx = {}"
proof (induction hs arbitrary: i idx)
  case Nil
  then show ?case by simp
next
  case (Cons h hs)
  then have "h \<noteq> []" "idx h = None" "config_headers (Suc i) hs (idx(h \<mapsto> i)) = Inr idx'"
    by (auto split: if_splits)
  with Cons.IH[OF this(3)] show ?case by auto
qed

lemma LoadConfig_Inr:
  assumes "LoadConfig fs path src = Inr rules"
  obtains rec rest idx where "fs path = Inr (Inr rec # rest)" "src \<in> {SourcePayment, SourceSettlement}"
    "config_headers 0 (map Header (csv_fields rec)) Map.empty = Inr idx"
    "set config_required \<subseteq> dom idx"
    "config_rows path src (length (csv_fields rec)) idx rest = Inr rules"
  using assms
  by (auto simp: LoadConfig_def Let_def first_missing_def find_None_iff
      split: if_splits sum.splits list.splits option.splits)

text \<open>
  C21. A configuration that loads is one rule per record of the file, in file order and each
  carrying the file, the physical line and the source it came from; every routed target is a
  known summary field, and no rule routes an amount without a record reference.
\<close>

theorem LoadConfig_well_formed:
  assumes "LoadConfig fs path src = Inr rules"
  shows "list_all (wf_rule path src) rules \<and>
    (\<exists>rec rest. fs path = Inr (Inr rec # rest) \<and>
       map (\<lambda>r. Inr (rule_OriginLine r)) rules = map (map_sum id csv_line) rest)"
proof -
  obtain rec rest idx where *: "fs path = Inr (Inr rec # rest)"
    "config_rows path src (length (csv_fields rec)) idx rest = Inr rules"
    using LoadConfig_Inr[OF assms] by metis
  from config_rows_Inr[OF *(2)] have "list_all (wf_rule path src) rules"
    by (auto simp: list_all2_conv_all_nth list_all_length)
  moreover from config_rows_Inr[OF *(2)]
  have "map (\<lambda>r. Inr (rule_OriginLine r)) rules = map (map_sum id csv_line) rest"
    by (induction rest rules rule: list_all2_induct) (auto simp: config_rule_of_def)
  ultimately show ?thesis using *(1) by blast
qed

definition ex_config_fs :: file_system where
  "ex_config_fs path =
     Inr [Inr \<lparr>csv_fields = [''Transaction Type'', ''description'', ''amount_field'', ''record-ref'',
                ''to_summary_field_when_positive_amount'',
                ''to_summary_field_when_negative_amount''],
              csv_line = 1, csv_last_line = 1, csv_before = 0, csv_after = 118\<rparr>,
          Inr \<lparr>csv_fields = [''ORDER'', ''any'', ''product_sales'', ''txn_ref+sku'',
                ''sales_product_charges'', ''sales_product_charges''],
              csv_line = 2, csv_last_line = 2, csv_before = 118, csv_after = 190\<rparr>]"

theorem LoadConfig_well_formed_witness:
  "\<exists>r. LoadConfig ex_config_fs ''c.csv'' SourcePayment = Inr [r] \<and> wf_rule ''c.csv'' SourcePayment r
     \<and> rule_OriginLine r = 2"
proof -
  have "case LoadConfig ex_config_fs ''c.csv'' SourcePayment of Inr [r] \<Rightarrow> True | _ \<Rightarrow> False"
    by code_simp
  then obtain r where r: "LoadConfig ex_config_fs ''c.csv'' SourcePayment = Inr [r]"
    by (auto split: sum.splits list.splits)
  from LoadConfig_well_formed[OF r] r show ?thesis
    by (auto simp: ex_config_fs_def)
qed

end
