(* ===== verification/Engine.thy ===== *)
theory Engine
  imports Mapping_Config
begin

text \<open>
  \<open>internal/mapping/engine.go\<close>: selection of the rules for a row, expansion of record
  references, routing of amounts, and the accumulation of the summary. Error and issue texts are
  constructors carrying the values the messages print. \<open>mapRow\<close> returns the row it has mapped
  so far together with the error that stopped it, because \<open>Map\<close> keeps that row in diagnostic
  mode.
\<close>

datatype mode = Diagnostic | Strict | ModeOther string

datatype map_error =
    UnsupportedMode mode
  | UnsupportedRuleSource int source
  | RuleNoAmountField int
  | RuleNoAmountType int
  | RuleUnknownField int string
  | AmbiguousRules source int string "int list"
  | NoReconAmount int
  | MissingAmountField int string
  | AmountError money_error
  | EmptyRecordRef int
  | EmptyToken string int
  | UnknownToken string int
  | ReservedDelimiter int
  | OptionalAbsentRouted string
  | ConflictingKeys int string string
  | TotalAndComponents int
  | NoRecordRefMapping int
  | SummaryError money_error

datatype issue =
    DuplicateSelector string "int list"
  | RowIssue map_error
  | RowLineIssue source int map_error

type_synonym mapped_row = "issue mapped"

record engine =
  Rules :: "config_rule list"
  Mode :: mode

definition delimiter :: char where
  "delimiter = CHR 0x1F"

section \<open>Selectors, amounts and record references\<close>

definition descriptionMatch :: "raw_row \<Rightarrow> string \<Rightarrow> bool" where
  "descriptionMatch row selector =
     (let s = Label selector
      in if s = ''ANY'' then True
         else let actual =
                (if row_Source row = SourcePayment \<and> Label (row_Transaction row) = ''TRANSFER''
                 then TransferDescription (row_Description row) else Label (row_Description row))
              in s = actual)"

definition amountFor :: "raw_row \<Rightarrow> string \<Rightarrow> map_error + int64" where
  "amountFor row field =
     (if row_Source row = SourceSettlement then
        if \<not> row_HasRecon row then Inl (NoReconAmount (row_LineStart row))
        else Inr (row_ReconAmount row)
      else
        let v = (if field = ''fba_fees'' then sget (row_Canonical row) ''fulfilment_by_amazon_fees''
                 else sget (row_Canonical row) field)
        in if v = [] then
             if field = ''marketplace_withheld_tax'' then Inr 0
             else Inl (MissingAmountField (row_LineStart row) field)
           else case ParseCents v of Inl e \<Rightarrow> Inl (AmountError e) | Inr a \<Rightarrow> Inr a)"

definition isFieldToken :: "string \<Rightarrow> bool" where
  "isFieldToken s \<longleftrightarrow> s \<noteq> [] \<and> ToLower s = s \<and>
     list_all (\<lambda>c. (97 \<le> code c \<and> code c \<le> 122) \<or> (48 \<le> code c \<and> code c \<le> 57) \<or> c = CHR ''_'') s"

definition expand_fields :: "raw_row \<Rightarrow> strmap" where
  "expand_fields row = map_of
     [(''txn_ref'', row_TxnRef row), (''sku'', row_SKU row),
      (''settlement_id'', row_SettlementID row), (''date'', row_KeyDate row),
      (''shipment_id'', sget (row_Canonical row) ''shipment_id''),
      (''merchant_order_id'', sget (row_Canonical row) ''merchant_order_id''),
      (''description'', Label (row_Description row))]"

definition token_value :: "raw_row \<Rightarrow> string \<Rightarrow> map_error + string" where
  "token_value row t =
     (case expand_fields row t of
        Some v \<Rightarrow> if v = [] then Inl (EmptyToken t (row_LineStart row)) else Inr v
      | None \<Rightarrow>
          if t = ''record_type'' then
            let v = Label (row_Transaction row)
            in if v = [] then Inl (EmptyToken t (row_LineStart row)) else Inr v
          else if t = [] \<or> isFieldToken t then Inl (UnknownToken t (row_LineStart row))
          else Inr t)"

definition expand_token :: "raw_row \<Rightarrow> string \<Rightarrow> map_error + string" where
  "expand_token row t0 =
     (case token_value row (TrimSpace t0) of Inl e \<Rightarrow> Inl e
      | Inr v \<Rightarrow> if delimiter \<in> set v then Inl (ReservedDelimiter (row_LineStart row)) else Inr v)"

definition expand :: "string \<Rightarrow> raw_row \<Rightarrow> map_error + string list" where
  "expand template row =
     (if TrimSpace template = [] then Inl (EmptyRecordRef (row_LineStart row))
      else mapE (expand_token row) (Split CHR ''+'' template))"

section \<open>Mapping one row\<close>

definition rule_index :: "config_rule list \<Rightarrow> string \<Rightarrow> config_rule list" where
  "rule_index rules k = filter (\<lambda>r. Label (rule_TransactionType r) = k) rules"

definition rule_selects :: "raw_row \<Rightarrow> config_rule \<Rightarrow> bool" where
  "rule_selects row r \<longleftrightarrow>
     rule_Source r = row_Source row \<and>
     (let tx = Label (row_Transaction row); rtx = Label (rule_TransactionType r)
      in rtx = [] \<or> rtx = tx) \<and>
     (if row_Source row = SourcePayment
      then rule_AmountField r \<noteq> [] \<and> descriptionMatch row (rule_Description r)
      else Label (rule_AmountType r) = Label (row_AmountType row) \<and>
           descriptionMatch row (rule_AmountDescription r))"

definition specific :: "config_rule \<Rightarrow> bool" where
  "specific r \<longleftrightarrow> TrimSpace (rule_TransactionType r) \<noteq> []"

definition candidates :: "engine \<Rightarrow> raw_row \<Rightarrow> config_rule list" where
  "candidates e row =
     rule_index (Rules e) (Label (row_Transaction row)) @ rule_index (Rules e) []"

definition select_rules :: "engine \<Rightarrow> raw_row \<Rightarrow> config_rule list" where
  "select_rules e row =
     (let selected = filter (rule_selects row) (candidates e row)
      in if list_ex specific selected then filter specific selected else selected)"

definition field_of :: "raw_row \<Rightarrow> config_rule \<Rightarrow> string" where
  "field_of row r = (if row_Source row = SourceSettlement then ''amount'' else rule_AmountField r)"

definition by_field :: "raw_row \<Rightarrow> config_rule list \<Rightarrow> string \<Rightarrow> config_rule list" where
  "by_field row selected field = filter (\<lambda>r. field_of row r = field) selected"

definition selected_fields :: "raw_row \<Rightarrow> config_rule list \<Rightarrow> string list" where
  "selected_fields row selected = sort (remdups (map (field_of row) selected))"

definition exact_rule :: "raw_row \<Rightarrow> config_rule \<Rightarrow> bool" where
  "exact_rule row r \<longleftrightarrow>
     (row_Source row = SourcePayment \<and> Label (rule_Description r) \<noteq> ''ANY'') \<or>
     (row_Source row = SourceSettlement \<and> Label (rule_AmountDescription r) \<noteq> ''ANY'')"

definition prefer_exact :: "raw_row \<Rightarrow> config_rule list \<Rightarrow> config_rule list" where
  "prefer_exact row rules =
     (if list_ex (exact_rule row) rules then filter (exact_rule row) rules else rules)"

definition target_of :: "config_rule \<Rightarrow> int64 \<Rightarrow> string" where
  "target_of r amount = (if amount <s 0 then rule_NegativeTarget r else rule_PositiveTarget r)"

definition optional_absent :: "raw_row \<Rightarrow> string \<Rightarrow> bool" where
  "optional_absent row field \<longleftrightarrow>
     field = ''marketplace_withheld_tax'' \<and> sget (row_Canonical row) field = []"

definition decide :: "raw_row \<Rightarrow> string \<Rightarrow> config_rule \<Rightarrow> int64 \<Rightarrow> decision" where
  "decide row field r amount =
     (let d = (if optional_absent row field then OptionalAbsent
               else if amount = 0 then DecisionZero else Routed)
      in if target_of r amount = [] \<and> d \<noteq> OptionalAbsent then NotSummarized else d)"

definition mapRule ::
  "raw_row \<Rightarrow> string \<Rightarrow> config_rule \<Rightarrow> mapped_row \<Rightarrow> mapped_row \<times> map_error option" where
  "mapRule row field r m =
     (case amountFor row field of Inl e \<Rightarrow> (m, Some e)
      | Inr amount \<Rightarrow>
     (case expand (rule_RecordRef r) row of Inl e \<Rightarrow> (m, Some e)
      | Inr parts \<Rightarrow>
     (let key = Join parts [delimiter]
      in if optional_absent row field \<and>
            (rule_PositiveTarget r \<noteq> [] \<or> rule_NegativeTarget r \<noteq> [])
         then (m, Some (OptionalAbsentRouted field))
         else let c = \<lparr>con_RowOrdinal = row_Ordinal row, con_Rule = r, con_Field = field,
                       con_Amount = amount, con_Target = target_of r amount,
                       con_Decision = decide row field r amount, con_KeyParts = parts,
                       con_Key = key\<rparr>;
                  m = m\<lparr>m_Contributions := m_Contributions m @ [c]\<rparr>
              in if m_Key m = [] \<and> key \<noteq> [] then (m\<lparr>m_Key := key, m_KeyParts := parts\<rparr>, None)
                 else if key \<noteq> [] \<and> m_Key m \<noteq> key
                 then (m, Some (ConflictingKeys (row_LineStart row) (m_Key m) key))
                 else (m, None))))"

definition rule_lines :: "config_rule list \<Rightarrow> int list" where
  "rule_lines rs = map rule_OriginLine rs"

definition mapField ::
  "mode \<Rightarrow> raw_row \<Rightarrow> config_rule list \<Rightarrow> string \<Rightarrow> mapped_row \<Rightarrow> mapped_row \<times> map_error option"
where
  "mapField mo row selected field m =
     (let rules = prefer_exact row (by_field row selected field)
      in if 1 < length rules \<and> mo = Strict
         then (m, Some (AmbiguousRules (row_Source row) (row_LineStart row) field (rule_lines rules)))
         else let m = (if 1 < length rules
                       then m\<lparr>m_Issues := m_Issues m @ [DuplicateSelector field (rule_lines rules)]\<rparr>
                       else m)
              in loopE (mapRule row field) rules m)"

definition routed :: "contribution \<Rightarrow> bool" where
  "routed c \<longleftrightarrow> \<not> (con_Target c = [] \<or> con_Amount c = 0)"

definition total_and_components :: "contribution list \<Rightarrow> bool" where
  "total_and_components cs \<longleftrightarrow>
     list_ex (\<lambda>c. routed c \<and> con_Field c = ''total'') cs \<and>
     list_ex (\<lambda>c. routed c \<and> con_Field c \<noteq> ''total'') cs"

definition unmapped :: "raw_row \<Rightarrow> mapped_row" where
  "unmapped row = \<lparr>m_Row = row, m_Contributions = [], m_KeyParts = [], m_Key = [], m_Issues = []\<rparr>"

definition finish_row :: "raw_row \<Rightarrow> mapped_row \<Rightarrow> mapped_row \<times> map_error option" where
  "finish_row row m =
     (if row_Source row = SourcePayment \<and> total_and_components (m_Contributions m)
      then (m, Some (TotalAndComponents (row_LineStart row)))
      else if m_Key m = [] then (m, Some (NoRecordRefMapping (row_LineStart row)))
      else (m, None))"

definition mapRow :: "engine \<Rightarrow> raw_row \<Rightarrow> mapped_row \<times> map_error option" where
  "mapRow e row =
     (if row_Kind row = RowMetadata then (unmapped row, None)
      else let selected = select_rules e row
           in case loopE (mapField (Mode e) row selected) (selected_fields row selected) (unmapped row) of
                (m, Some err) \<Rightarrow> (m, Some err)
              | (m, None) \<Rightarrow> finish_row row m)"

section \<open>Mapping all rows\<close>

definition check_rule :: "config_rule \<Rightarrow> map_error option" where
  "check_rule r =
     (if rule_Source r \<noteq> SourcePayment \<and> rule_Source r \<noteq> SourceSettlement
      then Some (UnsupportedRuleSource (rule_OriginLine r) (rule_Source r))
      else if rule_Source r = SourcePayment \<and> TrimSpace (rule_AmountField r) = []
      then Some (RuleNoAmountField (rule_OriginLine r))
      else if rule_Source r = SourceSettlement \<and> TrimSpace (rule_AmountType r) = []
      then Some (RuleNoAmountType (rule_OriginLine r))
      else map_option (RuleUnknownField (rule_OriginLine r)) (unknown_target r))"

fun check_rules :: "config_rule list \<Rightarrow> map_error option" where
  "check_rules [] = None"
| "check_rules (r # rs) = (case check_rule r of Some e \<Rightarrow> Some e | None \<Rightarrow> check_rules rs)"

text \<open>\<open>summary.Buckets[c.Target][row.Source] += c.Amount\<close> with the checked addition.\<close>

definition add_summary :: "source \<times> contribution \<Rightarrow> summary \<Rightarrow> money_error + summary" where
  "add_summary p s =
     (let src = fst p; t = con_Target (snd p);
          b = (if ghas (Buckets s) t then Buckets s else gput t [] (Buckets s))
      in case Add (gget 0 (gget [] b t) src) (con_Amount (snd p)) of Inl e \<Rightarrow> Inl e
         | Inr v \<Rightarrow> Inr (s\<lparr>Buckets := gput t (gput src v (gget [] b t)) b\<rparr>))"

text \<open>The postings of a mapped row: the loop over its contributions skips the others.\<close>

definition postings :: "mapped_row \<Rightarrow> (source \<times> contribution) list" where
  "postings m = map (Pair (row_Source (m_Row m))) (filter routed (m_Contributions m))"

record map_state =
  st_out :: "mapped_row list"
  st_summary :: summary
  st_issues :: "issue list"
  st_seen :: "issue list"

definition note_issue :: "issue \<Rightarrow> map_state \<Rightarrow> map_state" where
  "note_issue i st =
     (if i \<in> set (st_seen st) then st
      else st\<lparr>st_issues := st_issues st @ [i], st_seen := i # st_seen st\<rparr>)"

definition map_step :: "engine \<Rightarrow> raw_row \<Rightarrow> map_state \<Rightarrow> map_error + map_state" where
  "map_step e row st =
     (case mapRow e row of
        (m, Some err) \<Rightarrow>
          if Mode e = Diagnostic
          then Inr (st\<lparr>st_issues := st_issues st @ [RowLineIssue (row_Source row) (row_LineStart row) err],
                       st_out := st_out st @ [m\<lparr>m_Issues := m_Issues m @ [RowIssue err]\<rparr>]\<rparr>)
          else Inl err
      | (m, None) \<Rightarrow>
          let st = fold note_issue (m_Issues m) st
          in if row_Scope row = ScopeIn
             then case foldE add_summary (postings m) (st_summary st) of Inl e \<Rightarrow> Inl (SummaryError e)
                  | Inr s \<Rightarrow> Inr (st\<lparr>st_summary := s, st_out := st_out st @ [m]\<rparr>)
             else Inr (st\<lparr>st_out := st_out st @ [m]\<rparr>))"

definition Map ::
  "engine \<Rightarrow> raw_row list \<Rightarrow> map_error + (mapped_row list \<times> summary \<times> issue list)" where
  "Map e rows =
     (if Mode e \<noteq> Diagnostic \<and> Mode e \<noteq> Strict then Inl (UnsupportedMode (Mode e))
      else case check_rules (Rules e) of Some err \<Rightarrow> Inl err
      | None \<Rightarrow>
          (case foldE (map_step e) rows
                  \<lparr>st_out = [], st_summary = \<lparr>Buckets = []\<rparr>, st_issues = [], st_seen = []\<rparr> of
             Inl err \<Rightarrow> Inl err
           | Inr st \<Rightarrow> Inr (st_out st, st_summary st, st_issues st)))"

end
