(* ===== verification/Engine_Props.thy ===== *)
theory Engine_Props
  imports Engine
begin

text \<open>
  What the mapping engine guarantees: record references expand to keys that determine their
  parts; a mapped row has one key and one contribution per amount field; specific rules suppress
  fallbacks; the summary is exactly the sum of what the mapped rows in scope route.
\<close>

section \<open>Record references\<close>

definition good_parts :: "string list \<Rightarrow> bool" where
  "good_parts ps \<longleftrightarrow> ps \<noteq> [] \<and> (\<forall>p \<in> set ps. p \<noteq> [] \<and> delimiter \<notin> set p)"

lemma token_value_nonempty: "token_value row t = Inr v \<Longrightarrow> v \<noteq> []"
  by (auto simp: token_value_def Let_def split: option.splits if_splits)

lemma expand_token_good: "expand_token row t = Inr v \<Longrightarrow> v \<noteq> [] \<and> delimiter \<notin> set v"
  by (auto simp: expand_token_def result_simps dest: token_value_nonempty split: sum.splits if_splits)

lemma expand_good:
  assumes "expand t row = Inr ps"
  shows "good_parts ps"
proof -
  have all: "list_all2 (\<lambda>x y. expand_token row x = Inr y) (Split CHR ''+'' t) ps"
    using assms by (auto simp: expand_def mapE_Inr_iff split: if_splits)
  then have "ps \<noteq> []" using Split_nonempty by fastforce
  moreover have "p \<noteq> [] \<and> delimiter \<notin> set p" if p: "p \<in> set ps" for p
  proof -
    from p obtain i where "i < length ps" "p = ps ! i" by (auto simp: in_set_conv_nth)
    with all show ?thesis by (auto simp: list_all2_conv_all_nth dest: expand_token_good)
  qed
  ultimately show ?thesis by (simp add: good_parts_def)
qed

lemma good_parts_Join: "good_parts ps \<Longrightarrow> Join ps [delimiter] \<noteq> []"
  by (rule Join_eq_Nil) (auto simp: good_parts_def)

lemma good_parts_inject:
  "good_parts ps \<Longrightarrow> good_parts qs \<Longrightarrow> Join ps [delimiter] = Join qs [delimiter] \<longleftrightarrow> ps = qs"
  by (rule Join_inject) (auto simp: good_parts_def)

section \<open>Contributions\<close>

text \<open>
  What a contribution says of the row and the rule it came from, written over the row and the rule
  alone. The amount is that of the settlement row itself, or the decimal value of the text in the
  payment row's column; \<open>fba_fees\<close> names the column \<open>fulfilment_by_amazon_fees\<close>, and only the
  withheld tax may be absent, which counts as nothing. The sign of the amount chooses the target.
\<close>

definition amount_column :: "string \<Rightarrow> string" where
  "amount_column f = (if f = ''fba_fees'' then ''fulfilment_by_amazon_fees'' else f)"

definition absent_tax :: "raw_row \<Rightarrow> string \<Rightarrow> bool" where
  "absent_tax row f \<longleftrightarrow> f = ''marketplace_withheld_tax'' \<and> sget (row_Canonical row) f = []"

definition amount_ok :: "raw_row \<Rightarrow> string \<Rightarrow> int64 \<Rightarrow> bool" where
  "amount_ok row f a \<longleftrightarrow>
     (if row_Source row = SourceSettlement then row_HasRecon row \<and> a = row_ReconAmount row
      else let v = sget (row_Canonical row) (amount_column f)
           in if v = [] then absent_tax row f \<and> a = 0
              else amountPattern (TrimSpace v) \<and> sint a = decimal_cents (TrimSpace v))"

definition contribution_ok :: "raw_row \<Rightarrow> contribution \<Rightarrow> bool" where
  "contribution_ok row c \<longleftrightarrow>
     con_RowOrdinal c = row_Ordinal row \<and>
     con_Field c = (if row_Source row = SourceSettlement then ''amount'' else rule_AmountField (con_Rule c)) \<and>
     amount_ok row (con_Field c) (con_Amount c) \<and>
     expand (rule_RecordRef (con_Rule c)) row = Inr (con_KeyParts c) \<and>
     con_Key c = Join (con_KeyParts c) [delimiter] \<and>
     con_Target c = (if sint (con_Amount c) < 0 then rule_NegativeTarget (con_Rule c)
                     else rule_PositiveTarget (con_Rule c)) \<and>
     con_Decision c =
       (if absent_tax row (con_Field c) then OptionalAbsent
        else if con_Target c = [] then NotSummarized
        else if con_Amount c = 0 then DecisionZero else Routed) \<and>
     (if absent_tax row (con_Field c)
      then rule_PositiveTarget (con_Rule c) = [] \<and> rule_NegativeTarget (con_Rule c) = [] else True)"

lemma optional_absent_iff: "optional_absent row f \<longleftrightarrow> absent_tax row f"
  by (simp add: optional_absent_def absent_tax_def)

lemma amountFor_ok: "amountFor row f = Inr a \<Longrightarrow> amount_ok row f a"
  by (auto simp: amountFor_def amount_ok_def amount_column_def absent_tax_def Let_def ParseCents_iff
      split: if_splits sum.splits)

lemma target_of_sign:
  "target_of r a = (if sint a < 0 then rule_NegativeTarget r else rule_PositiveTarget r)"
  by (simp add: target_of_def word_sless_alt)

lemma contribution_ok_target: "contribution_ok row c \<Longrightarrow> con_Target c = target_of (con_Rule c) (con_Amount c)"
  by (simp add: contribution_ok_def target_of_sign)

lemma contribution_ok_decision:
  "contribution_ok row c \<Longrightarrow> con_Decision c = decide row (con_Field c) (con_Rule c) (con_Amount c)"
  by (simp add: contribution_ok_def decide_def optional_absent_iff target_of_sign Let_def)

lemma mapRule_cases:
  assumes "mapRule row field r m = (m', err)"
  obtains (stopped) e where "m' = m" "err = Some e"
  | (added) c where "m_Contributions m' = m_Contributions m @ [c]" "con_Rule c = r" "con_Field c = field"
      "m_Row m' = m_Row m" "m_Issues m' = m_Issues m"
      "field_of row r = field \<Longrightarrow> contribution_ok row c" "good_parts (con_KeyParts c)"
      "con_Key c = Join (con_KeyParts c) [delimiter]"
      "err = None \<longleftrightarrow> (m_Key m = [] \<or> m_Key m = con_Key c)"
      "m_Key m' = (if m_Key m = [] then con_Key c else m_Key m)"
      "m_KeyParts m' = (if m_Key m = [] then con_KeyParts c else m_KeyParts m)"
proof -
  consider (fail) e where "m' = m" "err = Some e"
    | (go) amount parts where "amountFor row field = Inr amount"
        "expand (rule_RecordRef r) row = Inr parts"
        "\<not> (optional_absent row field \<and> (rule_PositiveTarget r \<noteq> [] \<or> rule_NegativeTarget r \<noteq> []))"
    using assms by (auto simp: mapRule_def Let_def split: sum.splits if_splits)
  then show ?thesis
  proof cases
    case fail
    then show ?thesis by (rule stopped)
  next
    case (go amount parts)
    have good: "good_parts parts" using go(2) by (rule expand_good)
    have key: "Join parts [delimiter] \<noteq> []" using good by (rule good_parts_Join)
    define c where "c = \<lparr>con_RowOrdinal = row_Ordinal row, con_Rule = r, con_Field = field,
        con_Amount = amount, con_Target = target_of r amount,
        con_Decision = decide row field r amount, con_KeyParts = parts,
        con_Key = Join parts [delimiter]\<rparr>"
    have run: "mapRule row field r m =
        (let m1 = m\<lparr>m_Contributions := m_Contributions m @ [c]\<rparr>
         in if m_Key m = [] then (m1\<lparr>m_Key := con_Key c, m_KeyParts := parts\<rparr>, None)
            else if m_Key m \<noteq> con_Key c
            then (m1, Some (ConflictingKeys (row_LineStart row) (m_Key m) (con_Key c)))
            else (m1, None))"
      using go key by (auto simp: mapRule_def Let_def c_def)
    show ?thesis
    proof (rule added[of c])
      show "contribution_ok row c" if "field_of row r = field"
        using that go amountFor_ok[OF go(1)]
        by (auto simp: contribution_ok_def c_def field_of_def target_of_sign decide_def
            optional_absent_iff Let_def)
    qed (use assms run good in \<open>auto simp: c_def Let_def split: if_splits\<close>)
  qed
qed

lemma select_rules_mem:
  "r \<in> set (select_rules e row) \<Longrightarrow> r \<in> set (Rules e) \<and> rule_selects row r"
  by (auto simp: select_rules_def candidates_def rule_index_def Let_def split: if_splits)

lemma set_prefer_exact: "set (prefer_exact row rs) \<subseteq> set rs"
  by (auto simp: prefer_exact_def)

lemma prefer_exact_Nil [simp]: "prefer_exact row rs = [] \<longleftrightarrow> rs = []"
  by (auto simp: prefer_exact_def list_ex_iff filter_empty_conv)

lemma by_field_mem: "r \<in> set (by_field row sel f) \<longleftrightarrow> r \<in> set sel \<and> field_of row r = f"
  by (simp add: by_field_def)

lemma set_selected_fields [simp]: "set (selected_fields row sel) = field_of row ` set sel"
  by (simp add: selected_fields_def)

lemma distinct_selected_fields [simp]: "distinct (selected_fields row sel)"
  by (simp add: selected_fields_def)

text \<open>
  Invariants of the two nested loops: a property of the mapped row that every single rule keeps
  holds when they end.
\<close>

lemma mapField_invariant:
  assumes run: "mapField mo row sel f m = (m', err)" and "P m"
    and issue: "\<And>m i. P m \<Longrightarrow> P (m\<lparr>m_Issues := i\<rparr>)"
    and rule: "\<And>r u v d. r \<in> set (prefer_exact row (by_field row sel f)) \<Longrightarrow>
      mapRule row f r u = (v, d) \<Longrightarrow> P u \<Longrightarrow> P v"
  shows "P m'"
proof -
  let ?rs = "prefer_exact row (by_field row sel f)"
  consider "m' = m" | m1 where "P m1" "loopE (mapRule row f) ?rs m1 = (m', err)"
    using run \<open>P m\<close> issue by (auto simp: mapField_def Let_def split: if_splits)
  then show ?thesis
    by cases (use \<open>P m\<close> rule in \<open>auto intro: loopE_invariant\<close>)
qed

lemma mapFields_invariant:
  assumes run: "loopE (mapField mo row sel) fs m = (m', err)" and "P m"
    and issue: "\<And>m i. P m \<Longrightarrow> P (m\<lparr>m_Issues := i\<rparr>)"
    and rule: "\<And>f r u v d. f \<in> set fs \<Longrightarrow> r \<in> set (prefer_exact row (by_field row sel f)) \<Longrightarrow>
      mapRule row f r u = (v, d) \<Longrightarrow> P u \<Longrightarrow> P v"
  shows "P m'"
  using run \<open>P m\<close>
proof (rule loopE_invariant)
  fix f u v d
  assume f: "f \<in> set fs" and run_f: "mapField mo row sel f u = (v, d)" and u: "P u"
  show "P v"
    by (rule mapField_invariant[OF run_f u issue]) (use rule[OF f] in auto)
qed

lemma mapRow_loop:
  assumes "mapRow e row = (m, err)" and "row_Kind row = RowTransaction"
  obtains d where "loopE (mapField (Mode e) row (select_rules e row))
      (selected_fields row (select_rules e row)) (unmapped row) = (m, d)"
    "err = None \<longleftrightarrow> d = None \<and> finish_row row m = (m, None)"
  using assms
  by (auto simp: mapRow_def Let_def finish_row_def split: prod.splits option.splits if_splits)

lemma mapRow_metadata: "row_Kind row = RowMetadata \<Longrightarrow> mapRow e row = (unmapped row, None)"
  by (simp add: mapRow_def)

lemma mapRow_contributions:
  assumes "mapRow e row = (m, err)"
  shows "m_Row m = row \<and> (\<forall>c \<in> set (m_Contributions m).
      contribution_ok row c \<and> con_Rule c \<in> set (select_rules e row) \<and>
      con_Rule c \<in> set (prefer_exact row (by_field row (select_rules e row) (con_Field c))))"
proof (cases "row_Kind row")
  case RowMetadata
  with assms show ?thesis by (auto simp: mapRow_metadata unmapped_def)
next
  case RowTransaction
  let ?sel = "select_rules e row"
  let ?P = "\<lambda>m. m_Row m = row \<and> (\<forall>c \<in> set (m_Contributions m).
      contribution_ok row c \<and> con_Rule c \<in> set ?sel \<and>
      con_Rule c \<in> set (prefer_exact row (by_field row ?sel (con_Field c))))"
  from mapRow_loop[OF assms RowTransaction] obtain d where
    "loopE (mapField (Mode e) row ?sel) (selected_fields row ?sel) (unmapped row) = (m, d)" .
  then show ?thesis
  proof (rule mapFields_invariant[where P = ?P])
    fix f r u v d
    assume r: "r \<in> set (prefer_exact row (by_field row ?sel f))"
      and run: "mapRule row f r u = (v, d)" and P: "?P u"
    have "r \<in> set ?sel" "field_of row r = f"
      using r set_prefer_exact[of row "by_field row ?sel f"] by (auto simp: by_field_mem)
    then show "?P v"
      using run by (rule_tac mapRule_cases[OF run]) (use P r in auto)
  qed (auto simp: unmapped_def)
qed

section \<open>Rows that map without error\<close>

text \<open>
  What the loops keep of a row as long as nothing has failed: the row's key is the key of every
  contribution.
\<close>

definition one_key :: "mapped_row \<Rightarrow> bool" where
  "one_key m \<longleftrightarrow>
     (if m_Contributions m = [] then m_Key m = []
      else good_parts (m_KeyParts m) \<and> m_Key m = Join (m_KeyParts m) [delimiter] \<and>
        list_all (\<lambda>c. con_KeyParts c = m_KeyParts m \<and> con_Key c = m_Key m) (m_Contributions m))"

lemma mapRule_one_key:
  assumes run: "mapRule row f r m = (m', None)" and key: "one_key m"
  shows "one_key m'"
proof (rule mapRule_cases[OF run])
  fix c
  assume c: "m_Contributions m' = m_Contributions m @ [c]" "good_parts (con_KeyParts c)"
    "con_Key c = Join (con_KeyParts c) [delimiter]"
    "None = None \<longleftrightarrow> (m_Key m = [] \<or> m_Key m = con_Key c)"
    "m_Key m' = (if m_Key m = [] then con_Key c else m_Key m)"
    "m_KeyParts m' = (if m_Key m = [] then con_KeyParts c else m_KeyParts m)"
  show "one_key m'"
  proof (cases "m_Contributions m = []")
    case True
    with c key show ?thesis by (simp add: one_key_def)
  next
    case False
    with key have "m_Key m \<noteq> []" by (auto simp: one_key_def dest: good_parts_Join)
    with c False key show ?thesis by (auto simp: one_key_def good_parts_inject)
  qed
qed simp

lemma mapField_None:
  assumes "mapField mo row sel f m = (m', None)"
  obtains i where
    "loopE (mapRule row f) (prefer_exact row (by_field row sel f)) (m\<lparr>m_Issues := i\<rparr>) = (m', None)"
    "mo = Strict \<Longrightarrow> i = m_Issues m \<and> length (prefer_exact row (by_field row sel f)) \<le> 1"
proof (cases "1 < length (prefer_exact row (by_field row sel f))")
  case True
  with assms that show ?thesis by (auto simp: mapField_def Let_def split: if_splits)
next
  case False
  with assms that[of "m_Issues m"] show ?thesis by (simp add: mapField_def)
qed

lemma one_key_issues [simp]: "one_key (m\<lparr>m_Issues := i\<rparr>) = one_key m"
  by (simp add: one_key_def)

lemma mapFields_one_key:
  assumes "loopE (mapField mo row sel) fs m = (m', None)" and "one_key m"
  shows "one_key m'"
  using assms
proof (rule loopE_invariant_None)
  fix f u v
  assume u: "one_key u" and "mapField mo row sel f u = (v, None)"
  then obtain i where
    "loopE (mapRule row f) (prefer_exact row (by_field row sel f)) (u\<lparr>m_Issues := i\<rparr>) = (v, None)"
    by (auto elim: mapField_None)
  then show "one_key v"
    by (rule loopE_invariant_None) (use u mapRule_one_key in auto)
qed

lemma mapRow_one_key:
  assumes run: "mapRow e row = (m, None)" and row: "row_Kind row = RowTransaction"
  shows "one_key m \<and> m_Contributions m \<noteq> [] \<and> good_parts (m_KeyParts m) \<and>
    m_Key m = Join (m_KeyParts m) [delimiter]"
proof -
  from mapRow_loop[OF run row] have loop: "loopE (mapField (Mode e) row (select_rules e row))
      (selected_fields row (select_rules e row)) (unmapped row) = (m, None)"
    and fin: "finish_row row m = (m, None)" by auto
  have "one_key m" using loop by (rule mapFields_one_key) (simp add: one_key_def unmapped_def)
  moreover have "m_Key m \<noteq> []" using fin by (auto simp: finish_row_def split: if_splits)
  ultimately show ?thesis by (auto simp: one_key_def split: if_splits)
qed

text \<open>In strict mode every selected amount field is taken exactly once.\<close>

lemma mapField_strict:
  assumes run: "mapField Strict row sel f m = (m', None)" and f: "f \<in> set (selected_fields row sel)"
  shows "map con_Field (m_Contributions m') = map con_Field (m_Contributions m) @ [f] \<and>
    m_Issues m' = m_Issues m"
proof -
  obtain i where loop: "loopE (mapRule row f) (prefer_exact row (by_field row sel f)) m = (m', None)"
    and len: "length (prefer_exact row (by_field row sel f)) \<le> 1"
    using run by (rule mapField_None) auto
  have "prefer_exact row (by_field row sel f) \<noteq> []"
    using f by (auto simp: by_field_def filter_empty_conv)
  with len obtain r where "prefer_exact row (by_field row sel f) = [r]"
    by (cases "prefer_exact row (by_field row sel f)") auto
  with loop have "mapRule row f r m = (m', None)" by (auto split: prod.splits option.splits)
  then show ?thesis by (rule mapRule_cases) auto
qed

lemma mapFields_strict:
  "loopE (mapField Strict row sel) fs m = (m', None) \<Longrightarrow> set fs \<subseteq> set (selected_fields row sel) \<Longrightarrow>
   map con_Field (m_Contributions m') = map con_Field (m_Contributions m) @ fs \<and>
   m_Issues m' = m_Issues m"
proof (induction fs arbitrary: m)
  case Nil
  then show ?case by simp
next
  case (Cons f fs)
  from Cons.prems(1) obtain s where s: "mapField Strict row sel f m = (s, None)"
    "loopE (mapField Strict row sel) fs s = (m', None)"
    unfolding loopE_Cons_None by blast
  have "f \<in> set (selected_fields row sel)" "set fs \<subseteq> set (selected_fields row sel)"
    using Cons.prems(2) by simp_all
  with mapField_strict[OF s(1)] Cons.IH[OF s(2)] show ?case by simp
qed

section \<open>Selection\<close>

lemma set_preferred:
  "r \<in> set (if list_ex p xs then filter p xs else xs) \<longleftrightarrow> r \<in> set xs \<and> (p r \<or> \<not> list_ex p xs)"
  by (auto simp: list_ex_iff)

lemma specific_candidate:
  assumes "r \<in> set (Rules e)" and "rule_selects row r"
  shows "r \<in> set (candidates e row)"
  using assms by (auto simp: candidates_def rule_index_def rule_selects_def Let_def)

lemma select_rules_iff:
  "r \<in> set (select_rules e row) \<longleftrightarrow>
     r \<in> set (Rules e) \<and> rule_selects row r \<and>
     (specific r \<or> \<not> list_ex (\<lambda>r. rule_selects row r \<and> specific r) (Rules e))"
proof -
  have cand: "r \<in> set (filter (rule_selects row) (candidates e row)) \<longleftrightarrow>
      r \<in> set (Rules e) \<and> rule_selects row r" for r
    using specific_candidate by (auto simp: candidates_def rule_index_def)
  then have "list_ex specific (filter (rule_selects row) (candidates e row)) \<longleftrightarrow>
      list_ex (\<lambda>r. rule_selects row r \<and> specific r) (Rules e)"
    unfolding list_ex_iff by blast
  with cand show ?thesis
    unfolding select_rules_def Let_def set_preferred by blast
qed

lemma prefer_exact_iff:
  "r \<in> set (prefer_exact row rs) \<longleftrightarrow>
     r \<in> set rs \<and> (exact_rule row r \<or> \<not> list_ex (exact_rule row) rs)"
  unfolding prefer_exact_def by (rule set_preferred)

text \<open>
  C8. Every contribution of a mapped row, in either mode and even when mapping stopped with an
  error, comes from a configured rule that selects the row. It carries the amount the row has for
  the field of the rule: the reconciliation amount of a settlement row, or exactly the decimal
  value of the payment row's column, and zero only for an absent withheld tax. It names the
  negative target of the rule when that amount is negative and the positive target otherwise, its
  decision follows from the target and the amount, and its key is what the rule's record reference
  expands to. An absent tax never comes from a rule that routes.
\<close>

theorem mapRow_contributions_sound:
  "m_Row (fst (mapRow e row)) = row \<and>
   list_all (\<lambda>c. con_Rule c \<in> set (Rules e) \<and> rule_selects row (con_Rule c) \<and>
      contribution_ok row c) (m_Contributions (fst (mapRow e row)))"
  using mapRow_contributions[of e row "fst (mapRow e row)" "snd (mapRow e row)"]
  by (auto simp: list_all_iff select_rules_iff)

text \<open>
  C11. A fallback rule (one with a blank transaction type) contributes to a row only when no
  configured rule with a transaction type selects the row, and a rule with the wildcard
  description contributes to an amount field only when no selected rule for the field has an
  exact description.
\<close>

theorem mapRow_suppresses_fallbacks:
  "list_all (\<lambda>c.
      (specific (con_Rule c) \<longleftrightarrow> list_ex (\<lambda>r. rule_selects row r \<and> specific r) (Rules e)) \<and>
      (exact_rule row (con_Rule c) \<longleftrightarrow>
         list_ex (\<lambda>r. r \<in> set (select_rules e row) \<and> field_of row r = con_Field c \<and>
            exact_rule row r) (Rules e)))
    (m_Contributions (fst (mapRow e row)))"
proof -
  have "(specific (con_Rule c) \<longleftrightarrow> list_ex (\<lambda>r. rule_selects row r \<and> specific r) (Rules e)) \<and>
      (exact_rule row (con_Rule c) \<longleftrightarrow>
         list_ex (\<lambda>r. r \<in> set (select_rules e row) \<and> field_of row r = con_Field c \<and>
            exact_rule row r) (Rules e))"
    if "c \<in> set (m_Contributions (fst (mapRow e row)))" for c
  proof -
    have c: "contribution_ok row c" "con_Rule c \<in> set (select_rules e row)"
      "con_Rule c \<in> set (prefer_exact row (by_field row (select_rules e row) (con_Field c)))"
      using mapRow_contributions[of e row "fst (mapRow e row)" "snd (mapRow e row)"] that by auto
    from c(2) have "specific (con_Rule c) \<longleftrightarrow>
        list_ex (\<lambda>r. rule_selects row r \<and> specific r) (Rules e)"
      by (auto simp: select_rules_iff list_ex_iff)
    moreover from c(3) have "exact_rule row (con_Rule c) \<longleftrightarrow>
        list_ex (exact_rule row) (by_field row (select_rules e row) (con_Field c))"
      by (auto simp: prefer_exact_iff list_ex_iff)
    moreover have "list_ex (exact_rule row) (by_field row (select_rules e row) (con_Field c)) \<longleftrightarrow>
        list_ex (\<lambda>r. r \<in> set (select_rules e row) \<and> field_of row r = con_Field c \<and>
          exact_rule row r) (Rules e)"
      by (auto simp: list_ex_iff by_field_mem select_rules_iff)
    ultimately show ?thesis by simp
  qed
  then show ?thesis by (simp add: list_all_iff)
qed

section \<open>What a mapped row promises\<close>

text \<open>A rule, a row and engines for the concrete instances below.\<close>

definition ex_rule :: "string \<Rightarrow> string \<Rightarrow> string \<Rightarrow> config_rule" where
  "ex_rule tx field pos =
     \<lparr>rule_ID = 1, rule_Source = SourcePayment, rule_OriginFile = ''p.csv'', rule_OriginLine = 2,
      rule_TransactionType = tx, rule_Description = ''any'', rule_AmountField = field,
      rule_AmountType = [], rule_AmountDescription = [], rule_RecordRef = ''txn_ref + sku'',
      rule_PositiveTarget = pos, rule_NegativeTarget = pos\<rparr>"

definition ex_row :: "string \<Rightarrow> raw_row" where
  "ex_row tx =
     \<lparr>row_Source = SourcePayment, row_Kind = RowTransaction, row_Ordinal = 1, row_LineStart = 13,
      row_LineEnd = 13, row_ByteStart = 0, row_ByteEnd = 10, row_Raw = Map.empty,
      row_Canonical = map_of [(''product_sales'', ''12.50''), (''selling_fees'', ''-1.00'')],
      row_SettlementID = ''S1'', row_Currency = ''INR'', row_Transaction = tx,
      row_Description = ''Item'', row_AmountType = [], row_AmountDesc = [], row_SKU = ''A'',
      row_TxnRef = ''R1'', row_PostedAt = None, row_ReleaseAt = None, row_KeyDate = [],
      row_Status = ''Released'', row_ReconAmount = 0, row_HasRecon = False,
      row_Scope = ScopeIn, row_EventClass = []\<rparr>"

definition ex_engine :: "mode \<Rightarrow> engine" where
  "ex_engine mo = \<lparr>Rules = [ex_rule ''Order'' ''selling_fees'' ''sales_amazon_fees'',
      ex_rule [] ''product_sales'' ''sales_product_charges'',
      ex_rule ''Order'' ''product_sales'' ''sales_product_charges''], Mode = mo\<rparr>"

lemma ex_simps [simp]: "Mode (ex_engine mo) = mo" "row_Kind (ex_row tx) = RowTransaction"
  by (simp_all add: ex_engine_def ex_row_def)

text \<open>
  C18. A record reference that expands yields at least one part, no part is empty or contains the
  delimiter, and the keys joined from two expansions (of any templates on any rows) are equal
  only when their parts are: no two different part lists collide on one key.
\<close>

theorem expand_key_injective:
  assumes "expand t row = Inr ps" and "expand u row' = Inr qs"
  shows "(Join ps [delimiter] = Join qs [delimiter] \<longleftrightarrow> ps = qs) \<and> Join ps [delimiter] \<noteq> [] \<and>
    ps \<noteq> [] \<and> list_all (\<lambda>p. p \<noteq> [] \<and> delimiter \<notin> set p) ps"
  using good_parts_inject[OF expand_good[OF assms(1)] expand_good[OF assms(2)]]
    good_parts_Join[OF expand_good[OF assms(1)]] expand_good[OF assms(1)]
  by (auto simp: good_parts_def list_all_iff)

lemma expand_key_injective_witness:
  "Join [''R1'', ''A''] [delimiter] \<noteq> Join [''R1''] [delimiter]"
proof -
  have a: "expand ''txn_ref + sku'' (ex_row ''Order'') = Inr [''R1'', ''A'']"
    and b: "expand ''txn_ref'' (ex_row ''Order'') = Inr [''R1'']"
    by code_simp+
  from expand_key_injective[OF a b] show ?thesis by simp
qed

text \<open>
  C10. A transaction row that maps without error, in either mode, has at least one contribution;
  every contribution has the row's own key and key parts; the key is the joined parts, which are
  nonempty and free of the delimiter; and a payment row does not route both its total and one of
  its components.
\<close>

theorem mapRow_one_key_per_row:
  assumes "mapRow e row = (m, None)" and "row_Kind row = RowTransaction"
  shows "m_Contributions m \<noteq> [] \<and>
    list_all (\<lambda>c. con_KeyParts c = m_KeyParts m \<and> con_Key c = m_Key m) (m_Contributions m) \<and>
    m_Key m = Join (m_KeyParts m) [delimiter] \<and> good_parts (m_KeyParts m) \<and>
    \<not> (row_Source row = SourcePayment \<and> total_and_components (m_Contributions m))"
proof -
  have "finish_row row m = (m, None)" using mapRow_loop[OF assms] by metis
  then have "\<not> (row_Source row = SourcePayment \<and> total_and_components (m_Contributions m))"
    by (auto simp: finish_row_def split: if_splits)
  with mapRow_one_key[OF assms] show ?thesis unfolding one_key_def by metis
qed

lemma ex_row_maps: "snd (mapRow (ex_engine Strict) (ex_row ''Order'')) = None"
  by code_simp

lemma mapRow_one_key_per_row_witness:
  "m_Contributions (fst (mapRow (ex_engine Strict) (ex_row ''Order''))) \<noteq> []"
proof -
  have run: "mapRow (ex_engine Strict) (ex_row ''Order'') =
      (fst (mapRow (ex_engine Strict) (ex_row ''Order'')), None)"
    using ex_row_maps by (metis prod.collapse)
  show ?thesis
    using mapRow_one_key_per_row[OF run] by (simp add: ex_row_def)
qed

text \<open>
  A row and two rules that name the same column: one by its own name and one by \<open>fba_fees\<close>.
\<close>

definition ex_alias_row :: raw_row where
  "ex_alias_row = (ex_row ''Order'')\<lparr>row_Canonical := map_of [(''fulfilment_by_amazon_fees'', ''-5.00'')]\<rparr>"

definition ex_alias_engine :: engine where
  "ex_alias_engine =
     \<lparr>Rules = [ex_rule ''Order'' ''fba_fees'' ''expenses_fba_fees'',
        ex_rule ''Order'' ''fulfilment_by_amazon_fees'' ''expenses_fba_fees''], Mode = Strict\<rparr>"

lemma ex_alias_twice:
  "snd (mapRow ex_alias_engine ex_alias_row) = None \<and>
   map con_Amount (m_Contributions (fst (mapRow ex_alias_engine ex_alias_row))) = [- 500, - 500]"
  by code_simp

lemma ex_alias_bucket:
  "map_sum (\<lambda>_. ()) (\<lambda>(out, s, issues). bucket s ''expenses_fba_fees'' SourcePayment)
     (Map ex_alias_engine [ex_alias_row]) = Inr (- 1000)"
  by code_simp

lemma amount_column_inj:
  "\<not> ({''fba_fees'', ''fulfilment_by_amazon_fees''} \<subseteq> fs) \<Longrightarrow> inj_on amount_column fs"
  by (auto simp: inj_on_def amount_column_def)



lemma empty_type_selects_twice:
  assumes "Label (row_Transaction row) = []"
  shows "select_rules e row = filter (rule_selects row) (rule_index (Rules e) []) @
    filter (rule_selects row) (rule_index (Rules e) [])"
proof -
  have "filter specific (rule_index (Rules e) []) = []"
    by (auto simp: rule_index_def filter_empty_conv specific_def Label_eq_Nil)
  then show ?thesis
    using assms
    by (auto simp: select_rules_def candidates_def Let_def list_ex_iff filter_empty_conv)
qed

lemma prefer_exact_append_self:
  "prefer_exact row (by_field row (s @ s) f) =
     prefer_exact row (by_field row s f) @ prefer_exact row (by_field row s f)"
  by (auto simp: prefer_exact_def by_field_def list_ex_iff)

text \<open>
  C22. A row with a blank transaction type finds the fallback rules twice, because the index entry
  of its own (empty) type is the entry of the fallback rules, and the code appends both. So no
  such transaction row ever maps in strict mode: whatever the rules are, the result is an error.
\<close>

theorem empty_type_never_maps_strictly:
  assumes "row_Kind row = RowTransaction" and "Label (row_Transaction row) = []"
    and "Mode e = Strict"
  shows "snd (mapRow e row) \<noteq> None"
proof
  assume "snd (mapRow e row) = None"
  then obtain m where run: "mapRow e row = (m, None)" by (cases "mapRow e row") auto
  obtain s where s: "select_rules e row = s @ s"
    using empty_type_selects_twice[OF assms(2)] by blast
  have fields: "map con_Field (m_Contributions m) \<noteq> []"
    using mapRow_one_key[OF run assms(1)] by simp
  have loop: "loopE (mapField Strict row (s @ s)) (selected_fields row (s @ s)) (unmapped row) = (m, None)"
    using mapRow_loop[OF run assms(1)] assms(3) s by metis
  from mapFields_strict[OF loop] fields
  obtain f fs where f: "selected_fields row (s @ s) = f # fs"
    by (cases "selected_fields row (s @ s)") (auto simp: unmapped_def)
  with loop obtain v where v: "mapField Strict row (s @ s) f (unmapped row) = (v, None)"
    unfolding f loopE_Cons_None by blast
  have "length (prefer_exact row (by_field row (s @ s) f)) \<le> 1"
    by (rule mapField_None[OF v]) simp
  moreover have "f \<in> set (selected_fields row (s @ s))" using f by simp
  then have "by_field row s f \<noteq> []" by (auto simp: by_field_def filter_empty_conv)
  then have "prefer_exact row (by_field row s f) \<noteq> []" by simp
  ultimately show False
    unfolding prefer_exact_append_self by (cases "prefer_exact row (by_field row s f)") auto
qed

lemma empty_type_never_maps_strictly_witness:
  "snd (mapRow (ex_engine Strict) (ex_row '' '')) \<noteq> None"
  by (rule empty_type_never_maps_strictly) (simp_all, code_simp)

end
