(* ===== verification/Summary_Props.thy ===== *)
theory Summary_Props
  imports Engine_Props
begin

text \<open>
  \<open>Engine.Map\<close> as a whole: the rows it returns, the issues it collects, and the summary, which
  is a ledger. The laws of a ledger are discharged here for \<open>add_summary\<close>, and conservation,
  independence of the row order and freedom from overflow follow from the locale.
\<close>

section \<open>The summary is a ledger\<close>

definition post_account :: "source \<times> contribution \<Rightarrow> string \<times> source" where
  "post_account p = (con_Target (snd p), fst p)"

definition post_cents :: "source \<times> contribution \<Rightarrow> int" where
  "post_cents p = sint (con_Amount (snd p))"

definition bucket_cents :: "summary \<Rightarrow> string \<times> source \<Rightarrow> int" where
  "bucket_cents s k = sint (bucket s (fst k) (snd k))"

lemma post_simps [simp]:
  "post_account (src, c) = (con_Target c, src)" "post_cents (src, c) = sint (con_Amount c)"
  by (simp_all add: post_account_def post_cents_def)

lemma add_summary_Inr:
  "add_summary p s = Inr s' \<longleftrightarrow>
     (\<exists>v. Add (bucket s (con_Target (snd p)) (fst p)) (con_Amount (snd p)) = Inr v \<and>
       s' = s\<lparr>Buckets := gput (con_Target (snd p))
             (gput (fst p) v (gget [] (Buckets s) (con_Target (snd p))))
             (if ghas (Buckets s) (con_Target (snd p)) then Buckets s
              else gput (con_Target (snd p)) [] (Buckets s))\<rparr>)"
  by (auto simp: add_summary_def bucket_def Let_def gget_missing split: sum.splits)

interpretation summary_ledger: bounded_ledger add_summary bucket_cents post_account post_cents
  "- 9223372036854775808" "9223372036854775807"
proof unfold_locales
  fix p s s' k
  assume "add_summary p s = Inr s'"
  then show "bucket_cents s' k = bucket_cents s k + (if post_account p = k then post_cents p else 0)"
    by (cases k) (auto simp: add_summary_Inr bucket_cents_def post_account_def post_cents_def
        bucket_def Add_Inr_iff gget_missing)
next
  fix s p
  assume "- 9223372036854775808 \<le> bucket_cents s (post_account p) + post_cents p"
    "bucket_cents s (post_account p) + post_cents p \<le> 9223372036854775807"
  then have "\<exists>v. Add (bucket s (con_Target (snd p)) (fst p)) (con_Amount (snd p)) = Inr v"
    by (intro Add_accepts) (simp_all add: bucket_cents_def post_account_def post_cents_def)
  then show "\<exists>s'. add_summary p s = Inr s'" by (simp add: add_summary_Inr)
qed

section \<open>The loop over the rows\<close>

definition row_postings :: "engine \<Rightarrow> raw_row \<Rightarrow> (source \<times> contribution) list" where
  "row_postings e row =
     (if snd (mapRow e row) = None \<and> row_Scope row = ScopeIn then postings (fst (mapRow e row)) else [])"

definition row_output :: "engine \<Rightarrow> raw_row \<Rightarrow> mapped_row" where
  "row_output e row =
     (case mapRow e row of (m, None) \<Rightarrow> m
      | (m, Some err) \<Rightarrow> m\<lparr>m_Issues := m_Issues m @ [RowIssue err]\<rparr>)"

lemma note_issue_simps [simp]:
  "st_out (note_issue i st) = st_out st" "st_summary (note_issue i st) = st_summary st"
  by (simp_all add: note_issue_def)

lemma fold_note_issue [simp]:
  "st_out (fold note_issue is st) = st_out st \<and> st_summary (fold note_issue is st) = st_summary st"
  by (induction "is" arbitrary: st) simp_all

lemma map_step_Inr:
  assumes "map_step e row st = Inr st'"
  shows "st_out st' = st_out st @ [row_output e row] \<and>
    foldE add_summary (row_postings e row) (st_summary st) = Inr (st_summary st') \<and>
    (Mode e = Strict \<longrightarrow> snd (mapRow e row) = None)"
proof (cases "mapRow e row")
  case (Pair m err)
  with assms show ?thesis
    by (cases err)
      (auto simp: map_step_def row_output_def row_postings_def Let_def split: if_splits sum.splits)
qed

lemma map_steps_Inr:
  "foldE (map_step e) rows st = Inr st' \<Longrightarrow>
   st_out st' = st_out st @ map (row_output e) rows \<and>
   foldE add_summary (concat (map (row_postings e) rows)) (st_summary st) = Inr (st_summary st') \<and>
   (Mode e = Strict \<longrightarrow> list_all (\<lambda>row. snd (mapRow e row) = None) rows)"
proof (induction rows arbitrary: st)
  case Nil
  then show ?case by simp
next
  case (Cons row rows)
  then obtain u where u: "map_step e row st = Inr u" "foldE (map_step e) rows u = Inr st'"
    by (auto simp: result_simps)
  from map_step_Inr[OF u(1)] Cons.IH[OF u(2)] show ?case by (simp add: foldE_append)
qed

lemma Map_Inr:
  assumes "Map e rows = Inr (out, s, issues)"
  shows "(Mode e = Diagnostic \<or> Mode e = Strict) \<and> check_rules (Rules e) = None \<and>
    out = map (row_output e) rows \<and>
    foldE add_summary (concat (map (row_postings e) rows)) \<lparr>Buckets = []\<rparr> = Inr s \<and>
    (Mode e = Strict \<longrightarrow> list_all (\<lambda>row. snd (mapRow e row) = None) rows)"
  using assms
  by (auto simp: Map_def split: if_splits option.splits sum.splits dest!: map_steps_Inr)

lemma row_postings_cents:
  assumes "t \<noteq> []"
  shows "(\<Sum>p\<leftarrow>row_postings e row. if post_account p = (t, src) then post_cents p else 0) =
    (if snd (mapRow e row) = None \<and> row_Scope row = ScopeIn \<and> row_Source row = src
     then \<Sum>c\<leftarrow>m_Contributions (fst (mapRow e row)). if con_Target c = t then sint (con_Amount c) else 0
     else 0)"
proof -
  have src: "m_Row (fst (mapRow e row)) = row"
    using mapRow_contributions[of e row "fst (mapRow e row)" "snd (mapRow e row)"] by simp
  have sum: "(\<Sum>c\<leftarrow>filter routed cs. if con_Target c = t then post_cents (src, c) else 0) =
      (\<Sum>c\<leftarrow>cs. if con_Target c = t then sint (con_Amount c) else 0)" for cs
    using assms by (induction cs) (auto simp: routed_def)
  show ?thesis
    by (simp add: row_postings_def postings_def src o_def sum)
qed

lemma row_postings_abs:
  "(\<Sum>p\<leftarrow>row_postings e row. if post_account p = (t, src) then \<bar>post_cents p\<bar> else 0) =
    (if t \<noteq> [] \<and> snd (mapRow e row) = None \<and> row_Scope row = ScopeIn \<and> row_Source row = src
     then \<Sum>c\<leftarrow>m_Contributions (fst (mapRow e row)). if con_Target c = t then \<bar>sint (con_Amount c)\<bar> else 0
     else 0)"
proof -
  have src: "m_Row (fst (mapRow e row)) = row"
    using mapRow_contributions[of e row "fst (mapRow e row)" "snd (mapRow e row)"] by simp
  have sum: "(\<Sum>c\<leftarrow>filter routed cs. if con_Target c = t then \<bar>post_cents (row_Source row, c)\<bar> else 0) =
      (if t \<noteq> [] then \<Sum>c\<leftarrow>cs. if con_Target c = t then \<bar>sint (con_Amount c)\<bar> else 0 else 0)" for cs
    by (induction cs) (auto simp: routed_def)
  show ?thesis
  proof (cases "src = row_Source row")
    case True
    show ?thesis
      unfolding True using sum by (cases "t = []") (simp_all add: row_postings_def postings_def src o_def)
  next
    case False
    then show ?thesis by (auto simp: row_postings_def postings_def src o_def)
  qed
qed

section \<open>Properties\<close>

text \<open>
  C5. The summary conserves money: for every summary field and source, the bucket of an accepted
  run is the exact, unbounded sum of the amounts that the contributions of the rows of that
  source which are in scope and mapped without error direct to the field. Nothing else enters it,
  and no bucket has wrapped around.
\<close>

theorem Map_conserves:
  assumes "Map e rows = Inr (out, s, issues)" and "t \<noteq> []"
  shows "sint (bucket s t src) =
    (\<Sum>row\<leftarrow>rows.
       if snd (mapRow e row) = None \<and> row_Scope row = ScopeIn \<and> row_Source row = src
       then \<Sum>c\<leftarrow>m_Contributions (fst (mapRow e row)). if con_Target c = t then sint (con_Amount c) else 0
       else 0)"
proof -
  have "foldE add_summary (concat (map (row_postings e) rows)) \<lparr>Buckets = []\<rparr> = Inr s"
    using Map_Inr[OF assms(1)] by simp
  from summary_ledger.run_exact[OF this, of "(t, src)"]
  have "sint (bucket s t src) = (\<Sum>p\<leftarrow>concat (map (row_postings e) rows).
      if post_account p = (t, src) then post_cents p else 0)"
    by (simp add: bucket_cents_def bucket_def)
  then show ?thesis
    by (simp add: sum_list_concat_map row_postings_cents[OF assms(2)] o_def)
qed

lemma ex_Map:
  "case Map (ex_engine Strict) [ex_row ''Order'', ex_row ''Order''] of
     Inr (out, s, issues) \<Rightarrow> bucket s ''sales_product_charges'' SourcePayment = 2500 \<and> issues = []
   | Inl _ \<Rightarrow> False"
  by code_simp

lemma Map_conserves_witness:
  "\<exists>out s issues. Map (ex_engine Strict) [ex_row ''Order'', ex_row ''Order''] = Inr (out, s, issues) \<and>
     (\<Sum>row\<leftarrow>[ex_row ''Order'', ex_row ''Order''].
       if snd (mapRow (ex_engine Strict) row) = None \<and> row_Scope row = ScopeIn \<and>
          row_Source row = SourcePayment
       then \<Sum>c\<leftarrow>m_Contributions (fst (mapRow (ex_engine Strict) row)).
          if con_Target c = ''sales_product_charges'' then sint (con_Amount c) else 0
       else 0) = 2500"
proof -
  obtain out s issues where
    run: "Map (ex_engine Strict) [ex_row ''Order'', ex_row ''Order''] = Inr (out, s, issues)"
    and b: "bucket s ''sales_product_charges'' SourcePayment = 2500"
    using ex_Map by (auto split: sum.splits)
  have t: "''sales_product_charges'' \<noteq> []" by simp
  have "sint (bucket s ''sales_product_charges'' SourcePayment) = 2500" unfolding b by simp
  with Map_conserves[OF run t, of SourcePayment] run show ?thesis by metis
qed

lemma row_output_strict:
  assumes "Mode e = Strict" and "snd (mapRow e row) = None"
  shows "m_Issues (fst (mapRow e row)) = [] \<and> row_output e row = fst (mapRow e row)"
proof (cases "row_Kind row")
  case RowMetadata
  then show ?thesis by (simp add: mapRow_metadata row_output_def unmapped_def)
next
  case RowTransaction
  obtain m where m: "mapRow e row = (m, None)" using assms(2) by (cases "mapRow e row") auto
  from mapRow_loop[OF m RowTransaction]
  have "loopE (mapField Strict row (select_rules e row)) (selected_fields row (select_rules e row))
      (unmapped row) = (m, None)"
    using assms(1) by metis
  from mapFields_strict[OF this] m show ?thesis by (simp add: row_output_def unmapped_def)
qed

lemma map_steps_strict_issues:
  "foldE (map_step e) rows st = Inr st' \<Longrightarrow> Mode e = Strict \<Longrightarrow> st_issues st' = st_issues st"
proof (induction rows arbitrary: st)
  case Nil
  then show ?case by simp
next
  case (Cons row rows)
  then obtain u where u: "map_step e row st = Inr u" "foldE (map_step e) rows u = Inr st'"
    by (auto simp: result_simps)
  have ok: "snd (mapRow e row) = None" using map_step_Inr[OF u(1)] Cons.prems by simp
  then obtain m where m: "mapRow e row = (m, None)" by (cases "mapRow e row") auto
  have "m_Issues m = []" using row_output_strict[OF Cons.prems(2) ok] m by simp
  then have "st_issues u = st_issues st"
    using u(1) m by (auto simp: map_step_def split: if_splits sum.splits)
  with Cons.IH[OF u(2)] Cons.prems show ?case by simp
qed

text \<open>
  The issues of a run, row by row: the error of a row that failed, with its source and line, and
  otherwise the issues that the row carries, which a run reports once each.
\<close>

definition line_issue :: "issue \<Rightarrow> bool" where
  "line_issue i \<longleftrightarrow> (case i of RowLineIssue _ _ _ \<Rightarrow> True | _ \<Rightarrow> False)"

definition reported :: "engine \<Rightarrow> raw_row \<Rightarrow> issue list" where
  "reported e row =
     (case mapRow e row of
        (m, Some err) \<Rightarrow> [RowLineIssue (row_Source row) (row_LineStart row) err]
      | (m, None) \<Rightarrow> m_Issues m)"

lemma fold_note_issue_fields:
  assumes "list_all (\<lambda>i. \<not> line_issue i) is"
    and "set (st_seen st) = set (filter (\<lambda>i. \<not> line_issue i) (st_issues st))"
    and "distinct (filter (\<lambda>i. \<not> line_issue i) (st_issues st))"
  shows "filter line_issue (st_issues (fold note_issue is st)) = filter line_issue (st_issues st) \<and>
    set (st_issues (fold note_issue is st)) = set (st_issues st) \<union> set is \<and>
    set (st_seen (fold note_issue is st)) =
      set (filter (\<lambda>i. \<not> line_issue i) (st_issues (fold note_issue is st))) \<and>
    distinct (filter (\<lambda>i. \<not> line_issue i) (st_issues (fold note_issue is st)))"
  using assms
proof (induction "is" arbitrary: st)
  case Nil
  then show ?case by simp
next
  case (Cons i "is")
  let ?st = "note_issue i st"
  have 1: "filter line_issue (st_issues ?st) = filter line_issue (st_issues st)"
    "set (st_issues ?st) = insert i (set (st_issues st))"
    "set (st_seen ?st) = set (filter (\<lambda>i. \<not> line_issue i) (st_issues ?st))"
    "distinct (filter (\<lambda>i. \<not> line_issue i) (st_issues ?st))"
    using Cons.prems by (auto simp: note_issue_def)
  have 2: "list_all (\<lambda>i. \<not> line_issue i) is" using Cons.prems(1) by simp
  from Cons.IH[OF 2 1(3,4)] 1 show ?case by auto
qed

lemma mapRow_no_line_issue: "list_all (\<lambda>i. \<not> line_issue i) (m_Issues (fst (mapRow e row)))"
proof (cases "row_Kind row")
  case RowMetadata
  then show ?thesis by (simp add: mapRow_metadata unmapped_def)
next
  case RowTransaction
  let ?P = "\<lambda>m. list_all (\<lambda>i. \<not> line_issue i) (m_Issues m)"
  have rule: "?P v" if run: "mapRule row f r u = (v, d)" and u: "?P u" for f r u v d
    by (rule mapRule_cases[OF run]) (use u in auto)
  have field: "?P v" if run: "mapField mo row sel f u = (v, d)" and u: "?P u" for mo sel f u v d
  proof -
    let ?rs = "prefer_exact row (by_field row sel f)"
    let ?u = "u\<lparr>m_Issues := m_Issues u @ [DuplicateSelector f (rule_lines ?rs)]\<rparr>"
    have "?P ?u" using u by (simp add: line_issue_def)
    moreover have "v = u \<or> loopE (mapRule row f) ?rs u = (v, d) \<or> loopE (mapRule row f) ?rs ?u = (v, d)"
      using run by (auto simp: mapField_def Let_def split: if_splits)
    ultimately obtain w where w: "?P w" "v = w \<or> loopE (mapRule row f) ?rs w = (v, d)"
      using u by blast
    from w(2) show ?thesis
    proof
      assume "loopE (mapRule row f) ?rs w = (v, d)"
      then show ?thesis using w(1) by (rule loopE_invariant) (use rule in auto)
    qed (use w(1) in simp)
  qed
  obtain m err where run: "mapRow e row = (m, err)" by (cases "mapRow e row")
  from mapRow_loop[OF run RowTransaction] obtain d where
    "loopE (mapField (Mode e) row (select_rules e row))
      (selected_fields row (select_rules e row)) (unmapped row) = (m, d)" .
  then have "?P m" by (rule loopE_invariant) (use field in \<open>auto simp: unmapped_def\<close>)
  with run show ?thesis by simp
qed

text \<open>What the loop over the rows has collected after some rows.\<close>

definition issues_ok :: "engine \<Rightarrow> raw_row list \<Rightarrow> map_state \<Rightarrow> bool" where
  "issues_ok e rows st \<longleftrightarrow>
     filter line_issue (st_issues st) = filter line_issue (concat (map (reported e) rows)) \<and>
     set (st_issues st) = set (concat (map (reported e) rows)) \<and>
     set (st_seen st) = set (filter (\<lambda>i. \<not> line_issue i) (st_issues st)) \<and>
     distinct (filter (\<lambda>i. \<not> line_issue i) (st_issues st))"

lemma map_step_issues:
  assumes step: "map_step e row st = Inr st'" and ok: "issues_ok e rows st"
  shows "issues_ok e (rows @ [row]) st'"
proof (cases "mapRow e row")
  case (Pair m err)
  show ?thesis
  proof (cases err)
    case None
    have free: "list_all (\<lambda>i. \<not> line_issue i) (m_Issues m)"
      using mapRow_no_line_issue[of e row] Pair by simp
    then have "filter line_issue (m_Issues m) = []" by (simp add: list_all_iff filter_empty_conv)
    moreover have "st_issues st' = st_issues (fold note_issue (m_Issues m) st)"
      "st_seen st' = st_seen (fold note_issue (m_Issues m) st)"
      using step Pair None by (auto simp: map_step_def Let_def split: if_splits sum.splits)
    moreover have "reported e row = m_Issues m" using Pair None by (simp add: reported_def)
    moreover note fold_note_issue_fields[OF free, of st]
    ultimately show ?thesis using ok unfolding issues_ok_def by simp
  next
    case (Some x)
    then have "st_issues st' = st_issues st @ [RowLineIssue (row_Source row) (row_LineStart row) x]"
      "st_seen st' = st_seen st" "reported e row = [RowLineIssue (row_Source row) (row_LineStart row) x]"
      using step Pair by (auto simp: map_step_def reported_def split: if_splits)
    then show ?thesis using ok unfolding issues_ok_def by (simp add: line_issue_def)
  qed
qed

lemma map_steps_issues:
  "foldE (map_step e) rows st = Inr st' \<Longrightarrow> issues_ok e before st \<Longrightarrow> issues_ok e (before @ rows) st'"
proof (induction rows arbitrary: st before)
  case Nil
  then show ?case by simp
next
  case (Cons row rows)
  then obtain u where u: "map_step e row st = Inr u" "foldE (map_step e) rows u = Inr st'"
    by (auto simp: result_simps)
  from Cons.IH[OF u(2) map_step_issues[OF u(1) Cons.prems(2)]] show ?case by simp
qed

lemma Map_issues:
  assumes "Map e rows = Inr (out, s, issues)"
  shows "filter line_issue issues = filter line_issue (concat (map (reported e) rows)) \<and>
    set issues = set (concat (map (reported e) rows)) \<and>
    distinct (filter (\<lambda>i. \<not> line_issue i) issues)"
proof -
  let ?st = "\<lparr>st_out = [], st_summary = \<lparr>Buckets = []\<rparr>, st_issues = [], st_seen = []\<rparr>"
  from assms obtain st' where "foldE (map_step e) rows ?st = Inr st'" "issues = st_issues st'"
    by (auto simp: Map_def split: if_splits option.splits sum.splits)
  with map_steps_issues[of e rows ?st st' "[]"] show ?thesis by (simp add: issues_ok_def)
qed

text \<open>
  C15. An accepted run returns one mapped row per input row, in the order of the input, with its
  contributions and with the issue of a row that failed recorded on the row, after the issues
  found before. The run reports every failed row in order with its source, line and error, and
  every issue of the other rows once, and nothing else. In strict mode no row fails, no row
  carries an issue and the run reports none.
\<close>

theorem Map_keeps_rows:
  assumes "Map e rows = Inr (out, s, issues)"
  shows "map m_Row out = rows \<and>
    map m_Contributions out = map (\<lambda>row. m_Contributions (fst (mapRow e row))) rows \<and>
    map m_Issues out = map (\<lambda>row. m_Issues (fst (mapRow e row)) @
      (case snd (mapRow e row) of None \<Rightarrow> [] | Some err \<Rightarrow> [RowIssue err])) rows \<and>
    filter line_issue issues = concat (map (\<lambda>row. case snd (mapRow e row) of None \<Rightarrow> []
      | Some err \<Rightarrow> [RowLineIssue (row_Source row) (row_LineStart row) err]) rows) \<and>
    set issues = set (concat (map (reported e) rows)) \<and>
    distinct (filter (\<lambda>i. \<not> line_issue i) issues) \<and>
    (if Mode e = Strict
     then out = map (\<lambda>row. fst (mapRow e row)) rows \<and> issues = [] \<and>
       list_all (\<lambda>row. snd (mapRow e row) = None) rows \<and> list_all (\<lambda>m. m_Issues m = []) out
     else Mode e = Diagnostic)"
proof -
  note M = Map_Inr[OF assms]
  have r: "m_Row (row_output e row) = row \<and>
      m_Contributions (row_output e row) = m_Contributions (fst (mapRow e row)) \<and>
      m_Issues (row_output e row) = m_Issues (fst (mapRow e row)) @
        (case snd (mapRow e row) of None \<Rightarrow> [] | Some err \<Rightarrow> [RowIssue err])" for row
    using mapRow_contributions[of e row "fst (mapRow e row)" "snd (mapRow e row)"]
    by (cases "mapRow e row"; cases "snd (mapRow e row)") (simp_all add: row_output_def)
  have line: "filter line_issue (reported e row) = (case snd (mapRow e row) of None \<Rightarrow> []
      | Some err \<Rightarrow> [RowLineIssue (row_Source row) (row_LineStart row) err])" for row
    using mapRow_no_line_issue[of e row]
    by (cases "mapRow e row"; cases "snd (mapRow e row)")
      (auto simp: reported_def line_issue_def list_all_iff filter_empty_conv)
  have "issues = []" if "Mode e = Strict"
    using assms that
    by (auto simp: Map_def split: if_splits option.splits sum.splits dest!: map_steps_strict_issues)
  then have "if Mode e = Strict
     then out = map (\<lambda>row. fst (mapRow e row)) rows \<and> issues = [] \<and>
       list_all (\<lambda>row. snd (mapRow e row) = None) rows \<and> list_all (\<lambda>m. m_Issues m = []) out
     else Mode e = Diagnostic"
    using M row_output_strict[of e] by (auto simp: list_all_iff)
  with M r Map_issues[OF assms] show ?thesis by (simp add: filter_concat o_def line)
qed

text \<open>A row without the amount that a fallback rule asks for.\<close>

definition ex_bad_row :: raw_row where
  "ex_bad_row = (ex_row ''Other'')\<lparr>row_Canonical := Map.empty\<rparr>"

lemma ex_bad_row_fails:
  "case snd (mapRow (ex_engine Diagnostic) ex_bad_row) of Some err \<Rightarrow> True | None \<Rightarrow> False"
  by code_simp

lemma Map_keeps_rows_witness:
  "\<exists>out s issues err. Map (ex_engine Diagnostic) [ex_bad_row, ex_row ''Order''] = Inr (out, s, issues) \<and>
     map m_Row out = [ex_bad_row, ex_row ''Order''] \<and>
     snd (mapRow (ex_engine Diagnostic) ex_bad_row) = Some err \<and>
     filter line_issue issues = [RowLineIssue SourcePayment 13 err]"
proof -
  have "case Map (ex_engine Diagnostic) [ex_bad_row, ex_row ''Order''] of Inr r \<Rightarrow> True | Inl _ \<Rightarrow> False"
    by code_simp
  then obtain out s issues where
    run: "Map (ex_engine Diagnostic) [ex_bad_row, ex_row ''Order''] = Inr (out, s, issues)"
    by (auto split: sum.splits)
  obtain err where err: "snd (mapRow (ex_engine Diagnostic) ex_bad_row) = Some err"
    using ex_bad_row_fails by (auto split: option.splits)
  have ok: "snd (mapRow (ex_engine Diagnostic) (ex_row ''Order'')) = None" by code_simp
  from Map_keeps_rows[OF run] err ok
  have "filter line_issue issues = [RowLineIssue SourcePayment 13 err]"
    "map m_Row out = [ex_bad_row, ex_row ''Order'']" by (simp_all add: ex_bad_row_def ex_row_def)
  with run err show ?thesis by (intro exI conjI)
qed

lemma map_steps_total:
  "foldE add_summary (concat (map (row_postings e) rows)) (st_summary st) = Inr s \<Longrightarrow>
   Mode e = Diagnostic \<or> list_all (\<lambda>row. snd (mapRow e row) = None) rows \<Longrightarrow>
   \<exists>st'. foldE (map_step e) rows st = Inr st'"
proof (induction rows arbitrary: st)
  case Nil
  then show ?case by simp
next
  case (Cons row rows)
  from Cons.prems(1) obtain u where u: "foldE add_summary (row_postings e row) (st_summary st) = Inr u"
    "foldE add_summary (concat (map (row_postings e) rows)) u = Inr s"
    by (auto simp: foldE_append split: sum.splits)
  obtain st1 where st1: "map_step e row st = Inr st1"
    using u(1) Cons.prems(2)
    by (cases "mapRow e row"; cases "snd (mapRow e row)")
      (auto simp: map_step_def row_postings_def Let_def split: if_splits)
  have "st_summary st1 = u" using map_step_Inr[OF st1] u(1) by simp
  with Cons.IH[of st1] u(2) Cons.prems(2) st1 show ?case by auto
qed

text \<open>
  C14. Mapping is total as far as the amounts allow: a run with valid rules is accepted in
  diagnostic mode whatever the rows are, and in strict mode when every row maps, as long as for
  every summary field and source the absolute amounts that the rows post there (rows of that
  source in scope that map without error, in their contributions to that field) add up to at most
  the largest 64-bit integer. Amounts that are not posted do not matter.
\<close>

theorem Map_accepts:
  assumes "check_rules (Rules e) = None"
    and "Mode e = Diagnostic \<or> Mode e = Strict \<and> list_all (\<lambda>row. snd (mapRow e row) = None) rows"
    and "\<And>t src. t \<noteq> [] \<Longrightarrow>
      (\<Sum>row\<leftarrow>rows.
         if snd (mapRow e row) = None \<and> row_Scope row = ScopeIn \<and> row_Source row = src
         then \<Sum>c\<leftarrow>m_Contributions (fst (mapRow e row)). if con_Target c = t then \<bar>sint (con_Amount c)\<bar> else 0
         else 0) \<le> 9223372036854775807"
  shows "\<exists>out s issues. Map e rows = Inr (out, s, issues)"
proof -
  let ?ps = "concat (map (row_postings e) rows)"
  have "(\<Sum>p\<leftarrow>?ps. if post_account p = (t, src) then \<bar>post_cents p\<bar> else 0) \<le> 9223372036854775807" for t src
    using assms(3)[of t src]
    by (cases "t = []") (simp_all add: sum_list_concat_map row_postings_abs o_def)
  then have "\<exists>s. foldE add_summary ?ps \<lparr>Buckets = []\<rparr> = Inr s"
    by (intro summary_ledger.run_accepts) (simp add: bucket_cents_def bucket_def split_paired_all)
  then obtain s where "foldE add_summary ?ps \<lparr>Buckets = []\<rparr> = Inr s"
    by blast
  then have "\<exists>st'. foldE (map_step e) rows
      \<lparr>st_out = [], st_summary = \<lparr>Buckets = []\<rparr>, st_issues = [], st_seen = []\<rparr> = Inr st'"
    by (intro map_steps_total) (use assms(2) in auto)
  with assms(1,2) show ?thesis by (auto simp: Map_def)
qed

text \<open>A row out of scope with the largest amount, which is not posted.\<close>

definition ex_huge_row :: raw_row where
  "ex_huge_row = (ex_row ''Order'')\<lparr>row_Scope := ScopeOther,
     row_Canonical := map_of [(''product_sales'', ''92233720368547758.07''), (''selling_fees'', ''0.00'')]\<rparr>"

lemma Map_accepts_witness:
  "\<exists>out s issues. Map (ex_engine Diagnostic) [ex_huge_row, ex_bad_row, ex_row ''Order''] = Inr (out, s, issues)"
proof (rule Map_accepts)
  show "check_rules (Rules (ex_engine Diagnostic)) = None" by code_simp
  fix t src
  have fail: "snd (mapRow (ex_engine Diagnostic) ex_bad_row) \<noteq> None"
    using ex_bad_row_fails by (auto split: option.splits)
  have cs: "map (\<lambda>c. (con_Target c, sint (con_Amount c)))
      (m_Contributions (fst (mapRow (ex_engine Diagnostic) (ex_row ''Order'')))) =
      [(''sales_product_charges'', 1250), (''sales_amazon_fees'', - 100)]" by code_simp
  have "(\<Sum>c\<leftarrow>m_Contributions (fst (mapRow (ex_engine Diagnostic) (ex_row ''Order''))).
      if con_Target c = t then \<bar>sint (con_Amount c)\<bar> else 0) \<le> 1350"
    using arg_cong[OF cs, of "\<lambda>xs. (\<Sum>x\<leftarrow>xs. if fst x = t then \<bar>snd x\<bar> else 0)"]
    by (simp add: o_def cong: if_cong)
  with fail show "(\<Sum>row\<leftarrow>[ex_huge_row, ex_bad_row, ex_row ''Order''].
      if snd (mapRow (ex_engine Diagnostic) row) = None \<and> row_Scope row = ScopeIn \<and> row_Source row = src
      then \<Sum>c\<leftarrow>m_Contributions (fst (mapRow (ex_engine Diagnostic) row)).
        if con_Target c = t then \<bar>sint (con_Amount c)\<bar> else 0
      else 0) \<le> 9223372036854775807"
    by (auto simp: ex_huge_row_def)
qed simp

lemma mset_concat_map_cong:
  "mset xs = mset ys \<Longrightarrow> mset (concat (map f xs)) = mset (concat (map f ys))"
  by (metis mset_concat mset_map sum_mset_sum_list map_map)

text \<open>
  The order of the rows does not matter to the summary: two accepted runs of the same engine
  over permutations of the same rows have equal buckets, although intermediate sums differ.
\<close>

theorem Map_order_irrelevant:
  assumes "mset rows = mset rows'"
    and "Map e rows = Inr (out, s, issues)" and "Map e rows' = Inr (out', s', issues')"
  shows "bucket s t src = bucket s' t src"
proof -
  have "mset (concat (map (row_postings e) rows)) = mset (concat (map (row_postings e) rows'))"
    using assms(1) by (rule mset_concat_map_cong)
  then have "bucket_cents s (t, src) = bucket_cents s' (t, src)"
    by (rule summary_ledger.run_order_irrelevant) (use Map_Inr assms(2,3) in blast)+
  then show ?thesis by (simp add: bucket_cents_def sint_eqD)
qed

lemma Map_order_irrelevant_witness:
  "\<exists>out s i out' s' i'. Map (ex_engine Strict) [ex_row ''Order'', ex_row ''Refund''] = Inr (out, s, i) \<and>
     Map (ex_engine Strict) [ex_row ''Refund'', ex_row ''Order''] = Inr (out', s', i') \<and>
     bucket s ''sales_product_charges'' SourcePayment = bucket s' ''sales_product_charges'' SourcePayment"
proof -
  have "case Map (ex_engine Strict) [ex_row ''Order'', ex_row ''Refund''] of Inr r \<Rightarrow> True | Inl _ \<Rightarrow> False"
    "case Map (ex_engine Strict) [ex_row ''Refund'', ex_row ''Order''] of Inr r \<Rightarrow> True | Inl _ \<Rightarrow> False"
    by code_simp+
  then obtain out s i out' s' i' where
    a: "Map (ex_engine Strict) [ex_row ''Order'', ex_row ''Refund''] = Inr (out, s, i)" and
    b: "Map (ex_engine Strict) [ex_row ''Refund'', ex_row ''Order''] = Inr (out', s', i')"
    by (auto split: sum.splits)
  have "mset [ex_row ''Order'', ex_row ''Refund''] = mset [ex_row ''Refund'', ex_row ''Order'']"
    by simp
  from Map_order_irrelevant[OF this a b] a b show ?thesis by blast
qed

end
