(* ===== verification/Reconcile.thy ===== *)
theory Reconcile
  imports Engine
begin

text \<open>
  \<open>internal/reconcile/reconcile.go\<close>: classification of rows into scopes, and grouping of the
  mapped rows of both sources by identity. A group is reached through the map only, so the
  pointers of the source are values here. The keys of the map are the identity strings; its
  iteration order is the order of the association list, and the theory Group_Props shows that the
  result does not depend on it.
\<close>

section \<open>Classification\<close>

definition classify_row :: "string \<Rightarrow> raw_row \<Rightarrow> raw_row" where
  "classify_row selected r =
     (if row_Kind r = RowMetadata then r\<lparr>row_Scope := ScopeMetadata\<rparr>
      else if row_Source r = SourcePayment then
        if row_SettlementID r \<noteq> selected then r\<lparr>row_Scope := ScopeOther\<rparr>
        else if EqualFold (row_Status r) ''Deferred'' then r\<lparr>row_Scope := ScopeDeferred\<rparr>
        else if EqualFold (row_Status r) ''Released'' then r\<lparr>row_Scope := ScopeIn\<rparr>
        else r\<lparr>row_Scope := ScopeUnsupported\<rparr>
      else if row_SettlementID r = selected then r\<lparr>row_Scope := ScopeIn\<rparr>
      else r\<lparr>row_Scope := ScopeOther\<rparr>)"

definition Classify :: "raw_row list \<Rightarrow> string \<Rightarrow> raw_row list" where
  "Classify rows selected = map (classify_row selected) rows"

section \<open>Grouping\<close>

datatype group_error =
    PaymentGroup string money_error
  | PaymentBucket string string money_error
  | SettlementGroup string money_error
  | SettlementBucket string string money_error

type_synonym group_map = "(string, group) gomap"

definition identityKey :: "string list \<Rightarrow> string" where
  "identityKey parts = concat (map hash_part parts)"

definition row_identity :: "'i mapped \<Rightarrow> string" where
  "row_identity row =
     identityKey [m_Key row, row_SettlementID (m_Row row), row_Currency (m_Row row),
       scope_string (row_Scope (m_Row row))]"

definition new_group :: "'i mapped \<Rightarrow> group" where
  "new_group row =
     \<lparr>g_KeyParts = m_KeyParts row, g_Key = m_Key row,
      g_SettlementID = row_SettlementID (m_Row row), g_Currency = row_Currency (m_Row row),
      g_Scope = row_Scope (m_Row row), g_PaymentRows = [], g_SettlementRows = [],
      g_PaymentAmount = 0, g_SettlementAmt = 0, g_PaymentBuckets = [], g_SettleBuckets = []\<rparr>"

text \<open>\<open>buckets[c.Target], err = money.Add(buckets[c.Target], c.Amount)\<close>\<close>

definition add_bucket ::
  "(string \<Rightarrow> money_error \<Rightarrow> 'e) \<Rightarrow> contribution \<Rightarrow> (string, int64) gomap \<Rightarrow> 'e + (string, int64) gomap"
where
  "add_bucket err c b =
     (case Add (gget 0 b (con_Target c)) (con_Amount c) of
        Inl e \<Rightarrow> Inl (err (con_Target c) e)
      | Inr v \<Rightarrow> Inr (gput (con_Target c) v b))"

definition add_payment :: "'i mapped \<Rightarrow> group \<Rightarrow> group_error + group" where
  "add_payment row g =
     (case Add (g_PaymentAmount g) (row_ReconAmount (m_Row row)) of
        Inl e \<Rightarrow> Inl (PaymentGroup (m_Key row) e)
      | Inr a \<Rightarrow>
     (case foldE (add_bucket (PaymentBucket (m_Key row))) (filter routed (m_Contributions row))
              (g_PaymentBuckets g) of
        Inl e \<Rightarrow> Inl e
      | Inr b \<Rightarrow> Inr (g\<lparr>g_PaymentRows := g_PaymentRows g @ [m_Row row],
                       g_PaymentAmount := a, g_PaymentBuckets := b\<rparr>)))"

definition add_settlement :: "'i mapped \<Rightarrow> group \<Rightarrow> group_error + group" where
  "add_settlement row g =
     (case Add (g_SettlementAmt g) (row_ReconAmount (m_Row row)) of
        Inl e \<Rightarrow> Inl (SettlementGroup (m_Key row) e)
      | Inr a \<Rightarrow>
     (case foldE (add_bucket (SettlementBucket (m_Key row))) (filter routed (m_Contributions row))
              (g_SettleBuckets g) of
        Inl e \<Rightarrow> Inl e
      | Inr b \<Rightarrow> Inr (g\<lparr>g_SettlementRows := g_SettlementRows g @ [m_Row row],
                       g_SettlementAmt := a, g_SettleBuckets := b\<rparr>)))"

definition add_row :: "bool \<Rightarrow> 'i mapped \<Rightarrow> group_map \<Rightarrow> group_error + group_map" where
  "add_row payment row m =
     (if row_Kind (m_Row row) = RowMetadata then Inr m
      else let key = row_identity row;
               g = (case map_of m key of None \<Rightarrow> new_group row | Some g \<Rightarrow> g)
           in case (if payment then add_payment row g else add_settlement row g) of
                Inl e \<Rightarrow> Inl e
              | Inr g' \<Rightarrow> Inr (gput key g' m))"

definition groupRank :: "group \<Rightarrow> int" where
  "groupRank g =
     (if g_PaymentRows g \<noteq> [] \<and> g_SettlementRows g \<noteq> [] then 0
      else if g_PaymentRows g \<noteq> [] then 1 else 2)"

definition groupLess :: "group \<Rightarrow> group \<Rightarrow> bool" where
  "groupLess left right =
     (if groupRank left \<noteq> groupRank right then groupRank left < groupRank right
      else if g_SettlementID left \<noteq> g_SettlementID right
        then g_SettlementID left < g_SettlementID right
      else if g_Currency left \<noteq> g_Currency right then g_Currency left < g_Currency right
      else if g_Scope left \<noteq> g_Scope right then g_Scope left < g_Scope right
      else g_Key left < g_Key right)"

definition lineLess :: "raw_row \<Rightarrow> raw_row \<Rightarrow> bool" where
  "lineLess a b \<longleftrightarrow> row_LineStart a < row_LineStart b"

definition sort_rows :: "group \<Rightarrow> group" where
  "sort_rows g = g\<lparr>g_PaymentRows := sort_by lineLess (g_PaymentRows g),
                  g_SettlementRows := sort_by lineLess (g_SettlementRows g)\<rparr>"

definition collect_groups ::
  "'i mapped list \<Rightarrow> 'i mapped list \<Rightarrow> group_error + group_map" where
  "collect_groups payments settlements =
     (case foldE (add_row True) payments [] of
        Inl e \<Rightarrow> Inl e
      | Inr m \<Rightarrow> foldE (add_row False) settlements m)"

definition BuildGroups :: "'i mapped list \<Rightarrow> 'i mapped list \<Rightarrow> group_error + group list" where
  "BuildGroups payments settlements =
     (case collect_groups payments settlements of
        Inl e \<Rightarrow> Inl e
      | Inr m \<Rightarrow> Inr (sort_by groupLess (map (\<lambda>(k, g). sort_rows g) m)))"

end
