(* ===== verification/Group_Props.thy ===== *)
theory Group_Props
  imports Reconcile Engine_Props
begin

text \<open>
  What grouping guarantees: the groups partition the transaction rows by identity, their amounts
  and buckets are the exact sums over their rows, and the list returned does not depend on the
  iteration order of the map. Every quantity a group accumulates is a measure in the sense of the
  locale below, which makes the map of groups a ledger for it.
\<close>

section \<open>Identity\<close>

lemma identityKey_inject [simp]: "identityKey xs = identityKey ys \<longleftrightarrow> xs = ys"
  unfolding identityKey_def by (rule hash_code.concat_inject)

definition group_identity :: "group \<Rightarrow> string" where
  "group_identity g =
     identityKey [g_Key g, g_SettlementID g, g_Currency g, scope_string (g_Scope g)]"

definition member_of :: "group \<Rightarrow> 'i mapped \<Rightarrow> bool" where
  "member_of g r \<longleftrightarrow>
     row_Kind (m_Row r) = RowTransaction \<and> m_Key r = g_Key g \<and>
     row_SettlementID (m_Row r) = g_SettlementID g \<and> row_Currency (m_Row r) = g_Currency g \<and>
     row_Scope (m_Row r) = g_Scope g"

lemma scope_string_eq [simp]: "scope_string a = scope_string b \<longleftrightarrow> a = b"
  using scope_string_inject by blast

lemma member_of_identity:
  "member_of g r \<longleftrightarrow> row_Kind (m_Row r) = RowTransaction \<and> row_identity r = group_identity g"
  by (auto simp: member_of_def row_identity_def group_identity_def)

lemma group_identity_eq:
  "group_identity g = group_identity h \<longleftrightarrow>
     g_Key g = g_Key h \<and> g_SettlementID g = g_SettlementID h \<and> g_Currency g = g_Currency h \<and>
     g_Scope g = g_Scope h"
  by (auto simp: group_identity_def)

section \<open>Buckets of a group\<close>

interpretation bucket_ledger: bounded_ledger "add_bucket err" "\<lambda>b t. sint (gget 0 b t)" con_Target
  "\<lambda>c. sint (con_Amount c)" "- 9223372036854775808" "9223372036854775807" for err
proof unfold_locales
  fix p :: contribution and s s' k
  show "add_bucket err p s = Inr s' \<Longrightarrow>
      sint (gget 0 s' k) = sint (gget 0 s k) + (if con_Target p = k then sint (con_Amount p) else 0)"
    by (auto simp: add_bucket_def Add_Inr_iff split: sum.splits)
next
  fix s :: "(string, int64) gomap" and p :: contribution
  assume "- 9223372036854775808 \<le> sint (gget 0 s (con_Target p)) + sint (con_Amount p)"
    "sint (gget 0 s (con_Target p)) + sint (con_Amount p) \<le> 9223372036854775807"
  then have "\<exists>v. Add (gget 0 s (con_Target p)) (con_Amount p) = Inr v" by (rule Add_accepts)
  then show "\<exists>s'. add_bucket err p s = Inr s'" by (auto simp: add_bucket_def)
qed

section \<open>Measures\<close>

definition post_row :: "bool \<times> 'i mapped \<Rightarrow> group_map \<Rightarrow> group_error + group_map" where
  "post_row p = add_row (fst p) (snd p)"

definition group_value :: "(group \<Rightarrow> int) \<Rightarrow> group_map \<Rightarrow> string \<Rightarrow> int" where
  "group_value f m k = (case map_of m k of None \<Rightarrow> 0 | Some g \<Rightarrow> f g)"

definition transaction_amount :: "(bool \<times> 'i mapped \<Rightarrow> int) \<Rightarrow> bool \<times> 'i mapped \<Rightarrow> int" where
  "transaction_amount amt p = (if row_Kind (m_Row (snd p)) = RowMetadata then 0 else amt p)"

lemma collect_groups_posts:
  fixes ps ss :: "'i mapped list"
  shows "collect_groups ps ss = foldE post_row (map (Pair True) ps @ map (Pair False) ss) []"
proof -
  have eq: "foldE post_row (map (Pair b) rs) = foldE (add_row b) rs" for b and rs :: "'i mapped list"
  proof
    show "foldE post_row (map (Pair b) rs) m = foldE (add_row b) rs m" for m
      by (induction rs arbitrary: m) (simp_all add: post_row_def split: sum.splits)
  qed
  show ?thesis unfolding collect_groups_def foldE_append eq ..
qed

lemma post_row_Inr:
  assumes "post_row p m = Inr m'"
  obtains (skip) "row_Kind (m_Row (snd p)) = RowMetadata" "m' = m"
  | (add) g g' where "row_Kind (m_Row (snd p)) \<noteq> RowMetadata"
      "g = (case map_of m (row_identity (snd p)) of None \<Rightarrow> new_group (snd p) | Some g \<Rightarrow> g)"
      "(if fst p then add_payment (snd p) g else add_settlement (snd p) g) = Inr g'"
      "m' = gput (row_identity (snd p)) g' m"
  using assms by (auto simp: post_row_def add_row_def Let_def split: if_splits sum.splits)

locale group_measure =
  fixes f :: "group \<Rightarrow> int"
    and amt :: "bool \<times> 'i mapped \<Rightarrow> int"
  assumes new_zero: "f (new_group row) = 0"
    and add_exact: "(if payment then add_payment row g else add_settlement row g) = Inr g' \<Longrightarrow>
      f g' = f g + amt (payment, row)"

sublocale group_measure \<subseteq> ledger post_row "group_value f" "\<lambda>p. row_identity (snd p)"
  "transaction_amount amt"
proof unfold_locales
  fix p :: "bool \<times> 'i mapped" and s s' k
  assume "post_row p s = Inr s'"
  then show "group_value f s' k = group_value f s k +
      (if row_identity (snd p) = k then transaction_amount amt p else 0)"
  proof (cases rule: post_row_Inr)
    case skip
    then show ?thesis by (simp add: transaction_amount_def)
  next
    case (add g g')
    have "f g' = f g + amt p" using add_exact[OF add(3)] by simp
    moreover have "f g = group_value f s (row_identity (snd p))"
      unfolding add(2) by (simp add: group_value_def new_zero split: option.split)
    ultimately show ?thesis
      using add(1,4) by (simp add: group_value_def transaction_amount_def update_conv')
  qed
qed

definition pay_amount :: "bool \<times> 'i mapped \<Rightarrow> int" where
  "pay_amount p = (if fst p then sint (row_ReconAmount (m_Row (snd p))) else 0)"

definition settle_amount :: "bool \<times> 'i mapped \<Rightarrow> int" where
  "settle_amount p = (if fst p then 0 else sint (row_ReconAmount (m_Row (snd p))))"

definition routed_to :: "string \<Rightarrow> 'i mapped \<Rightarrow> int" where
  "routed_to t r = (\<Sum>c\<leftarrow>filter routed (m_Contributions r). if con_Target c = t then sint (con_Amount c) else 0)"

lemmas group_ops = new_group_def add_payment_def add_settlement_def

interpretation pay_measure: group_measure "\<lambda>g. sint (g_PaymentAmount g)" pay_amount
  by unfold_locales
    (auto simp: group_ops pay_amount_def Add_Inr_iff split: if_splits sum.splits)

interpretation settle_measure: group_measure "\<lambda>g. sint (g_SettlementAmt g)" settle_amount
  by unfold_locales
    (auto simp: group_ops settle_amount_def Add_Inr_iff split: if_splits sum.splits)

interpretation pay_bucket: group_measure "\<lambda>g. sint (gget 0 (g_PaymentBuckets g) t)"
  "\<lambda>p. if fst p then routed_to t (snd p) else 0" for t
  by unfold_locales
    (auto simp: group_ops routed_to_def dest!: bucket_ledger.run_exact[where k = t]
      split: if_splits sum.splits)

interpretation settle_bucket: group_measure "\<lambda>g. sint (gget 0 (g_SettleBuckets g) t)"
  "\<lambda>p. if fst p then 0 else routed_to t (snd p)" for t
  by unfold_locales
    (auto simp: group_ops routed_to_def dest!: bucket_ledger.run_exact[where k = t]
      split: if_splits sum.splits)

interpretation pay_count: group_measure "\<lambda>g. int (count (mset (g_PaymentRows g)) x)"
  "\<lambda>p. if fst p \<and> m_Row (snd p) = x then 1 else 0" for x
  by unfold_locales (auto simp: group_ops split: if_splits sum.splits)

interpretation settle_count: group_measure "\<lambda>g. int (count (mset (g_SettlementRows g)) x)"
  "\<lambda>p. if \<not> fst p \<and> m_Row (snd p) = x then 1 else 0" for x
  by unfold_locales (auto simp: group_ops split: if_splits sum.splits)

section \<open>The map of groups\<close>

definition keyed_map :: "group_map \<Rightarrow> bool" where
  "keyed_map m \<longleftrightarrow> distinct (gkeys m) \<and> (\<forall>k g. map_of m k = Some g \<longrightarrow> k = group_identity g)"

lemma add_identity:
  "(if b then add_payment row g else add_settlement row g) = Inr g' \<Longrightarrow>
     group_identity g' = group_identity g"
  by (auto simp: group_ops group_identity_def split: if_splits sum.splits)

lemma post_row_keyed:
  assumes "post_row p m = Inr m'" and "keyed_map m"
  shows "keyed_map m'"
  using assms(1)
proof (cases rule: post_row_Inr)
  case skip
  then show ?thesis using assms(2) by simp
next
  case (add g g')
  have "group_identity g = row_identity (snd p)"
  proof (cases "map_of m (row_identity (snd p))")
    case None
    then show ?thesis
      using add(2) by (simp add: group_identity_def row_identity_def new_group_def)
  next
    case (Some h)
    with assms(2) have "row_identity (snd p) = group_identity h" unfolding keyed_map_def by blast
    with Some add(2) show ?thesis by simp
  qed
  with add_identity[OF add(3)] add(4) assms(2) show ?thesis
    by (auto simp: keyed_map_def update_conv')
qed

lemma post_rows_keys:
  "foldE post_row ps m = Inr m' \<Longrightarrow>
   set (gkeys m') = set (gkeys m) \<union>
     (\<lambda>p. row_identity (snd p)) ` {p \<in> set ps. row_Kind (m_Row (snd p)) = RowTransaction}"
proof (induction ps arbitrary: m)
  case Nil
  then show ?case by simp
next
  case (Cons p ps)
  then obtain u where u: "post_row p m = Inr u" "foldE post_row ps u = Inr m'"
    by (auto simp: result_simps)
  have kind: "row_Kind (m_Row (snd p)) \<noteq> RowMetadata \<longleftrightarrow> row_Kind (m_Row (snd p)) = RowTransaction"
    by (cases "row_Kind (m_Row (snd p))") simp_all
  from u(1) have "set (gkeys u) = set (gkeys m) \<union>
      (if row_Kind (m_Row (snd p)) = RowTransaction then {row_identity (snd p)} else {})"
    by (cases rule: post_row_Inr) (simp_all add: kind del: set_map)
  with Cons.IH[OF u(2)] show ?case by (auto simp del: set_map)
qed

lemma collect_groups_keys:
  assumes "collect_groups ps ss = Inr m"
  shows "keyed_map m \<and> set (gkeys m) =
    row_identity ` {r \<in> set (ps @ ss). row_Kind (m_Row r) = RowTransaction}"
proof -
  have run: "foldE post_row (map (Pair True) ps @ map (Pair False) ss) [] = Inr m"
    using assms by (simp only: collect_groups_posts)
  have "keyed_map m"
    by (rule foldE_invariant[OF run]) (simp add: keyed_map_def, rule post_row_keyed)
  moreover have "(\<lambda>p. row_identity (snd p)) ` {p \<in> set (map (Pair True) ps @ map (Pair False) ss).
      row_Kind (m_Row (snd p)) = RowTransaction} =
    row_identity ` {r \<in> set (ps @ ss). row_Kind (m_Row r) = RowTransaction}"
    by (auto simp: image_iff; blast)
  ultimately show ?thesis using post_rows_keys[OF run] by simp
qed

lemma sum_if_transaction:
  fixes amt :: "bool \<times> 'i mapped \<Rightarrow> int"
  assumes "\<And>r :: 'i mapped. member_of g r \<longleftrightarrow> row_Kind (m_Row r) = RowTransaction \<and> row_identity r = k"
  shows "(\<Sum>r\<leftarrow>rs. if row_identity r = k then transaction_amount amt (b, r) else 0) =
    (\<Sum>r\<leftarrow>filter (member_of g) rs. amt (b, r))"
proof -
  have "(if row_identity r = k then transaction_amount amt (b, r) else 0) =
      (if member_of g r then amt (b, r) else 0)" for r
    using assms[of r] by (cases "row_Kind (m_Row r)") (auto simp: transaction_amount_def)
  then show ?thesis by (induction rs) simp_all
qed

context group_measure
begin

lemma measure_members:
  assumes "collect_groups ps ss = Inr m" and "map_of m k = Some g"
  shows "f g = (\<Sum>r\<leftarrow>filter (member_of g) ps. amt (True, r)) +
    (\<Sum>r\<leftarrow>filter (member_of g) ss. amt (False, r))"
proof -
  have run: "foldE post_row (map (Pair True) ps @ map (Pair False) ss) [] = Inr m"
    using assms(1) by (simp only: collect_groups_posts)
  have k: "k = group_identity g"
    using collect_groups_keys[OF assms(1)] assms(2) by (auto simp: keyed_map_def)
  have "f g = group_value f m k" using assms(2) by (simp add: group_value_def)
  also have "\<dots> = (\<Sum>p\<leftarrow>map (Pair True) ps @ map (Pair False) ss.
      if row_identity (snd p) = k then transaction_amount amt p else 0)"
    using run_exact[OF run, of k] by (simp add: group_value_def)
  also have "\<dots> = (\<Sum>r\<leftarrow>filter (member_of g) ps. amt (True, r)) +
      (\<Sum>r\<leftarrow>filter (member_of g) ss. amt (False, r))"
    using sum_if_transaction[of g k amt] by (simp add: o_def member_of_identity k)
  finally show ?thesis .
qed

end

section \<open>Order\<close>

definition group_key :: "group \<Rightarrow> int \<times> string \<times> string \<times> scope_reason \<times> string" where
  "group_key g = (groupRank g, g_SettlementID g, g_Currency g, g_Scope g, g_Key g)"

interpretation group_order: keyed_order groupLess group_key
  by unfold_locales (auto simp: groupLess_def group_key_def)

interpretation line_order: keyed_order lineLess row_LineStart
  by unfold_locales (simp add: lineLess_def)

lemma sort_rows_simps [simp]:
  "group_identity (sort_rows g) = group_identity g" "groupRank (sort_rows g) = groupRank g"
  "mset (g_PaymentRows (sort_rows g)) = mset (g_PaymentRows g)"
  "mset (g_SettlementRows (sort_rows g)) = mset (g_SettlementRows g)"
  "g_PaymentAmount (sort_rows g) = g_PaymentAmount g"
  "g_SettlementAmt (sort_rows g) = g_SettlementAmt g"
  "g_PaymentBuckets (sort_rows g) = g_PaymentBuckets g"
  "g_SettleBuckets (sort_rows g) = g_SettleBuckets g"
  "g_Scope (sort_rows g) = g_Scope g"
  by (simp_all add: sort_rows_def group_identity_def groupRank_def)

lemma member_of_sort_rows [simp]: "member_of (sort_rows g) = member_of g"
  by (simp add: member_of_def sort_rows_def fun_eq_iff)

lemma BuildGroups_Inr:
  assumes "BuildGroups ps ss = Inr gs"
  obtains m where "collect_groups ps ss = Inr m"
    "gs = sort_by groupLess (map (\<lambda>(k, g). sort_rows g) m)"
  using assms by (auto simp: BuildGroups_def split: sum.splits)

lemma BuildGroups_mem:
  assumes "BuildGroups ps ss = Inr gs" and "g \<in> set gs"
  obtains m k h where "collect_groups ps ss = Inr m" "map_of m k = Some h" "g = sort_rows h"
proof -
  obtain m where m: "collect_groups ps ss = Inr m"
    "gs = sort_by groupLess (map (\<lambda>(k, g). sort_rows g) m)"
    by (rule BuildGroups_Inr[OF assms(1)])
  have "distinct (gkeys m)" using collect_groups_keys[OF m(1)] by (simp add: keyed_map_def)
  with m assms(2) that show ?thesis by (auto simp del: map_of_eq_Some_iff intro: map_of_is_SomeI)
qed

lemma int_count_filter:
  "(\<Sum>r\<leftarrow>filter P rs. if f r = x then 1 else 0) = int (count (mset (map f (filter P rs))) x)"
  by (induction rs) auto

lemma BuildGroups_rows:
  assumes "BuildGroups ps ss = Inr gs" and "g \<in> set gs"
  shows "mset (g_PaymentRows g) = mset (map m_Row (filter (member_of g) ps))"
    and "mset (g_SettlementRows g) = mset (map m_Row (filter (member_of g) ss))"
proof -
  from assms obtain m k h where m: "collect_groups ps ss = Inr m" "map_of m k = Some h"
    "g = sort_rows h" by (rule BuildGroups_mem)
  have "int (count (mset (g_PaymentRows h)) x) =
      int (count (mset (map m_Row (filter (member_of h) ps))) x)" for x
    unfolding pay_count.measure_members[OF m(1,2)] by (simp add: int_count_filter)
  then show "mset (g_PaymentRows g) = mset (map m_Row (filter (member_of g) ps))"
    unfolding m(3) by (intro multiset_eqI) (simp add: member_of_sort_rows)
  have "int (count (mset (g_SettlementRows h)) x) =
      int (count (mset (map m_Row (filter (member_of h) ss))) x)" for x
    unfolding settle_count.measure_members[OF m(1,2)] by (simp add: int_count_filter)
  then show "mset (g_SettlementRows g) = mset (map m_Row (filter (member_of g) ss))"
    unfolding m(3) by (intro multiset_eqI) (simp add: member_of_sort_rows)
qed

lemma BuildGroups_sums:
  assumes "BuildGroups ps ss = Inr gs" and "g \<in> set gs"
  shows "sint (g_PaymentAmount g) = (\<Sum>r\<leftarrow>filter (member_of g) ps. sint (row_ReconAmount (m_Row r)))"
    and "sint (g_SettlementAmt g) = (\<Sum>r\<leftarrow>filter (member_of g) ss. sint (row_ReconAmount (m_Row r)))"
    and "sint (gget 0 (g_PaymentBuckets g) t) = (\<Sum>r\<leftarrow>filter (member_of g) ps. routed_to t r)"
    and "sint (gget 0 (g_SettleBuckets g) t) = (\<Sum>r\<leftarrow>filter (member_of g) ss. routed_to t r)"
proof -
  from assms obtain m k h where m: "collect_groups ps ss = Inr m" "map_of m k = Some h"
    "g = sort_rows h" by (rule BuildGroups_mem)
  show "sint (g_PaymentAmount g) = (\<Sum>r\<leftarrow>filter (member_of g) ps. sint (row_ReconAmount (m_Row r)))"
    using pay_measure.measure_members[OF m(1,2)] by (simp add: m(3) pay_amount_def)
  show "sint (g_SettlementAmt g) = (\<Sum>r\<leftarrow>filter (member_of g) ss. sint (row_ReconAmount (m_Row r)))"
    using settle_measure.measure_members[OF m(1,2)] by (simp add: m(3) settle_amount_def)
  show "sint (gget 0 (g_PaymentBuckets g) t) = (\<Sum>r\<leftarrow>filter (member_of g) ps. routed_to t r)"
    using pay_bucket.measure_members[OF m(1,2)] by (simp add: m(3))
  show "sint (gget 0 (g_SettleBuckets g) t) = (\<Sum>r\<leftarrow>filter (member_of g) ss. routed_to t r)"
    using settle_bucket.measure_members[OF m(1,2)] by (simp add: m(3))
qed

lemma collect_groups_identities:
  assumes "collect_groups ps ss = Inr m"
  shows "map (\<lambda>(k, g). group_identity g) m = gkeys m"
proof -
  have "group_identity g = k" if "(k, g) \<in> set m" for k g
    using collect_groups_keys[OF assms] that by (auto simp: keyed_map_def)
  then show ?thesis by auto
qed

lemma BuildGroups_identities:
  assumes "BuildGroups ps ss = Inr gs"
  shows "distinct (map group_identity gs)"
    and "set (map group_identity gs) =
      row_identity ` {r \<in> set (ps @ ss). row_Kind (m_Row r) = RowTransaction}"
proof -
  obtain m where m: "collect_groups ps ss = Inr m"
    "gs = sort_by groupLess (map (\<lambda>(k, g). sort_rows g) m)"
    by (rule BuildGroups_Inr[OF assms])
  have "map group_identity (map (\<lambda>(k, g). sort_rows g) m) = gkeys m"
    using collect_groups_identities[OF m(1)] by (auto simp: case_prod_beta)
  then have "mset (map group_identity (map (\<lambda>(k, g). sort_rows g) m)) = mset (gkeys m)"
    by (rule arg_cong)
  moreover have "mset (map group_identity gs) = mset (map group_identity (map (\<lambda>(k, g). sort_rows g) m))"
    unfolding m(2) by (simp only: mset_map mset_sort_by)
  ultimately have "mset (map group_identity gs) = mset (gkeys m)" by (simp only:)
  with collect_groups_keys[OF m(1)] show "distinct (map group_identity gs)"
    and "set (map group_identity gs) =
      row_identity ` {r \<in> set (ps @ ss). row_Kind (m_Row r) = RowTransaction}"
    by (metis keyed_map_def mset_eq_imp_distinct_iff, metis mset_eq_setD)
qed

section \<open>Properties\<close>

text \<open>A mapped row for the concrete instances below.\<close>

definition ex_mapped :: "source \<Rightarrow> string \<Rightarrow> int \<Rightarrow> int64 \<Rightarrow> mapped_row" where
  "ex_mapped src key line amt =
     \<lparr>m_Row = (ex_row ''Order'')\<lparr>row_Source := src, row_LineStart := line, row_ReconAmount := amt\<rparr>,
      m_Contributions = [\<lparr>con_RowOrdinal = line, con_Rule = ex_rule [] ''total'' ''sales_other'',
        con_Field = ''total'', con_Amount = amt, con_Target = ''sales_other'',
        con_Decision = Routed, con_KeyParts = [key], con_Key = key\<rparr>],
      m_KeyParts = [key], m_Key = key, m_Issues = []\<rparr>"

definition ex_groups :: "group list" where
  "ex_groups = (case BuildGroups
       [ex_mapped SourcePayment ''b'' 14 5, ex_mapped SourcePayment ''a'' 13 (- 7),
        ex_mapped SourcePayment ''b'' 12 1]
       [ex_mapped SourceSettlement ''b'' 2 6] of Inr gs \<Rightarrow> gs | Inl _ \<Rightarrow> [])"

lemma ex_BuildGroups:
  "BuildGroups
     [ex_mapped SourcePayment ''b'' 14 5, ex_mapped SourcePayment ''a'' 13 (- 7),
      ex_mapped SourcePayment ''b'' 12 1]
     [ex_mapped SourceSettlement ''b'' 2 6] = Inr ex_groups"
proof -
  have "case BuildGroups
     [ex_mapped SourcePayment ''b'' 14 5, ex_mapped SourcePayment ''a'' 13 (- 7),
      ex_mapped SourcePayment ''b'' 12 1]
     [ex_mapped SourceSettlement ''b'' 2 6] of Inr gs \<Rightarrow> True | Inl _ \<Rightarrow> False"
    by code_simp
  then show ?thesis by (auto simp: ex_groups_def split: sum.splits)
qed

lemma ex_groups_values:
  "map (\<lambda>g. (g_Key g, sint (g_PaymentAmount g), sint (g_SettlementAmt g),
       map row_LineStart (g_PaymentRows g))) ex_groups = [(''b'', 6, 6, [12, 14]), (''a'', -7, 0, [13])]"
  by code_simp

text \<open>
  C20. Classification is total and touches nothing but the scope: every row gets a proper scope; a
  row is in scope exactly when it is a transaction of the selected settlement and, for a payment
  row, its status is \<open>Released\<close> up to case; and classifying again, or after any change of the
  scopes, gives the same rows.
\<close>

theorem Classify_scopes:
  "Classify (Classify rows sel) sel = Classify rows sel \<and>
   Classify (map (\<lambda>r. r\<lparr>row_Scope := sc\<rparr>) rows) sel = Classify rows sel \<and>
   map (\<lambda>r. r\<lparr>row_Scope := sc\<rparr>) (Classify rows sel) = map (\<lambda>r. r\<lparr>row_Scope := sc\<rparr>) rows \<and>
   list_all (\<lambda>r. row_Scope r \<noteq> ScopeNone \<and>
     (row_Scope r = ScopeIn \<longleftrightarrow>
        row_Kind r = RowTransaction \<and> row_SettlementID r = sel \<and>
        (if row_Source r = SourcePayment then EqualFold (row_Status r) ''Released'' else True)))
     (Classify rows sel)"
proof -
  have one: "classify_row sel (classify_row sel r) = classify_row sel r"
    "classify_row sel (r\<lparr>row_Scope := sc\<rparr>) = classify_row sel r"
    "(classify_row sel r)\<lparr>row_Scope := sc\<rparr> = r\<lparr>row_Scope := sc\<rparr>" for r
    by (simp_all add: classify_row_def)
  have "row_Scope (classify_row sel r) \<noteq> ScopeNone \<and>
      (row_Scope (classify_row sel r) = ScopeIn \<longleftrightarrow>
        row_Kind (classify_row sel r) = RowTransaction \<and>
        row_SettlementID (classify_row sel r) = sel \<and>
        (if row_Source (classify_row sel r) = SourcePayment
         then EqualFold (row_Status (classify_row sel r)) ''Released'' else True))" for r
    using EqualFold_released_deferred[of "row_Status r"]
    by (cases "row_Kind r") (auto simp: classify_row_def)
  then show ?thesis by (auto simp: Classify_def one list_all_iff)
qed

text \<open>
  C19. The identity string of a group is injective: two rows fall into the same group exactly when
  they agree in key, settlement, currency and scope, whatever bytes these contain.
\<close>

theorem row_identity_injective:
  "row_identity r = row_identity r' \<longleftrightarrow>
     m_Key r = m_Key r' \<and> row_SettlementID (m_Row r) = row_SettlementID (m_Row r') \<and>
     row_Currency (m_Row r) = row_Currency (m_Row r') \<and> row_Scope (m_Row r) = row_Scope (m_Row r')"
  by (auto simp: row_identity_def)

text \<open>
  C1. Grouping partitions the transaction rows: no two groups have the same identity, the
  identities are those of the transaction rows, each group holds exactly the payment rows and the
  settlement rows of its identity, with multiplicity, and no group is empty.
\<close>

theorem BuildGroups_partition:
  assumes "BuildGroups ps ss = Inr gs"
  shows "distinct (map group_identity gs) \<and>
    set (map group_identity gs) =
      row_identity ` set (filter (\<lambda>r. row_Kind (m_Row r) = RowTransaction) (ps @ ss)) \<and>
    list_all (\<lambda>g. mset (g_PaymentRows g) = mset (map m_Row (filter (member_of g) ps)) \<and>
      mset (g_SettlementRows g) = mset (map m_Row (filter (member_of g) ss)) \<and>
      \<not> (g_PaymentRows g = [] \<and> g_SettlementRows g = [])) gs"
proof -
  have "\<not> (g_PaymentRows g = [] \<and> g_SettlementRows g = [])" if g: "g \<in> set gs" for g
  proof -
    have "group_identity g \<in> set (map group_identity gs)" using g by simp
    then obtain r where r: "r \<in> {r \<in> set (ps @ ss). row_Kind (m_Row r) = RowTransaction}"
      and id: "group_identity g = row_identity r"
      unfolding BuildGroups_identities(2)[OF assms] by (rule imageE)
    have "r \<in> set (ps @ ss)" "member_of g r"
      using r id by (simp_all add: member_of_identity)
    then have "filter (member_of g) ps \<noteq> [] \<or> filter (member_of g) ss \<noteq> []"
      unfolding filter_empty_conv set_append by blast
    moreover have "length (g_PaymentRows g) = length (filter (member_of g) ps)"
      "length (g_SettlementRows g) = length (filter (member_of g) ss)"
      using BuildGroups_rows[OF assms g, THEN mset_eq_length] by (simp_all only: length_map)
    ultimately show ?thesis by (metis length_0_conv)
  qed
  moreover have "set (map group_identity gs) =
      row_identity ` set (filter (\<lambda>r. row_Kind (m_Row r) = RowTransaction) (ps @ ss))"
    unfolding BuildGroups_identities(2)[OF assms] set_filter ..
  ultimately show ?thesis
    unfolding list_all_iff using BuildGroups_identities(1)[OF assms] BuildGroups_rows[OF assms]
    by blast
qed

lemma BuildGroups_partition_witness:
  "distinct (map group_identity ex_groups) \<and> length ex_groups = 2"
  using BuildGroups_partition[OF ex_BuildGroups] arg_cong[OF ex_groups_values, of length] by simp

text \<open>
  C6. The amounts of a group are exact: payment amount, settlement amount and every bucket of both
  sources equal the unbounded sums over the rows of the group's identity; an accepted grouping
  never wraps around.
\<close>

theorem BuildGroups_amounts:
  assumes "BuildGroups ps ss = Inr gs"
  shows "list_all (\<lambda>g.
      sint (g_PaymentAmount g) = (\<Sum>r\<leftarrow>filter (member_of g) ps. sint (row_ReconAmount (m_Row r))) \<and>
      sint (g_SettlementAmt g) = (\<Sum>r\<leftarrow>filter (member_of g) ss. sint (row_ReconAmount (m_Row r))) \<and>
      sint (gget 0 (g_PaymentBuckets g) t) = (\<Sum>r\<leftarrow>filter (member_of g) ps. routed_to t r) \<and>
      sint (gget 0 (g_SettleBuckets g) t) = (\<Sum>r\<leftarrow>filter (member_of g) ss. routed_to t r)) gs"
  using BuildGroups_sums[OF assms] by (simp add: list_all_iff)

lemma BuildGroups_amounts_witness:
  "list_all (\<lambda>g. sint (g_PaymentAmount g) = (\<Sum>r\<leftarrow>filter (member_of g)
      [ex_mapped SourcePayment ''b'' 14 5, ex_mapped SourcePayment ''a'' 13 (- 7),
       ex_mapped SourcePayment ''b'' 12 1]. sint (row_ReconAmount (m_Row r)))) ex_groups"
  using BuildGroups_amounts[OF ex_BuildGroups] by (simp add: list_all_iff)

lemma sum_over_members:
  fixes w :: "'i mapped \<Rightarrow> int"
  assumes "distinct (map group_identity gs)"
    and "\<And>r. r \<in> set rs \<Longrightarrow> row_Kind (m_Row r) = RowTransaction \<Longrightarrow>
      row_identity r \<in> set (map group_identity gs) \<longleftrightarrow> Q r"
  shows "(\<Sum>g\<leftarrow>gs. \<Sum>r\<leftarrow>filter (member_of g) rs. w r) =
    (\<Sum>r\<leftarrow>filter (\<lambda>r. row_Kind (m_Row r) = RowTransaction \<and> Q r) rs. w r)"
  using assms(2)
proof (induction rs)
  case Nil
  then show ?case by simp
next
  case (Cons r rs)
  have "(\<Sum>g\<leftarrow>gs. if member_of g r then w r else 0) =
      (if row_Kind (m_Row r) = RowTransaction \<and> row_identity r \<in> set (map group_identity gs) then w r else 0)"
    using assms(1) by (induction gs) (auto simp: member_of_identity)
  also have "\<dots> = (if row_Kind (m_Row r) = RowTransaction \<and> Q r then w r else 0)"
    using Cons.prems[of r] by auto
  finally have r: "(\<Sum>g\<leftarrow>gs. if member_of g r then w r else 0) =
      (if row_Kind (m_Row r) = RowTransaction \<and> Q r then w r else 0)" .
  have "(\<Sum>g\<leftarrow>gs. \<Sum>x\<leftarrow>filter (member_of g) (r # rs). w x) =
      (\<Sum>g\<leftarrow>gs. (if member_of g r then w r else 0) + (\<Sum>x\<leftarrow>filter (member_of g) rs. w x))"
    by (intro arg_cong[where f = sum_list] map_cong) auto
  with r Cons show ?case by (simp add: sum_list_addf)
qed

lemma BuildGroups_scope_sum:
  fixes w :: "'i mapped \<Rightarrow> int"
  assumes "BuildGroups ps ss = Inr gs" and "set rs \<subseteq> set (ps @ ss)"
  shows "(\<Sum>g\<leftarrow>filter (\<lambda>g. g_Scope g = sc) gs. \<Sum>r\<leftarrow>filter (member_of g) rs. w r) =
    (\<Sum>r\<leftarrow>filter (\<lambda>r. row_Kind (m_Row r) = RowTransaction \<and> row_Scope (m_Row r) = sc) rs. w r)"
proof (rule sum_over_members[where Q = "\<lambda>r. row_Scope (m_Row r) = sc"])
  show "distinct (map group_identity (filter (\<lambda>g. g_Scope g = sc) gs))"
    using BuildGroups_identities(1)[OF assms(1)] by (rule distinct_map_filter)
  fix r assume r: "r \<in> set rs" "row_Kind (m_Row r) = RowTransaction"
  have "row_identity r \<in> set (map group_identity gs)"
    unfolding BuildGroups_identities(2)[OF assms(1)] using r assms(2) by blast
  then obtain g where g: "g \<in> set gs" "group_identity g = row_identity r" by auto
  have "row_Scope (m_Row r) = g_Scope h" if "group_identity h = row_identity r" for h
    using that by (simp add: group_identity_def row_identity_def)
  with g show "row_identity r \<in> set (map group_identity (filter (\<lambda>g. g_Scope g = sc) gs)) \<longleftrightarrow>
      row_Scope (m_Row r) = sc"
    by (auto simp: image_iff) metis
qed

text \<open>
  C12. Grouping conserves money: over the groups of any one scope, the payment amounts add up to
  the amounts of the payment transaction rows in that scope, and likewise for the settlement
  amounts.
\<close>

theorem BuildGroups_conserves:
  assumes "BuildGroups ps ss = Inr gs"
  shows "(\<Sum>g\<leftarrow>filter (\<lambda>g. g_Scope g = sc) gs. sint (g_PaymentAmount g)) =
      (\<Sum>r\<leftarrow>filter (\<lambda>r. row_Kind (m_Row r) = RowTransaction \<and> row_Scope (m_Row r) = sc) ps.
         sint (row_ReconAmount (m_Row r))) \<and>
    (\<Sum>g\<leftarrow>filter (\<lambda>g. g_Scope g = sc) gs. sint (g_SettlementAmt g)) =
      (\<Sum>r\<leftarrow>filter (\<lambda>r. row_Kind (m_Row r) = RowTransaction \<and> row_Scope (m_Row r) = sc) ss.
         sint (row_ReconAmount (m_Row r)))"
proof -
  have "(\<Sum>g\<leftarrow>filter (\<lambda>g. g_Scope g = sc) gs. sint (g_PaymentAmount g)) =
      (\<Sum>g\<leftarrow>filter (\<lambda>g. g_Scope g = sc) gs. \<Sum>r\<leftarrow>filter (member_of g) ps. sint (row_ReconAmount (m_Row r)))"
    "(\<Sum>g\<leftarrow>filter (\<lambda>g. g_Scope g = sc) gs. sint (g_SettlementAmt g)) =
      (\<Sum>g\<leftarrow>filter (\<lambda>g. g_Scope g = sc) gs. \<Sum>r\<leftarrow>filter (member_of g) ss. sint (row_ReconAmount (m_Row r)))"
    using BuildGroups_sums[OF assms]
    by (intro arg_cong[where f = sum_list] map_cong refl; simp)+
  then show ?thesis
    using BuildGroups_scope_sum[OF assms, where sc = sc and rs = ps]
      BuildGroups_scope_sum[OF assms, where sc = sc and rs = ss] by simp
qed

lemma BuildGroups_conserves_witness:
  "(\<Sum>g\<leftarrow>filter (\<lambda>g. g_Scope g = ScopeIn) ex_groups. sint (g_PaymentAmount g)) = -1"
proof -
  have "(\<Sum>r\<leftarrow>filter (\<lambda>r. row_Kind (m_Row r) = RowTransaction \<and> row_Scope (m_Row r) = ScopeIn)
      [ex_mapped SourcePayment ''b'' 14 5, ex_mapped SourcePayment ''a'' 13 (- 7),
       ex_mapped SourcePayment ''b'' 12 1]. sint (row_ReconAmount (m_Row r))) = -1"
    by code_simp
  with BuildGroups_conserves[OF ex_BuildGroups, of ScopeIn] show ?thesis by simp
qed

text \<open>
  C13. The report order is determined: groups are ordered by rank (both sources, payment only,
  settlement only), settlement, currency, scope and key; the rows of a group by their first line;
  and any permutation of the groups, such as another iteration order of the map, is sorted into
  the same list.
\<close>

theorem BuildGroups_order:
  assumes "BuildGroups ps ss = Inr gs" and "mset hs = mset gs"
  shows "sorted (map group_key gs) \<and> sort_by groupLess hs = gs \<and>
    list_all (\<lambda>g. sorted (map row_LineStart (g_PaymentRows g)) \<and>
      sorted (map row_LineStart (g_SettlementRows g))) gs"
proof -
  obtain m where "collect_groups ps ss = Inr m"
    and m: "gs = sort_by groupLess (map (\<lambda>(k, g). sort_rows g) m)"
    by (rule BuildGroups_Inr[OF assms(1)])
  have "inj_on group_identity (set hs)"
    using BuildGroups_identities(1)[OF assms(1)] mset_eq_setD[OF assms(2)] by (simp add: distinct_map)
  then have inj: "inj_on group_key (set hs)"
    by (auto simp: inj_on_def group_key_def group_identity_eq)
  have sorted: "sorted (map group_key gs)" unfolding m by (rule group_order.sorted_sort_by)
  have "sort_by groupLess hs = sort_by groupLess gs"
    by (rule group_order.sort_by_unique) (use assms(2) inj in auto)
  also have "\<dots> = gs"
    unfolding group_order.sort_by_sort_key using sorted by (rule sort_key_id_if_sorted)
  finally have "sort_by groupLess hs = gs" .
  moreover have "list_all (\<lambda>g. sorted (map row_LineStart (g_PaymentRows g)) \<and>
      sorted (map row_LineStart (g_SettlementRows g))) gs"
    unfolding m by (auto simp: list_all_iff sort_rows_def line_order.sorted_sort_by)
  ultimately show ?thesis using sorted by blast
qed

lemma BuildGroups_order_witness:
  "sort_by groupLess (rev ex_groups) = ex_groups"
  using BuildGroups_order[OF ex_BuildGroups, of "rev ex_groups"] by simp

end
