(* ===== verification/Patch.thy ===== *)
theory Patch
  imports Mapping_Config
begin

text \<open>
  \<open>internal/mapping/patch.go\<close>: reviewed corrections of a mapping configuration. Reading is over
  the stream of records as for the configuration itself. The absolute path of a file and the
  writing of the temporary file are parameters: \<open>writer path rows\<close> is the first failure of the
  steps from \<open>MkdirAll\<close> to \<open>Close\<close> and \<open>Rename\<close>, if one fails. The destination is replaced only by
  the final rename, so the result of a patch is the destination with the rows it now holds.
\<close>

record patch_operation =
  op_Source :: string
  op_Line :: int
  op_Action :: string
  op_OldPositive :: string
  op_OldNegative :: string
  op_NewPositive :: string
  op_NewNegative :: string

datatype patch_error =
    PatchOpen io_error
  | PatchRead csv_error
  | PatchBlankHeader int
  | PatchDuplicateHeader string
  | PatchMissingHeader string
  | PatchWidth int
  | PatchLineNumber string num_error
  | PatchBadSource int string
  | PatchBadLine int int
  | PatchBadAction int string
  | PatchDuplicateOperation string
  | PatchInvalidSource string
  | PatchAbs io_error
  | PatchSameFile
  | PatchDuplicateLine string int
  | PatchNoOperations string
  | PatchGuardFailed int string string
  | PatchUnsupportedAction string
  | PatchMissingLine int
  | PatchWrite io_error

section \<open>Loading a patch\<close>

fun patch_headers :: "bool \<Rightarrow> nat \<Rightarrow> string list \<Rightarrow> header_index \<Rightarrow> patch_error + header_index" where
  "patch_headers blanks i [] idx = Inr idx"
| "patch_headers blanks i (h0 # hs) idx =
     (let h = TrimSpace h0
      in if \<not> blanks \<and> h = [] then Inl (PatchBlankHeader (int i + 1))
         else if idx h \<noteq> None then Inl (PatchDuplicateHeader h)
         else patch_headers blanks (Suc i) hs (idx(h \<mapsto> i)))"

definition patch_required :: "string list" where
  "patch_required =
     [''source'', ''origin_line'', ''action'', ''old_positive'', ''old_negative'',
      ''new_positive'', ''new_negative'']"

definition index_of :: "header_index \<Rightarrow> string \<Rightarrow> nat" where
  "index_of idx k = (case idx k of None \<Rightarrow> 0 | Some i \<Rightarrow> i)"

definition patch_cell :: "header_index \<Rightarrow> string list \<Rightarrow> string \<Rightarrow> string" where
  "patch_cell idx row k = TrimSpace (row ! index_of idx k)"

definition patch_op :: "header_index \<Rightarrow> nat \<Rightarrow> csv_record \<Rightarrow> patch_error + patch_operation" where
  "patch_op idx width rec =
     (let row = csv_fields rec; physicalLine = csv_line rec; get = patch_cell idx row
      in if length row \<noteq> width then Inl (PatchWidth physicalLine)
         else case Atoi (get ''origin_line'') of
           Inl e \<Rightarrow> Inl (PatchLineNumber (get ''origin_line'') e)
         | Inr line \<Rightarrow>
             let op = \<lparr>op_Source = get ''source'', op_Line = line, op_Action = get ''action'',
                       op_OldPositive = get ''old_positive'', op_OldNegative = get ''old_negative'',
                       op_NewPositive = get ''new_positive'', op_NewNegative = get ''new_negative''\<rparr>
             in if op_Source op \<noteq> ''payment'' \<and> op_Source op \<noteq> ''settlement''
                then Inl (PatchBadSource physicalLine (op_Source op))
                else if op_Line op < 2 then Inl (PatchBadLine physicalLine (op_Line op))
                else if op_Action op \<noteq> ''update'' \<and> op_Action op \<noteq> ''delete''
                then Inl (PatchBadAction physicalLine (op_Action op))
                else Inr op)"

definition patch_key :: "patch_operation \<Rightarrow> string" where
  "patch_key op = op_Source op @ '':'' @ dec_int (op_Line op)"

fun patch_ops ::
  "header_index \<Rightarrow> nat \<Rightarrow> string list \<Rightarrow> csv_stream \<Rightarrow> patch_error + patch_operation list" where
  "patch_ops idx width seen [] = Inr []"
| "patch_ops idx width seen (Inl e # rest) = Inl (PatchRead e)"
| "patch_ops idx width seen (Inr rec # rest) =
     (case patch_op idx width rec of Inl e \<Rightarrow> Inl e
      | Inr op \<Rightarrow>
          if patch_key op \<in> set seen then Inl (PatchDuplicateOperation (patch_key op))
          else (case patch_ops idx width (patch_key op # seen) rest of Inl e \<Rightarrow> Inl e
                | Inr ops \<Rightarrow> Inr (op # ops)))"

definition patch_head :: "csv_stream \<Rightarrow> patch_error + string list \<times> csv_stream" where
  "patch_head st =
     (case st of [] \<Rightarrow> Inl (PatchRead ErrEOF)
      | Inl e # _ \<Rightarrow> Inl (PatchRead e)
      | Inr rec # rest \<Rightarrow> Inr (csv_fields rec, rest))"

definition LoadPatch :: "file_system \<Rightarrow> string \<Rightarrow> patch_error + patch_operation list" where
  "LoadPatch fs path =
     (case fs path of Inl e \<Rightarrow> Inl (PatchOpen e)
      | Inr st \<Rightarrow> (case patch_head st of Inl e \<Rightarrow> Inl e
      | Inr (head, rest) \<Rightarrow> (case patch_headers False 0 head Map.empty of Inl e \<Rightarrow> Inl e
      | Inr idx \<Rightarrow>
          (case first_missing idx patch_required of
             Some h \<Rightarrow> Inl (PatchMissingHeader h)
           | None \<Rightarrow> patch_ops idx (length head) [] rest))))"

section \<open>Applying a patch\<close>

fun ops_by_line ::
  "string \<Rightarrow> patch_operation list \<Rightarrow> (int, patch_operation) gomap \<Rightarrow>
     patch_error + (int, patch_operation) gomap" where
  "ops_by_line source [] pby = Inr pby"
| "ops_by_line source (op # ops) pby =
     (if op_Source op = source
      then if ghas pby (op_Line op) then Inl (PatchDuplicateLine source (op_Line op))
           else ops_by_line source ops (gput (op_Line op) op pby)
      else ops_by_line source ops pby)"

text \<open>The state of the loop over the records: the lines patched and the rows kept so far.\<close>

type_synonym patch_state = "int list \<times> string list list"

definition patch_row ::
  "(int, patch_operation) gomap \<Rightarrow> nat \<Rightarrow> nat \<Rightarrow> nat \<Rightarrow> csv_error + csv_record \<Rightarrow> patch_state \<Rightarrow>
     patch_error + patch_state" where
  "patch_row pby width pos neg r st =
     (case r of Inl e \<Rightarrow> Inl (PatchRead e)
      | Inr rec \<Rightarrow>
          let line = csv_line rec; row = csv_fields rec
          in if length row \<noteq> width then Inl (PatchWidth line)
             else case map_of pby line of
               None \<Rightarrow> Inr (fst st, snd st @ [row])
             | Some op \<Rightarrow>
                 if row ! pos \<noteq> op_OldPositive op \<or> row ! neg \<noteq> op_OldNegative op
                 then Inl (PatchGuardFailed line (row ! pos) (row ! neg))
                 else if op_Action op = ''delete'' then Inr (line # fst st, snd st)
                 else if op_Action op \<noteq> ''update'' then Inl (PatchUnsupportedAction (op_Action op))
                 else Inr (line # fst st,
                        snd st @ [row[pos := op_NewPositive op, neg := op_NewNegative op]]))"

definition target_headers :: "string list" where
  "target_headers =
     [''to_summary_field_when_positive_amount'', ''to_summary_field_when_negative_amount'']"

definition patched_rows ::
  "string \<Rightarrow> patch_operation list \<Rightarrow> csv_stream \<Rightarrow> patch_error + string list list" where
  "patched_rows source ops st =
     (case patch_head st of Inl e \<Rightarrow> Inl e
      | Inr (head, rest) \<Rightarrow> (case patch_headers True 0 head Map.empty of Inl e \<Rightarrow> Inl e
      | Inr idx \<Rightarrow> (case first_missing idx target_headers of Some h \<Rightarrow> Inl (PatchMissingHeader h)
      | None \<Rightarrow> (case ops_by_line source ops [] of Inl e \<Rightarrow> Inl e
      | Inr pby \<Rightarrow>
          if pby = [] then Inl (PatchNoOperations source)
          else let pos = index_of idx ''to_summary_field_when_positive_amount'';
                   neg = index_of idx ''to_summary_field_when_negative_amount''
               in case foldE (patch_row pby (length head) pos neg) rest ([], [head]) of
                    Inl e \<Rightarrow> Inl e
                  | Inr (applied, rows) \<Rightarrow>
                      (case find (\<lambda>l. l \<notin> set applied) (gkeys pby) of
                         Some l \<Rightarrow> Inl (PatchMissingLine l)
                       | None \<Rightarrow> Inr rows)))))"

definition ApplyPatch ::
  "file_system \<Rightarrow> (string \<Rightarrow> io_error + string) \<Rightarrow> (string \<Rightarrow> string list list \<Rightarrow> io_error option) \<Rightarrow>
     string \<Rightarrow> string \<Rightarrow> string \<Rightarrow> patch_operation list \<Rightarrow> patch_error + string \<times> string list list"
where
  "ApplyPatch fs abs_path writer input out source ops =
     (if source \<noteq> ''payment'' \<and> source \<noteq> ''settlement'' then Inl (PatchInvalidSource source)
      else case abs_path input of Inl e \<Rightarrow> Inl (PatchAbs e)
      | Inr inAbs \<Rightarrow> (case abs_path out of Inl e \<Rightarrow> Inl (PatchAbs e)
      | Inr outAbs \<Rightarrow>
          if inAbs = outAbs then Inl PatchSameFile
          else (case fs input of Inl e \<Rightarrow> Inl (PatchOpen e)
          | Inr st \<Rightarrow> (case patched_rows source ops st of Inl e \<Rightarrow> Inl e
          | Inr rows \<Rightarrow> (case writer outAbs rows of Some e \<Rightarrow> Inl (PatchWrite e)
                        | None \<Rightarrow> Inr (outAbs, rows))))))"

end
