(* ===== verification/Patch_Props.thy ===== *)
theory Patch_Props
  imports Patch
begin

text \<open>
  What a patch promises: the operations loaded are valid and pairwise about different lines, and
  applying them changes exactly the lines they name, all of them, and only where the old targets
  are the ones the reviewer saw.
\<close>

section \<open>Loading\<close>

definition valid_op :: "patch_operation \<Rightarrow> bool" where
  "valid_op op \<longleftrightarrow>
     (op_Source op = ''payment'' \<or> op_Source op = ''settlement'') \<and> 2 \<le> op_Line op \<and>
     (op_Action op = ''update'' \<or> op_Action op = ''delete'')"

lemma patch_op_valid: "patch_op idx w rec = Inr op \<Longrightarrow> valid_op op"
  by (auto simp: patch_op_def Let_def valid_op_def split: if_splits sum.splits)

lemma patch_key_inject:
  "valid_op a \<Longrightarrow> valid_op b \<Longrightarrow>
     patch_key a = patch_key b \<longleftrightarrow> op_Source a = op_Source b \<and> op_Line a = op_Line b"
  by (auto simp: valid_op_def patch_key_def dec_int_inject)

lemma patch_ops_Inr:
  "patch_ops idx w seen st = Inr ops \<Longrightarrow>
     list_all valid_op ops \<and> distinct (map patch_key ops) \<and> set (map patch_key ops) \<inter> set seen = {} \<and>
     length ops = length st"
proof (induction st arbitrary: seen ops)
  case Nil
  then show ?case by simp
next
  case (Cons r st)
  then obtain rec op rest where r: "r = Inr rec" "patch_op idx w rec = Inr op"
    "patch_key op \<notin> set seen" "patch_ops idx w (patch_key op # seen) st = Inr rest" "ops = op # rest"
    by (cases r) (auto split: sum.splits if_splits)
  from Cons.IH[OF r(4)] r patch_op_valid[OF r(2)] show ?case by auto
qed

lemma ops_by_line_Inr:
  "ops_by_line source ops pby = Inr pby' \<Longrightarrow>
     map_of pby' = (\<lambda>l. case map_of pby l of Some op \<Rightarrow> Some op
        | None \<Rightarrow> find (\<lambda>op. op_Source op = source \<and> op_Line op = l) ops)"
proof (induction ops arbitrary: pby)
  case Nil
  then show ?case by (simp add: fun_eq_iff split: option.split)
next
  case (Cons op ops)
  show ?case
  proof (cases "op_Source op = source")
    case True
    with Cons.prems have "map_of pby (op_Line op) = None"
      and rec: "ops_by_line source ops (gput (op_Line op) op pby) = Inr pby'"
      by (auto simp: ghas_def split: if_splits)
    with Cons.IH[OF rec] True show ?thesis by (auto simp: update_conv' fun_eq_iff split: option.split)
  next
    case False
    with Cons.prems Cons.IH show ?thesis by (simp add: fun_eq_iff cong: option.case_cong)
  qed
qed

lemma ops_by_line_mem:
  "ops_by_line source ops pby = Inr pby' \<Longrightarrow> op \<in> set ops \<Longrightarrow> op_Source op = source \<Longrightarrow>
     map_of pby' (op_Line op) = Some op"
proof (induction ops arbitrary: pby)
  case Nil
  then show ?case by simp
next
  case (Cons p ops)
  show ?case
  proof (cases "op = p")
    case True
    with Cons.prems have "ops_by_line source ops (gput (op_Line op) op pby) = Inr pby'"
      by (auto split: if_splits)
    from ops_by_line_Inr[OF this] show ?thesis by (simp add: update_conv')
  next
    case False
    with Cons show ?thesis by (auto split: if_splits)
  qed
qed

lemma ops_by_line_total:
  "distinct (map (\<lambda>op. (op_Source op, op_Line op)) ops) \<Longrightarrow>
   (\<And>op. op \<in> set ops \<Longrightarrow> op_Source op = source \<Longrightarrow> \<not> ghas pby (op_Line op)) \<Longrightarrow>
   \<exists>pby'. ops_by_line source ops pby = Inr pby'"
proof (induction ops arbitrary: pby)
  case Nil
  then show ?case by simp
next
  case (Cons op ops)
  show ?case
  proof (cases "op_Source op = source")
    case True
    have "\<exists>pby'. ops_by_line source ops (gput (op_Line op) op pby) = Inr pby'"
      by (rule Cons.IH) (use Cons.prems True in \<open>auto simp: image_iff\<close>)
    with True Cons.prems(2)[of op] show ?thesis by simp
  next
    case False
    with Cons.IH Cons.prems show ?thesis by simp
  qed
qed

text \<open>
  C25. A patch that loads has one operation per record; each names one of the two configurations,
  a line after the header and a supported action; no two operations are about the same line; and
  so indexing them for either configuration never finds a duplicate.
\<close>

theorem LoadPatch_valid:
  assumes "LoadPatch fs path = Inr ops"
  shows "list_all valid_op ops \<and> distinct (map (\<lambda>op. (op_Source op, op_Line op)) ops) \<and>
    (\<exists>head rest. fs path = Inr (Inr head # rest) \<and> length ops = length rest) \<and>
    (\<exists>pby. ops_by_line source ops [] = Inr pby)"
proof -
  obtain head rest idx where *: "fs path = Inr (Inr head # rest)"
    "patch_ops idx (length (csv_fields head)) [] rest = Inr ops"
    using assms
    by (auto simp: LoadPatch_def patch_head_def split: sum.splits list.splits option.splits)
  note ops = patch_ops_Inr[OF *(2)]
  have "distinct (map (\<lambda>op. (op_Source op, op_Line op)) ops)"
    using ops unfolding distinct_map inj_on_def list_all_iff by (metis patch_key_inject prod.inject)
  with ops * ops_by_line_total[of ops source "[]"] show ?thesis by auto
qed

definition ex_patch_fs :: file_system where
  "ex_patch_fs path =
     Inr (if path = ''patch.csv'' then
       [Inr \<lparr>csv_fields = patch_required, csv_line = 1, csv_last_line = 1, csv_before = 0, csv_after = 9\<rparr>,
        Inr \<lparr>csv_fields = [''payment'', ''3'', ''update'', ''sales_tax'', '''', ''sales_other'', ''''],
             csv_line = 2, csv_last_line = 2, csv_before = 9, csv_after = 19\<rparr>,
        Inr \<lparr>csv_fields = [''payment'', ''4'', ''delete'', ''x'', ''y'', '''', ''''],
             csv_line = 3, csv_last_line = 3, csv_before = 19, csv_after = 29\<rparr>]
      else
       [Inr \<lparr>csv_fields = ''id'' # target_headers, csv_line = 1, csv_last_line = 1, csv_before = 0, csv_after = 9\<rparr>,
        Inr \<lparr>csv_fields = [''a'', ''p'', ''q''], csv_line = 2, csv_last_line = 2, csv_before = 9, csv_after = 19\<rparr>,
        Inr \<lparr>csv_fields = [''b'', ''sales_tax'', ''''], csv_line = 3, csv_last_line = 3, csv_before = 19, csv_after = 29\<rparr>,
        Inr \<lparr>csv_fields = [''c'', ''x'', ''y''], csv_line = 4, csv_last_line = 4, csv_before = 29, csv_after = 39\<rparr>])"

definition ex_patch :: "patch_operation list" where
  "ex_patch = (case LoadPatch ex_patch_fs ''patch.csv'' of Inr ops \<Rightarrow> ops | Inl _ \<Rightarrow> [])"

lemma ex_LoadPatch: "LoadPatch ex_patch_fs ''patch.csv'' = Inr ex_patch"
proof -
  have "case LoadPatch ex_patch_fs ''patch.csv'' of Inr ops \<Rightarrow> True | Inl _ \<Rightarrow> False" by code_simp
  then show ?thesis by (auto simp: ex_patch_def split: sum.splits)
qed

lemma LoadPatch_valid_witness:
  "list_all valid_op ex_patch \<and> length ex_patch = 2"
  using LoadPatch_valid[OF ex_LoadPatch] by (simp add: ex_patch_fs_def)

section \<open>Applying\<close>

text \<open>What an operation makes of the record it names.\<close>

definition op_for :: "string \<Rightarrow> patch_operation list \<Rightarrow> int \<Rightarrow> patch_operation option" where
  "op_for source ops line = find (\<lambda>op. op_Source op = source \<and> op_Line op = line) ops"

definition patched_record ::
  "(int \<Rightarrow> patch_operation option) \<Rightarrow> nat \<Rightarrow> nat \<Rightarrow> csv_record \<Rightarrow> string list list" where
  "patched_record look pos neg rec =
     (case look (csv_line rec) of None \<Rightarrow> [csv_fields rec]
      | Some op \<Rightarrow> if op_Action op = ''delete'' then []
                    else [(csv_fields rec)[pos := op_NewPositive op, neg := op_NewNegative op]])"

definition guard_met :: "nat \<Rightarrow> nat \<Rightarrow> patch_operation \<Rightarrow> csv_record \<Rightarrow> bool" where
  "guard_met pos neg op rec \<longleftrightarrow>
     csv_fields rec ! pos = op_OldPositive op \<and> csv_fields rec ! neg = op_OldNegative op \<and>
     (op_Action op = ''update'' \<or> op_Action op = ''delete'')"

lemma patch_row_Inr:
  assumes "patch_row pby w pos neg r (applied, rows) = Inr (applied', rows')"
  obtains rec where "r = Inr rec" "length (csv_fields rec) = w"
    "rows' = rows @ patched_record (map_of pby) pos neg rec"
    "applied' = (case map_of pby (csv_line rec) of None \<Rightarrow> applied | Some _ \<Rightarrow> csv_line rec # applied)"
    "case map_of pby (csv_line rec) of None \<Rightarrow> True
     | Some op \<Rightarrow> guard_met pos neg op rec"
proof -
  obtain rec where r: "r = Inr rec" using assms by (cases r) (auto simp: patch_row_def)
  show ?thesis
    by (rule that[OF r])
      (use assms in \<open>auto simp: patch_row_def r Let_def patched_record_def guard_met_def split: if_splits option.splits\<close>)
qed

lemma patch_rows_Inr:
  "foldE (patch_row pby w pos neg) st (applied, rows) = Inr (applied', rows') \<Longrightarrow>
   \<exists>recs. st = map Inr recs \<and> list_all (\<lambda>rec. length (csv_fields rec) = w) recs \<and>
     rows' = rows @ concat (map (patched_record (map_of pby) pos neg) recs) \<and>
     (\<forall>l op. map_of pby l = Some op \<longrightarrow> l \<in> set applied' \<longrightarrow> l \<in> set applied \<or>
        list_ex (\<lambda>rec. csv_line rec = l \<and> guard_met pos neg op rec) recs)"
proof (induction st arbitrary: applied rows)
  case Nil
  then show ?case by (intro exI[of _ "[]"]) simp
next
  case (Cons r st)
  then obtain u where u: "patch_row pby w pos neg r (applied, rows) = Inr u"
    "foldE (patch_row pby w pos neg) st u = Inr (applied', rows')"
    by (auto simp: result_simps)
  obtain a1 r1 where u1: "u = (a1, r1)" by (cases u)
  obtain rec where rec: "r = Inr rec" "length (csv_fields rec) = w"
    "r1 = rows @ patched_record (map_of pby) pos neg rec"
    "a1 = (case map_of pby (csv_line rec) of None \<Rightarrow> applied | Some _ \<Rightarrow> csv_line rec # applied)"
    "case map_of pby (csv_line rec) of None \<Rightarrow> True
     | Some op \<Rightarrow> guard_met pos neg op rec"
    using u(1) unfolding u1 by (rule patch_row_Inr)
  from Cons.IH[OF u(2)[unfolded u1]] obtain recs where recs: "st = map Inr recs"
    "list_all (\<lambda>rec. length (csv_fields rec) = w) recs"
    "rows' = r1 @ concat (map (patched_record (map_of pby) pos neg) recs)"
    "\<forall>l op. map_of pby l = Some op \<longrightarrow> l \<in> set applied' \<longrightarrow> l \<in> set a1 \<or>
        list_ex (\<lambda>rec. csv_line rec = l \<and> guard_met pos neg op rec) recs"
    by blast
  have "l \<in> set applied \<or> list_ex (\<lambda>rec. csv_line rec = l \<and> guard_met pos neg op rec) (rec # recs)"
    if l: "map_of pby l = Some op" "l \<in> set applied'" for l op
  proof (cases "l = csv_line rec")
    case True
    with l(1) rec(5) have "guard_met pos neg op rec" by simp
    with True show ?thesis by simp
  next
    case False
    with rec(4) have "l \<in> set a1 \<longleftrightarrow> l \<in> set applied" by (simp split: option.split)
    with recs(4) l show ?thesis by auto
  qed
  with rec recs show ?case by (intro exI[of _ "rec # recs"]) simp
qed

lemma patch_headers_index:
  "patch_headers b i hs idx = Inr idx' \<Longrightarrow> idx' k = Some j \<Longrightarrow>
     idx k = Some j \<or> (i \<le> j \<and> j - i < length hs \<and> TrimSpace (hs ! (j - i)) = k)"
proof (induction hs arbitrary: i idx)
  case Nil
  then show ?case by simp
next
  case (Cons h hs)
  then have step: "patch_headers b (Suc i) hs (idx(TrimSpace h \<mapsto> i)) = Inr idx'"
    by (auto simp: Let_def split: if_splits)
  from Cons.IH[OF step Cons.prems(2)] show ?case
    by (auto simp: Suc_le_eq nth_Cons' split: if_splits)
qed

lemma patched_rows_Inr:
  assumes "patched_rows source ops st = Inr rows"
  obtains head recs pos neg where "st = Inr head # map Inr recs"
    "pos < length (csv_fields head)" "neg < length (csv_fields head)" "pos \<noteq> neg"
    "TrimSpace (csv_fields head ! pos) = ''to_summary_field_when_positive_amount''"
    "TrimSpace (csv_fields head ! neg) = ''to_summary_field_when_negative_amount''"
    "list_all (\<lambda>rec. length (csv_fields rec) = length (csv_fields head)) recs"
    "rows = csv_fields head # concat (map (patched_record (op_for source ops) pos neg) recs)"
    "\<forall>l op. op_for source ops l = Some op \<longrightarrow>
       list_ex (\<lambda>rec. csv_line rec = l \<and> guard_met pos neg op rec) recs"
    "\<forall>op. op \<in> set ops \<and> op_Source op = source \<longrightarrow> op_for source ops (op_Line op) = Some op"
    "list_ex (\<lambda>op. op_Source op = source) ops"
proof -
  obtain hd_rec rest idx pby applied where
    st: "st = Inr hd_rec # rest"
    and idx: "patch_headers True 0 (csv_fields hd_rec) Map.empty = Inr idx"
    and req: "first_missing idx target_headers = None"
    and pby: "ops_by_line source ops [] = Inr pby" "pby \<noteq> []"
    and loop: "foldE (patch_row pby (length (csv_fields hd_rec))
        (index_of idx ''to_summary_field_when_positive_amount'')
        (index_of idx ''to_summary_field_when_negative_amount'')) rest ([], [csv_fields hd_rec]) =
      Inr (applied, rows)"
    and all: "find (\<lambda>l. l \<notin> set applied) (gkeys pby) = None"
    using assms
    by (auto simp: patched_rows_def patch_head_def Let_def split: sum.splits list.splits option.splits if_splits)
  let ?pos = "index_of idx ''to_summary_field_when_positive_amount''"
  let ?neg = "index_of idx ''to_summary_field_when_negative_amount''"
  have look: "map_of pby = op_for source ops"
    using ops_by_line_Inr[OF pby(1)] by (simp add: op_for_def fun_eq_iff)
  obtain i j where ij: "idx ''to_summary_field_when_positive_amount'' = Some i"
    "idx ''to_summary_field_when_negative_amount'' = Some j"
    using req by (auto simp: first_missing_def target_headers_def split: if_splits)
  from patch_headers_index[OF idx ij(1)] patch_headers_index[OF idx ij(2)]
  have cols: "?pos < length (csv_fields hd_rec)" "?neg < length (csv_fields hd_rec)"
    "TrimSpace (csv_fields hd_rec ! ?pos) = ''to_summary_field_when_positive_amount''"
    "TrimSpace (csv_fields hd_rec ! ?neg) = ''to_summary_field_when_negative_amount''"
    using ij by (simp_all add: index_of_def)
  then have "?pos \<noteq> ?neg" by auto
  from patch_rows_Inr[OF loop] obtain recs where recs: "rest = map Inr recs"
    "list_all (\<lambda>rec. length (csv_fields rec) = length (csv_fields hd_rec)) recs"
    "rows = [csv_fields hd_rec] @ concat (map (patched_record (map_of pby) ?pos ?neg) recs)"
    "\<And>l op. map_of pby l = Some op \<Longrightarrow> l \<in> set applied \<Longrightarrow>
       list_ex (\<lambda>rec. csv_line rec = l \<and> guard_met ?pos ?neg op rec) recs"
    by auto
  have "l \<in> set applied" if "op_for source ops l = Some op" for l op
    using all that unfolding look[symmetric] by (force simp: find_None_iff dest: map_of_SomeD)
  moreover have "list_ex (\<lambda>op. op_Source op = source) ops"
  proof -
    have "map_of pby (fst (hd pby)) = Some (snd (hd pby))"
      using pby(2) by (cases pby) auto
    then show ?thesis
      unfolding look op_for_def by (auto simp: find_Some_iff list_ex_iff)
  qed
  ultimately show ?thesis
    using that[of hd_rec recs ?pos ?neg] st cols \<open>?pos \<noteq> ?neg\<close> recs ops_by_line_mem[OF pby(1)]
    unfolding look by auto
qed

text \<open>
  C26. A patch that applies leaves the header and every record that no operation names as they
  are, in order; drops exactly the records to delete; sets exactly the two target cells of the
  records to update; every operation for the configuration has met a record on its line whose old
  targets were the reviewed ones; and the file replaced is not the input.
\<close>

theorem ApplyPatch_exact:
  assumes "ApplyPatch fs abs_path writer input out source ops = Inr (target, rows)"
  shows "\<exists>head recs pos neg.
    fs input = Inr (Inr head # map Inr recs) \<and> pos \<noteq> neg \<and>
    TrimSpace (csv_fields head ! pos) = ''to_summary_field_when_positive_amount'' \<and>
    TrimSpace (csv_fields head ! neg) = ''to_summary_field_when_negative_amount'' \<and>
    rows = csv_fields head # concat (map (\<lambda>rec.
      case find (\<lambda>op. op_Source op = source \<and> op_Line op = csv_line rec) ops of
        None \<Rightarrow> [csv_fields rec]
      | Some op \<Rightarrow> if op_Action op = ''delete'' then []
          else [(csv_fields rec)[pos := op_NewPositive op, neg := op_NewNegative op]]) recs) \<and>
    list_ex (\<lambda>op. op_Source op = source) ops \<and>
    list_all (\<lambda>op. if op_Source op = source
      then list_ex (\<lambda>rec. csv_line rec = op_Line op \<and> guard_met pos neg op rec) recs
      else True) ops \<and>
    abs_path out = Inr target \<and> abs_path input \<noteq> Inr target"
proof -
  have ok: "\<exists>st. fs input = Inr st \<and> patched_rows source ops st = Inr rows"
    "abs_path out = Inr target" "abs_path input \<noteq> Inr target"
    using assms by (auto simp: ApplyPatch_def split: if_splits sum.splits option.splits)
  then obtain st where st: "fs input = Inr st" "patched_rows source ops st = Inr rows" by blast
  obtain head recs pos neg where *: "st = Inr head # map Inr recs"
    "pos < length (csv_fields head)" "neg < length (csv_fields head)" "pos \<noteq> neg"
    "TrimSpace (csv_fields head ! pos) = ''to_summary_field_when_positive_amount''"
    "TrimSpace (csv_fields head ! neg) = ''to_summary_field_when_negative_amount''"
    "list_all (\<lambda>rec. length (csv_fields rec) = length (csv_fields head)) recs"
    "rows = csv_fields head # concat (map (patched_record (op_for source ops) pos neg) recs)"
    "\<forall>l op. op_for source ops l = Some op \<longrightarrow>
       list_ex (\<lambda>rec. csv_line rec = l \<and> guard_met pos neg op rec) recs"
    "\<forall>op. op \<in> set ops \<and> op_Source op = source \<longrightarrow> op_for source ops (op_Line op) = Some op"
    "list_ex (\<lambda>op. op_Source op = source) ops"
    using st(2) by (rule patched_rows_Inr)
  have "patched_record (op_for source ops) pos neg = (\<lambda>rec.
      case find (\<lambda>op. op_Source op = source \<and> op_Line op = csv_line rec) ops of
        None \<Rightarrow> [csv_fields rec]
      | Some op \<Rightarrow> if op_Action op = ''delete'' then []
          else [(csv_fields rec)[pos := op_NewPositive op, neg := op_NewNegative op]])"
    by (simp add: fun_eq_iff patched_record_def op_for_def)
  with * st ok(2,3) show ?thesis
    by (intro exI[of _ head] exI[of _ recs] exI[of _ pos] exI[of _ neg]) (simp add: list_all_iff)
qed

lemma ApplyPatch_exact_witness:
  "\<exists>rows. ApplyPatch ex_patch_fs Inr (\<lambda>_ _. None) ''in.csv'' ''out.csv'' ''payment'' ex_patch =
      Inr (''out.csv'', rows) \<and> (\<exists>head recs. ex_patch_fs ''in.csv'' = Inr (Inr head # map Inr recs) \<and>
        hd rows = csv_fields head)"
proof -
  have "case ApplyPatch ex_patch_fs Inr (\<lambda>_ _. None) ''in.csv'' ''out.csv'' ''payment'' ex_patch of
      Inr (target, rows) \<Rightarrow> target = ''out.csv'' | Inl _ \<Rightarrow> False"
    by code_simp
  then obtain rows where run: "ApplyPatch ex_patch_fs Inr (\<lambda>_ _. None) ''in.csv'' ''out.csv''
      ''payment'' ex_patch = Inr (''out.csv'', rows)"
    by (auto split: sum.splits)
  from ApplyPatch_exact[OF run] run show ?thesis by fastforce
qed

end
