(* ===== verification/Go_Time.thy ===== *)
theory Go_Time
  imports Go_Text
begin

text \<open>
  The part of package \<open>time\<close> that ingestion uses: the proleptic Gregorian calendar, \<open>time.Parse\<close>
  for layouts given as the list of their elements, and \<open>Format("2006-01-02")\<close>. The callers only
  ask whether parsing failed, so it yields an option. An instant is the number of seconds since
  1970-01-01 00:00:00 UTC; fractions of a second, which \<open>Parse\<close> accepts after the seconds, are
  skipped.
\<close>

section \<open>Calendar\<close>

text \<open>
  Years run from March, so that the leap day is the last day of a year; 400 years are an era of
  146097 days. Day 0 is 1970-01-01.
\<close>

definition leap :: "int \<Rightarrow> bool" where
  "leap y \<longleftrightarrow> y mod 4 = 0 \<and> (y mod 100 \<noteq> 0 \<or> y mod 400 = 0)"

definition days_in :: "int \<Rightarrow> int \<Rightarrow> int" where
  "days_in m y =
     (if m = 2 then if leap y then 29 else 28
      else if m = 4 \<or> m = 6 \<or> m = 9 \<or> m = 11 then 30 else 31)"

definition days_from_civil :: "int \<Rightarrow> int \<Rightarrow> int \<Rightarrow> int" where
  "days_from_civil y m d =
     (let y' = (if m \<le> 2 then y - 1 else y);
          yoe = y' mod 400;
          doy = (153 * (if 2 < m then m - 3 else m + 9) + 2) div 5 + d - 1
      in (y' div 400) * 146097 + (yoe * 365 + yoe div 4 - yoe div 100 + doy) - 719468)"

definition year_of_era :: "int \<Rightarrow> int" where
  "year_of_era doe = (doe - doe div 1460 + doe div 36524 - doe div 146096) div 365"

definition civil_from_days :: "int \<Rightarrow> int \<times> int \<times> int" where
  "civil_from_days n =
     (let z = n + 719468;
          doe = z mod 146097;
          yoe = year_of_era doe;
          doy = doe - (365 * yoe + yoe div 4 - yoe div 100);
          mp = (5 * doy + 2) div 153;
          d = doy - (153 * mp + 2) div 5 + 1;
          m = (if mp < 10 then mp + 3 else mp - 9)
      in (yoe + (z div 146097) * 400 + (if m \<le> 2 then 1 else 0), m, d))"

definition valid_date :: "int \<Rightarrow> int \<Rightarrow> int \<Rightarrow> bool" where
  "valid_date y m d \<longleftrightarrow> 1 \<le> m \<and> m \<le> 12 \<and> 1 \<le> d \<and> d \<le> days_in m y"

text \<open>
  Reading a day number back. The year of a day in an era is monotone in the day, so it is enough
  to compute it for the first and the last day of each of the 400 years.
\<close>

definition year_start :: "int \<Rightarrow> int" where
  "year_start yoe = 365 * yoe + yoe div 4 - yoe div 100"

definition year_len :: "int \<Rightarrow> int" where
  "year_len yoe = (if leap (yoe + 1) then 366 else 365)"

lemma div_4_diff: "a \<le> b \<Longrightarrow> b div 4 - a div 4 \<le> b - (a :: int)"
  by presburger

lemma year_of_era_mono:
  assumes "a \<le> b"
  shows "year_of_era a \<le> year_of_era b"
proof -
  let ?f = "\<lambda>n :: int. n - n div 1460 + n div 36524 - n div 146096"
  have step: "?f n \<le> ?f (n + 1)" for n
  proof -
    have quarter: "k div 146096 = k div 36524 div 4" for k :: int
      using zdiv_zmult2_eq[of 4 k 36524] by simp
    have up: "(n + 1) div 1460 \<le> n div 1460 + 1"
      using zdiv_mono1[of "n + 1" "n + 1460" 1460] by simp
    have "n div 36524 \<le> (n + 1) div 36524" by (rule zdiv_mono1) simp_all
    then have "(n + 1) div 36524 div 4 - n div 36524 div 4 \<le> (n + 1) div 36524 - n div 36524"
      by (rule div_4_diff)
    with up show ?thesis unfolding quarter by linarith
  qed
  have "?f a \<le> ?f (a + int k)" for k
  proof (induction k)
    case (Suc k)
    have eq: "a + int (Suc k) = a + int k + 1" by simp
    show ?case unfolding eq using Suc step by (rule order_trans)
  qed simp
  from this[of "nat (b - a)"] assms have "?f a \<le> ?f b" by simp
  then show ?thesis unfolding year_of_era_def by (rule zdiv_mono1) simp
qed

lemma year_of_era_ends:
  "list_all (\<lambda>y. year_of_era (year_start y) = y \<and> year_of_era (year_start y + year_len y - 1) = y)
     (map int [0..<400])"
  by code_simp

lemma year_of_era_exact:
  assumes "0 \<le> y" "y < 400" "0 \<le> doy" "doy < year_len y"
  shows "year_of_era (year_start y + doy) = y"
proof -
  have "y \<in> set (map int [0..<400])"
    using assms(1,2) by (auto simp: image_iff intro!: bexI[of _ "nat y"])
  with year_of_era_ends have ends: "year_of_era (year_start y) = y"
    "year_of_era (year_start y + year_len y - 1) = y"
    by (auto simp: list_all_iff)
  have "year_of_era (year_start y) \<le> year_of_era (year_start y + doy)"
    "year_of_era (year_start y + doy) \<le> year_of_era (year_start y + year_len y - 1)"
    by (rule year_of_era_mono; use assms in simp)+
  with ends show ?thesis by simp
qed

text \<open>The day of the year that starts in March, and its month and day.\<close>

lemma month_table:
  "list_all (\<lambda>m. list_all (\<lambda>d.
      let doy = (153 * (if 2 < m then m - 3 else m + 9) + 2) div 5 + d - 1; mp = (5 * doy + 2) div 153
      in (if mp < 10 then mp + 3 else mp - 9) = m \<and> doy - (153 * mp + 2) div 5 + 1 = d \<and> 0 \<le> doy \<and>
         (if m = 2 then doy \<le> 364 + (if d = 29 then 1 else 0) else doy \<le> 364))
     (map int [1..<(if m = 2 then 30 else nat (days_in m 0) + 1)])) (map int [1..<13])"
  by code_simp

lemma month_day_exact:
  assumes "valid_date y m d"
  defines "doy \<equiv> (153 * (if 2 < m then m - 3 else m + 9) + 2) div 5 + d - 1"
  shows "(let mp = (5 * doy + 2) div 153 in
      (if mp < 10 then mp + 3 else mp - 9) = m \<and> doy - (153 * mp + 2) div 5 + 1 = d) \<and> 0 \<le> doy \<and>
    doy \<le> 364 + (if m = 2 \<and> d = 29 then 1 else 0)"
proof -
  have m: "m \<in> set (map int [1..<13])"
    using assms(1) by (auto simp: valid_date_def image_iff intro!: bexI[of _ "nat m"])
  have "d \<le> (if m = 2 then 29 else days_in m 0)"
    using assms(1) by (auto simp: valid_date_def days_in_def split: if_splits)
  then have "d \<in> set (map int [1..<(if m = 2 then 30 else nat (days_in m 0) + 1)])"
    using assms(1) by (auto simp: valid_date_def image_iff intro!: bexI[of _ "nat d"])
  note d = this
  from month_table have "list_all (\<lambda>d.
      let doy = (153 * (if 2 < m then m - 3 else m + 9) + 2) div 5 + d - 1; mp = (5 * doy + 2) div 153
      in (if mp < 10 then mp + 3 else mp - 9) = m \<and> doy - (153 * mp + 2) div 5 + 1 = d \<and> 0 \<le> doy \<and>
         (if m = 2 then doy \<le> 364 + (if d = 29 then 1 else 0) else doy \<le> 364))
     (map int [1..<(if m = 2 then 30 else nat (days_in m 0) + 1)])"
    unfolding list_all_iff by (rule bspec[OF _ m])
  then have "let doy = (153 * (if 2 < m then m - 3 else m + 9) + 2) div 5 + d - 1; mp = (5 * doy + 2) div 153
      in (if mp < 10 then mp + 3 else mp - 9) = m \<and> doy - (153 * mp + 2) div 5 + 1 = d \<and> 0 \<le> doy \<and>
         (if m = 2 then doy \<le> 364 + (if d = 29 then 1 else 0) else doy \<le> 364)"
    unfolding list_all_iff by (rule bspec[OF _ d])
  then show ?thesis
    unfolding doy_def[symmetric] Let_def by (simp split: if_splits)
qed

lemma year_bound: "0 \<le> y \<Longrightarrow> y < 400 \<Longrightarrow> 0 \<le> year_start y \<and> year_start y + year_len y \<le> 146097"
proof -
  assume y: "0 \<le> y" "y < 400"
  have "list_all (\<lambda>y. 0 \<le> year_start y \<and> year_start y + year_len y \<le> 146097) (map int [0..<400])"
    by code_simp
  moreover have "y \<in> set (map int [0..<400])"
    using y by (auto simp: image_iff intro!: bexI[of _ "nat y"])
  ultimately show ?thesis unfolding list_all_iff by blast
qed

lemma leap_era: "leap (400 * e + k) = leap k"
proof -
  have "(k + 4 * (100 * e)) mod 4 = k mod 4" "(k + 100 * (4 * e)) mod 100 = k mod 100"
    "(k + 400 * e) mod 400 = k mod 400"
    by (rule mod_mult_self2)+
  then have "(400 * e + k) mod 4 = k mod 4" "(400 * e + k) mod 100 = k mod 100"
    "(400 * e + k) mod 400 = k mod 400"
    by (simp_all add: ac_simps)
  then show ?thesis by (simp add: leap_def)
qed

lemma civil_days:
  assumes "valid_date y m d"
  shows "civil_from_days (days_from_civil y m d) = (y, m, d)"
proof -
  define y' where "y' = (if m \<le> 2 then y - 1 else y)"
  define yoe where "yoe = y' mod 400"
  define era where "era = y' div 400"
  define doy where "doy = (153 * (if 2 < m then m - 3 else m + 9) + 2) div 5 + d - 1"
  define mp where "mp = (5 * doy + 2) div 153"
  note md = month_day_exact[OF assms, folded doy_def, unfolded Let_def, folded mp_def]
  have yoe: "0 \<le> yoe" "yoe < 400" "y' = 400 * era + yoe" by (simp_all add: yoe_def era_def)
  have "doy < year_len yoe"
  proof (cases "m = 2 \<and> d = 29")
    case True
    with assms have "leap y" by (auto simp: valid_date_def days_in_def split: if_splits)
    moreover have "y = 400 * era + (yoe + 1)" using True yoe(3) by (simp add: y'_def)
    ultimately have "leap (yoe + 1)" using leap_era by metis
    with md True show ?thesis by (simp add: year_len_def)
  next
    case False
    with md show ?thesis by (simp add: year_len_def)
  qed
  with md yoe have year: "year_of_era (year_start yoe + doy) = yoe"
    and doe: "0 \<le> year_start yoe + doy" "year_start yoe + doy < 146097"
    using year_of_era_exact[of yoe doy] year_bound[of yoe] by auto
  have n: "days_from_civil y m d + 719468 = era * 146097 + (year_start yoe + doy)"
    by (simp add: days_from_civil_def Let_def year_start_def doy_def yoe_def era_def y'_def)
  then have mod: "(days_from_civil y m d + 719468) mod 146097 = year_start yoe + doy"
    and div: "(days_from_civil y m d + 719468) div 146097 = era"
    using doe by (auto intro: int_mod_pos_eq int_div_pos_eq simp: mult.commute)
  have rest: "year_start yoe + doy - (365 * yoe + yoe div 4 - yoe div 100) = doy"
    by (simp add: year_start_def)
  have month: "(if mp < 10 then mp + 3 else mp - 9) = m" and day: "doy - (153 * mp + 2) div 5 + 1 = d"
    using md by simp_all
  have "civil_from_days (days_from_civil y m d) = (yoe + era * 400 + (if m \<le> 2 then 1 else 0), m, d)"
    unfolding civil_from_days_def Let_def mod div year rest mp_def[symmetric] month day ..
  then show ?thesis using yoe(3) by (simp add: y'_def split: if_splits)
qed

section \<open>Formatting a day\<close>

fun pad_zeros :: "nat \<Rightarrow> string \<Rightarrow> string" where
  "pad_zeros w s = replicate (w - length s) CHR ''0'' @ s"

definition append_int :: "int \<Rightarrow> nat \<Rightarrow> string" where
  "append_int n w = (if n < 0 then ''-'' else []) @ pad_zeros w (dec (nat \<bar>n\<bar>))"

definition format_day :: "int \<Rightarrow> string" where
  "format_day t =
     (case civil_from_days (t div 86400) of
        (y, m, d) \<Rightarrow> append_int y 4 @ ''-'' @ append_int m 2 @ ''-'' @ append_int d 2)"

section \<open>Parsing\<close>

datatype layout_element =
    Prefix string | StdDay | StdZeroDay | StdLongMonth | StdMonth | StdZeroMonth | StdLongYear
  | StdHour | StdHour12 | StdZeroMinute | StdZeroSecond | StdPM | Stdpm | StdTZ | StdNumTZ

record parsed =
  p_year :: int
  p_month :: int
  p_day :: int
  p_hour :: int
  p_min :: int
  p_sec :: int
  p_pm :: bool
  p_am :: bool
  p_utc :: bool
  p_offset :: "int option"

definition parsed_start :: parsed where
  "parsed_start = \<lparr>p_year = 0, p_month = -1, p_day = -1, p_hour = 0, p_min = 0, p_sec = 0,
     p_pm = False, p_am = False, p_utc = False, p_offset = None\<rparr>"

fun cutspace :: "string \<Rightarrow> string" where
  "cutspace (c # s) = (if c = CHR '' '' then cutspace s else c # s)"
| "cutspace [] = []"

lemma length_cutspace: "length (cutspace s) \<le> length s"
  by (induction s rule: cutspace.induct) auto

text \<open>A run of spaces in the layout stands for any run of spaces in the value.\<close>

function skip :: "string \<Rightarrow> string \<Rightarrow> string option" where
  "skip value [] = Some value"
| "skip value (c # prefix) =
     (if c = CHR '' '' then
        if value \<noteq> [] \<and> hd value \<noteq> CHR '' '' then None
        else skip (cutspace value) (cutspace prefix)
      else if value = [] \<or> hd value \<noteq> c then None
      else skip (tl value) prefix)"
  by pat_completeness auto
termination
  by (relation "measure (\<lambda>(v, p). length p)")
    (use length_cutspace in \<open>auto simp: less_Suc_eq_le\<close>)

definition getnum :: "bool \<Rightarrow> string \<Rightarrow> (int \<times> string) option" where
  "getnum fixed s =
     (case s of
        a # b # r \<Rightarrow>
          if \<not> is_digit a then None
          else if is_digit b then Some (int (10 * digit_val a + digit_val b), r)
          else if fixed then None else Some (int (digit_val a), b # r)
      | [a] \<Rightarrow> if is_digit a \<and> \<not> fixed then Some (int (digit_val a), []) else None
      | [] \<Rightarrow> None)"

definition longMonthNames :: "string list" where
  "longMonthNames =
     [''January'', ''February'', ''March'', ''April'', ''May'', ''June'', ''July'', ''August'',
      ''September'', ''October'', ''November'', ''December'']"

definition shortMonthNames :: "string list" where
  "shortMonthNames = map (take 3) longMonthNames"

text \<open>\<open>lookup(tab, val)\<close>: the first name that is a prefix of the value, ASCII case ignored.\<close>

fun lookup_name :: "int \<Rightarrow> string list \<Rightarrow> string \<Rightarrow> (int \<times> string) option" where
  "lookup_name i [] val = None"
| "lookup_name i (n # ns) val =
     (if length n \<le> length val \<and> ToLower (take (length n) val) = ToLower n
      then Some (i, drop (length n) val) else lookup_name (i + 1) ns val)"

definition parse_year :: "string \<Rightarrow> (int \<times> string) option" where
  "parse_year s =
     (if length s < 4 \<or> \<not> list_all is_digit (take 4 s) then None
      else Some (int (dec_value (take 4 s)), drop 4 s))"

text \<open>The number of bytes of a signed hour offset, 0 when there is none or it exceeds 23.\<close>

definition signed_offset :: "string \<Rightarrow> nat" where
  "signed_offset s =
     (if s = [] \<or> \<not> (hd s = CHR ''-'' \<or> hd s = CHR ''+'') then 0
      else let ds = takeWhile is_digit (tl s)
           in if ds = [] \<or> 23 < dec_value ds then 0 else 1 + length ds)"

definition upper_letter :: "char \<Rightarrow> bool" where
  "upper_letter c \<longleftrightarrow> 65 \<le> code c \<and> code c \<le> 90"

definition parseTimeZone :: "string \<Rightarrow> nat option" where
  "parseTimeZone s =
     (if length s < 3 then None
      else if take 4 s = ''ChST'' \<or> take 4 s = ''MeST'' then Some 4
      else if take 3 s = ''GMT'' then Some (3 + signed_offset (drop 3 s))
      else if hd s = CHR ''+'' \<or> hd s = CHR ''-''
        then (if 0 < signed_offset s then Some (signed_offset s) else None)
      else let n = length (takeWhile upper_letter (take 6 s))
           in if n = 5 then (if s ! 4 = CHR ''T'' then Some 5 else None)
              else if n = 4 then (if s ! 3 = CHR ''T'' \<or> take 4 s = ''WITA'' then Some 4 else None)
              else if n = 3 then Some 3 else None)"

definition parse_num_zone :: "string \<Rightarrow> (int \<times> string) option" where
  "parse_num_zone s =
     (if length s < 5 then None
      else case getnum True (take 2 (drop 1 s)) of None \<Rightarrow> None
      | Some (hr, _) \<Rightarrow> (case getnum True (take 2 (drop 3 s)) of None \<Rightarrow> None
      | Some (mm, _) \<Rightarrow>
          if 24 < hr \<or> 60 < mm then None
          else if hd s = CHR ''+'' then Some ((hr * 60 + mm) * 60, drop 5 s)
          else if hd s = CHR ''-'' then Some (- ((hr * 60 + mm) * 60), drop 5 s)
          else None))"

definition skip_fraction :: "string \<Rightarrow> string" where
  "skip_fraction s =
     (if 2 \<le> length s \<and> (hd s = CHR ''.'' \<or> hd s = CHR '','') \<and> is_digit (s ! 1)
      then dropWhile is_digit (tl s) else s)"

definition in_range :: "int \<Rightarrow> int \<Rightarrow> (int \<times> string) option \<Rightarrow> (int \<times> string) option" where
  "in_range lo hi r = (case r of None \<Rightarrow> None | Some (n, s) \<Rightarrow> if lo \<le> n \<and> n \<le> hi then r else None)"

definition parse_element :: "layout_element \<Rightarrow> parsed \<Rightarrow> string \<Rightarrow> (parsed \<times> string) option" where
  "parse_element el p s =
     (case el of
        Prefix pre \<Rightarrow> map_option (Pair p) (skip s pre)
      | StdDay \<Rightarrow> map_option (\<lambda>(n, r). (p\<lparr>p_day := n\<rparr>, r)) (getnum False s)
      | StdZeroDay \<Rightarrow> map_option (\<lambda>(n, r). (p\<lparr>p_day := n\<rparr>, r)) (getnum True s)
      | StdLongMonth \<Rightarrow> map_option (\<lambda>(n, r). (p\<lparr>p_month := n\<rparr>, r)) (lookup_name 1 longMonthNames s)
      | StdMonth \<Rightarrow> map_option (\<lambda>(n, r). (p\<lparr>p_month := n\<rparr>, r)) (lookup_name 1 shortMonthNames s)
      | StdZeroMonth \<Rightarrow> map_option (\<lambda>(n, r). (p\<lparr>p_month := n\<rparr>, r)) (in_range 1 12 (getnum True s))
      | StdLongYear \<Rightarrow> map_option (\<lambda>(n, r). (p\<lparr>p_year := n\<rparr>, r)) (parse_year s)
      | StdHour \<Rightarrow> map_option (\<lambda>(n, r). (p\<lparr>p_hour := n\<rparr>, r)) (in_range 0 23 (getnum False s))
      | StdHour12 \<Rightarrow> map_option (\<lambda>(n, r). (p\<lparr>p_hour := n\<rparr>, r)) (in_range 0 12 (getnum False s))
      | StdZeroMinute \<Rightarrow> map_option (\<lambda>(n, r). (p\<lparr>p_min := n\<rparr>, r)) (in_range 0 59 (getnum True s))
      | StdZeroSecond \<Rightarrow>
          map_option (\<lambda>(n, r). (p\<lparr>p_sec := n\<rparr>, skip_fraction r)) (in_range 0 59 (getnum True s))
      | StdPM \<Rightarrow>
          (if take 2 s = ''PM'' then Some (p\<lparr>p_pm := True\<rparr>, drop 2 s)
           else if take 2 s = ''AM'' then Some (p\<lparr>p_am := True\<rparr>, drop 2 s) else None)
      | Stdpm \<Rightarrow>
          (if take 2 s = ''pm'' then Some (p\<lparr>p_pm := True\<rparr>, drop 2 s)
           else if take 2 s = ''am'' then Some (p\<lparr>p_am := True\<rparr>, drop 2 s) else None)
      | StdTZ \<Rightarrow>
          (if take 3 s = ''UTC'' then Some (p\<lparr>p_utc := True\<rparr>, drop 3 s)
           else map_option (\<lambda>n. (p, drop n s)) (parseTimeZone s))
      | StdNumTZ \<Rightarrow> map_option (\<lambda>(z, r). (p\<lparr>p_offset := Some z\<rparr>, r)) (parse_num_zone s))"

fun parse_elements :: "layout_element list \<Rightarrow> parsed \<Rightarrow> string \<Rightarrow> parsed option" where
  "parse_elements [] p s = (if s = [] then Some p else None)"
| "parse_elements (el # els) p s =
     (case parse_element el p s of None \<Rightarrow> None | Some (p', r) \<Rightarrow> parse_elements els p' r)"

definition instant_of :: "parsed \<Rightarrow> int" where
  "instant_of p =
     (let h = (if p_pm p \<and> p_hour p < 12 then p_hour p + 12
               else if p_am p \<and> p_hour p = 12 then 0 else p_hour p);
          t = days_from_civil (p_year p) (p_month p) (p_day p) * 86400 + h * 3600 + p_min p * 60 + p_sec p
      in if p_utc p then t else case p_offset p of None \<Rightarrow> t | Some z \<Rightarrow> t - z)"

definition Parse :: "layout_element list \<Rightarrow> string \<Rightarrow> int option" where
  "Parse layout s =
     (case parse_elements layout parsed_start s of None \<Rightarrow> None
      | Some p \<Rightarrow>
          if p_day p < 1 \<or> days_in (p_month p) (p_year p) < p_day p then None
          else Some (instant_of p))"

end
