(* ===== verification/Dates.thy ===== *)
theory Dates
  imports Go_Time
begin

text \<open>
  \<open>internal/ingest/dates.go\<close>: the timestamps of the two inputs. An empty text is no timestamp; a
  text that no layout accepts is an error.
\<close>

datatype date_error = InvalidPaymentTimestamp string | InvalidSettlementTimestamp string

text \<open>
  The regular expression \<open>GMT([+-])(\d{1,2})$\<close> can match only at the end of the text, where one
  or two digits follow the sign; the hour is padded to two digits and \<open>00\<close> minutes are added.
\<close>

definition gmt_rewrite :: "string \<Rightarrow> string" where
  "gmt_rewrite s =
     (let n = length (takeWhile is_digit (rev s));
          pre = take (length s - n) s;
          hours = drop (length s - n) s
      in if (n = 1 \<or> n = 2) \<and> (take 4 (rev pre) = rev ''GMT+'' \<or> take 4 (rev pre) = rev ''GMT-'')
         then pre @ pad_zeros 2 hours @ ''00'' else s)"

definition clock_layout :: "layout_element \<Rightarrow> layout_element \<Rightarrow> layout_element list" where
  "clock_layout month pm =
     [StdDay, Prefix '' '', month, Prefix '' '', StdLongYear, Prefix '' '', StdHour12, Prefix '':'',
      StdZeroMinute, Prefix '':'', StdZeroSecond, Prefix '' '', pm, Prefix '' '', StdTZ, StdNumTZ]"

definition payment_layouts :: "layout_element list list" where
  "payment_layouts =
     [clock_layout StdLongMonth Stdpm, clock_layout StdLongMonth StdPM,
      clock_layout StdMonth Stdpm, clock_layout StdMonth StdPM]"

definition settlement_layouts :: "layout_element list list" where
  "settlement_layouts =
     [[StdZeroDay, Prefix ''.'', StdZeroMonth, Prefix ''.'', StdLongYear, Prefix '' '', StdHour,
       Prefix '':'', StdZeroMinute, Prefix '':'', StdZeroSecond, Prefix '' UTC''],
      [StdZeroDay, Prefix ''.'', StdZeroMonth, Prefix ''.'', StdLongYear]]"

text \<open>The first layout that accepts the text.\<close>

fun first_layout :: "layout_element list list \<Rightarrow> string \<Rightarrow> int option" where
  "first_layout [] s = None"
| "first_layout (l # ls) s = (case Parse l s of Some t \<Rightarrow> Some t | None \<Rightarrow> first_layout ls s)"

definition parsePaymentDate :: "string \<Rightarrow> date_error + int option" where
  "parsePaymentDate s0 =
     (let s = TrimSpace s0
      in if s = [] then Inr None
         else let s = gmt_rewrite s
              in case first_layout payment_layouts s of Some t \<Rightarrow> Inr (Some t)
                 | None \<Rightarrow> Inl (InvalidPaymentTimestamp s))"

definition parseSettlementDate :: "string \<Rightarrow> date_error + int option" where
  "parseSettlementDate s0 =
     (let s = TrimSpace s0
      in if s = [] then Inr None
         else case first_layout settlement_layouts s of Some t \<Rightarrow> Inr (Some t)
              | None \<Rightarrow> Inl (InvalidSettlementTimestamp s))"

section \<open>Texts with two-digit fields\<close>

definition two :: "nat \<Rightarrow> string" where
  "two n = [digit_char (n div 10), digit_char (n mod 10)]"

definition four :: "nat \<Rightarrow> string" where
  "four n = pad_zeros 4 (dec n)"

lemma is_digit_0 [simp]: "is_digit CHR ''0''"
  by (simp add: is_digit_def)

lemma getnum_Nil [simp]: "getnum f [] = None"
  by (simp add: getnum_def)

lemma getnum_two [simp]: "n < 100 \<Longrightarrow> getnum f (two n @ r) = Some (int n, r)"
  by (auto simp: getnum_def two_def)

lemma getnum_two_Nil [simp]: "n < 100 \<Longrightarrow> getnum f (two n) = Some (int n, [])"
  using getnum_two[of n f "[]"] by simp

lemma dec_value_zeros: "dec_value (replicate k CHR ''0'' @ s) = dec_value s"
proof (induction s rule: rev_induct)
  case Nil
  show ?case
  proof (induction k)
    case (Suc k)
    then show ?case by (simp add: dec_value_def digit_val_def)
  qed simp
next
  case (snoc c s)
  have "dec_value (replicate k CHR ''0'' @ s @ [c]) = 10 * dec_value (replicate k CHR ''0'' @ s) + digit_val c"
    using dec_value_snoc[of "replicate k CHR ''0'' @ s" c] by (simp only: append_assoc)
  with snoc show ?case by simp
qed

lemma parse_year_four [simp]:
  assumes "n < 10000"
  shows "parse_year (four n @ r) = Some (int n, r)"
proof -
  have "length (dec n) \<le> 4" using assms by (intro dec_length_le) simp_all
  then have len: "length (four n) = 4" by (simp add: four_def)
  have "list_all is_digit (four n)" using dec_digits[of n] by (auto simp: four_def list_all_iff)
  with len show ?thesis by (simp add: parse_year_def four_def dec_value_zeros)
qed

lemma parse_year_four_Nil [simp]: "n < 10000 \<Longrightarrow> parse_year (four n) = Some (int n, [])"
  using parse_year_four[of n "[]"] by simp

lemma set_two: "n < 100 \<Longrightarrow> c \<in> set (two n) \<Longrightarrow> is_digit c"
  by (auto simp: two_def)

lemma set_four: "c \<in> set (four n) \<Longrightarrow> is_digit c"
  using dec_digits[of n] by (auto simp: four_def list_all_iff split: if_splits)

lemma pad_two: "n < 100 \<Longrightarrow> pad_zeros 2 (dec n) = two n"
  by (cases "n < 10") (simp_all add: two_def dec_large digit_char_def)

section \<open>Settlement dates\<close>

lemma valid_date_nat: "valid_date (int y) (int m) (int d) \<Longrightarrow> 1 \<le> m \<and> m < 100 \<and> m \<le> 12 \<and> 1 \<le> d \<and> d < 100"
  by (auto simp: valid_date_def days_in_def split: if_splits)

lemma TrimSpace_digits:
  assumes "\<And>c. c \<in> set s \<Longrightarrow> is_digit c \<or> c = CHR ''.''"
  shows "TrimSpace s = s"
proof (rule TrimSpace_printable)
  show "33 \<le> code c \<and> code c < 128" if "c \<in> set s" for c
    using assms[OF that] by (auto simp: is_digit_def)
qed

lemma parseSettlementDate_day:
  assumes "y < 10000" and "valid_date (int y) (int m) (int d)"
  shows "parseSettlementDate (two d @ ''.'' @ two m @ ''.'' @ four y) =
    Inr (Some (days_from_civil (int y) (int m) (int d) * 86400))"
proof -
  let ?s = "two d @ ''.'' @ two m @ ''.'' @ four y"
  have trim: "TrimSpace ?s = ?s"
    by (rule TrimSpace_digits)
      (use valid_date_nat[OF assms(2)] assms(1) in \<open>auto dest: set_two set_four\<close>)
  have ne: "?s \<noteq> []" by (simp add: two_def)
  note v = valid_date_nat[OF assms(2)]
  have 1: "Parse [StdZeroDay, Prefix ''.'', StdZeroMonth, Prefix ''.'', StdLongYear, Prefix '' '', StdHour,
       Prefix '':'', StdZeroMinute, Prefix '':'', StdZeroSecond, Prefix '' UTC''] ?s = None"
    using v assms(1) by (simp add: Parse_def parse_element_def in_range_def)
  have 2: "Parse [StdZeroDay, Prefix ''.'', StdZeroMonth, Prefix ''.'', StdLongYear] ?s =
      Some (days_from_civil (int y) (int m) (int d) * 86400)"
    using v assms
    by (simp add: Parse_def parse_element_def in_range_def valid_date_def parsed_start_def instant_of_def)
  from trim ne 1 2 show ?thesis
    unfolding parseSettlementDate_def settlement_layouts_def Let_def by simp
qed

lemma format_day_midnight:
  assumes "y < 10000" and "valid_date (int y) (int m) (int d)"
  shows "format_day (days_from_civil (int y) (int m) (int d) * 86400) = four y @ ''-'' @ two m @ ''-'' @ two d"
  using valid_date_nat[OF assms(2)] civil_days[OF assms(2)] pad_two[of m] pad_two[of d]
  by (simp add: format_day_def append_int_def four_def)

text \<open>
  C27. A settlement date \<open>DD.MM.YYYY\<close> is read as midnight UTC of that day, for every valid date of
  the years 0 to 9999: the instant is a whole number of days after 1970-01-01 00:00:00 UTC, and
  the calendar date of that day is the one in the text. The date that keys are built from, printed
  from the instant, is the same day as \<open>YYYY-MM-DD\<close>.
\<close>

theorem settlement_date_round_trip:
  assumes "y < 10000" and "valid_date (int y) (int m) (int d)"
  shows "\<exists>t. parseSettlementDate (two d @ ''.'' @ two m @ ''.'' @ four y) = Inr (Some t) \<and>
    t = days_from_civil (int y) (int m) (int d) * 86400 \<and>
    civil_from_days (t div 86400) = (int y, int m, int d) \<and> t mod 86400 = 0 \<and>
    format_day t = four y @ ''-'' @ two m @ ''-'' @ two d"
  using parseSettlementDate_day[OF assms] civil_days[OF assms(2)] format_day_midnight[OF assms] by simp

lemma settlement_date_round_trip_witness:
  "parseSettlementDate ''29.02.2024'' = Inr (Some 1709164800) \<and> format_day 1709164800 = ''2024-02-29''"
proof -
  have "valid_date (int 2024) (int 2) (int 29)" by code_simp
  moreover have "two 29 @ ''.'' @ two 2 @ ''.'' @ four 2024 = ''29.02.2024''"
    "four 2024 @ ''-'' @ two 2 @ ''-'' @ two 29 = ''2024-02-29''"
    "days_from_civil (int 2024) (int 2) (int 29) * 86400 = 1709164800" by code_simp+
  ultimately show ?thesis using settlement_date_round_trip[of 2024 2 29] by simp
qed

section \<open>Payment timestamps\<close>

definition month_name :: "nat \<Rightarrow> string" where
  "month_name m = longMonthNames ! (m - 1)"

definition clock_text :: "nat \<Rightarrow> nat \<Rightarrow> nat \<Rightarrow> nat \<Rightarrow> string \<Rightarrow> string \<Rightarrow> string" where
  "clock_text y hh mi ss ap z =
     CHR '' '' # four y @ CHR '' '' # dec hh @ CHR '':'' # two mi @ CHR '':'' # two ss @
     CHR '' '' # ap @ CHR '' '' # z"

definition payment_text ::
  "nat \<Rightarrow> nat \<Rightarrow> nat \<Rightarrow> nat \<Rightarrow> nat \<Rightarrow> nat \<Rightarrow> string \<Rightarrow> string \<Rightarrow> string" where
  "payment_text d m y hh mi ss ap z = dec d @ CHR '' '' # month_name m @ clock_text y hh mi ss ap z"

definition hour24 :: "string \<Rightarrow> nat \<Rightarrow> nat" where
  "hour24 ap hh = (if ap = ''pm'' then if hh < 12 then hh + 12 else hh else if hh = 12 then 0 else hh)"

definition zone_seconds :: "char \<Rightarrow> nat \<Rightarrow> int" where
  "zone_seconds sg h = (if sg = CHR ''-'' then - (int h * 3600) else int h * 3600)"

lemma cutspace_append: "s \<noteq> [] \<Longrightarrow> hd s \<noteq> CHR '' '' \<Longrightarrow> cutspace (s @ r) = s @ r"
  by (cases s) auto

lemma skip_space: "s \<noteq> [] \<Longrightarrow> hd s \<noteq> CHR '' '' \<Longrightarrow> skip (CHR '' '' # s) '' '' = Some s"
  by (cases s) auto

lemma digit_not_space: "is_digit c \<Longrightarrow> c \<noteq> CHR '' ''"
  by (auto simp: is_digit_def)

lemma hd_dec: "is_digit (hd (dec n @ r))" "dec n @ r \<noteq> []"
  using dec_digits[of n] by (auto simp: list_all_iff hd_append)

lemma hd_four: "is_digit (hd (four n @ r))" "four n @ r \<noteq> []"
  using set_four[of "hd (four n)" n] by (auto simp: four_def hd_append)

lemma getnum_dec [simp]:
  assumes "n < 100" and "\<not> is_digit c"
  shows "getnum False (dec n @ c # r) = Some (int n, c # r)"
proof (cases "n < 10")
  case True
  with assms show ?thesis by (simp add: getnum_def)
next
  case False
  with assms have "dec n = two n" by (simp add: two_def dec_large)
  with assms show ?thesis by simp
qed

definition zone_elements :: "layout_element list" where
  "zone_elements = [StdTZ, StdNumTZ]"

definition clock_tail :: "layout_element \<Rightarrow> layout_element list" where
  "clock_tail pm =
     [Prefix '' '', StdLongYear, Prefix '' '', StdHour12, Prefix '':'', StdZeroMinute, Prefix '':'',
      StdZeroSecond, Prefix '' '', pm, Prefix '' ''] @ zone_elements"

lemma clock_tail_parse:
  assumes "y < 10000" "hh \<le> 12" "mi < 60" "ss < 60" "ap = ''am'' \<or> ap = ''pm''"
    and z: "z \<noteq> []" "hd z \<noteq> CHR '' ''"
  shows "parse_elements (clock_tail Stdpm) p (clock_text y hh mi ss ap z) =
      parse_elements zone_elements
        (p\<lparr>p_year := int y, p_hour := int hh, p_min := int mi, p_sec := int ss,
           p_pm := ap = ''pm'' \<or> p_pm p, p_am := ap = ''am'' \<or> p_am p\<rparr>) z"
    and "parse_elements (clock_tail StdPM) p (clock_text y hh mi ss ap z) = None"
proof -
  have "skip (CHR '' '' # four y @ r) '' '' = Some (four y @ r)" for r
    using hd_four[of y r] digit_not_space by (intro skip_space) auto
  moreover have "skip (CHR '' '' # dec hh @ r) '' '' = Some (dec hh @ r)" for r
    using hd_dec[of hh r] digit_not_space by (intro skip_space) auto
  moreover have "skip (CHR '' '' # z) '' '' = Some z" using z by (rule skip_space)
  moreover have "skip (CHR '' '' # ap @ r) '' '' = Some (ap @ r)" for r
    using assms(5) by (intro skip_space) auto
  moreover have "skip_fraction (CHR '' '' # r) = CHR '' '' # r" for r
    by (simp add: skip_fraction_def)
  moreover have "\<not> is_digit CHR '':''" by (simp add: is_digit_def)
  moreover have "skip (CHR '':'' # r) '':'' = Some r" for r by simp
  ultimately show "parse_elements (clock_tail Stdpm) p (clock_text y hh mi ss ap z) =
      parse_elements zone_elements
        (p\<lparr>p_year := int y, p_hour := int hh, p_min := int mi, p_sec := int ss,
           p_pm := ap = ''pm'' \<or> p_pm p, p_am := ap = ''am'' \<or> p_am p\<rparr>) z"
    and "parse_elements (clock_tail StdPM) p (clock_text y hh mi ss ap z) = None"
    using assms(1-5)
    by (auto simp: clock_tail_def clock_text_def parse_element_def in_range_def simp del: skip.simps)
qed

lemma lookup_name_nth:
  "k < length ns \<Longrightarrow> distinct (map (\<lambda>n. ToLower (take 3 n)) ns) \<Longrightarrow> list_all (\<lambda>n. 3 \<le> length n) ns \<Longrightarrow>
     lookup_name i ns (ns ! k @ r) = Some (i + int k, r)"
proof (induction ns arbitrary: i k)
  case Nil
  then show ?case by simp
next
  case (Cons n ns)
  show ?case
  proof (cases k)
    case 0
    then show ?thesis by simp
  next
    case (Suc j)
    let ?w = "ns ! j"
    have j: "j < length ns" using Suc Cons.prems(1) by simp
    then have w: "?w \<in> set ns" by simp
    have "ToLower (take (length n) (?w @ r)) \<noteq> ToLower n"
    proof
      assume "ToLower (take (length n) (?w @ r)) = ToLower n"
      then have "take 3 (ToLower (take (length n) (?w @ r))) = take 3 (ToLower n)" by simp
      then have "ToLower (take 3 ?w) = ToLower (take 3 n)"
        using Cons.prems(3) w by (auto simp: ToLower_def take_map list_all_iff min_def)
      moreover have "ToLower (take 3 ?w) \<in> (\<lambda>n. ToLower (take 3 n)) ` set ns"
        using w by (rule imageI)
      ultimately show False using Cons.prems(2) by simp
    qed
    with Suc Cons.IH[OF j, of "i + 1"] Cons.prems show ?thesis by auto
  qed
qed

lemma month_tables:
  "distinct (map (\<lambda>n. ToLower (take 3 n)) longMonthNames)"
  "distinct (map (\<lambda>n. ToLower (take 3 n)) shortMonthNames)"
  "list_all (\<lambda>n. 3 \<le> length n) longMonthNames" "list_all (\<lambda>n. 3 \<le> length n) shortMonthNames"
  "list_all (\<lambda>n. hd n \<noteq> CHR '' '' \<and> (drop 3 n = [] \<or> hd (drop 3 n) \<noteq> CHR '' '')) longMonthNames"
  "length longMonthNames = 12" "length shortMonthNames = 12"
  by code_simp+

lemma month_lookups:
  assumes "1 \<le> m" "m \<le> 12"
  shows "lookup_name 1 longMonthNames (month_name m @ r) = Some (int m, r)"
    and "lookup_name 1 shortMonthNames (month_name m @ r) = Some (int m, drop 3 (month_name m) @ r)"
    and "month_name m \<noteq> []" "hd (month_name m) \<noteq> CHR '' ''"
    and "drop 3 (month_name m) = [] \<or> hd (drop 3 (month_name m)) \<noteq> CHR '' ''"
proof -
  have k: "m - 1 < length longMonthNames" "m - 1 < length shortMonthNames" "1 + int (m - 1) = int m"
    using assms by (simp_all add: month_tables)
  then have mem: "month_name m \<in> set longMonthNames" by (simp add: month_name_def)
  have short: "shortMonthNames ! (m - 1) = take 3 (month_name m)"
    using k by (simp add: shortMonthNames_def month_name_def)
  show "lookup_name 1 longMonthNames (month_name m @ r) = Some (int m, r)"
    using lookup_name_nth[OF k(1) month_tables(1,3), of 1 r] k(3) by (simp add: month_name_def)
  have "month_name m @ r = shortMonthNames ! (m - 1) @ (drop 3 (month_name m) @ r)"
    unfolding short by (simp flip: append_assoc)
  then show "lookup_name 1 shortMonthNames (month_name m @ r) = Some (int m, drop 3 (month_name m) @ r)"
    using lookup_name_nth[OF k(2) month_tables(2,4), of 1 "drop 3 (month_name m) @ r"]
    unfolding k(3) by (simp only:)
  show "month_name m \<noteq> []" "hd (month_name m) \<noteq> CHR '' ''"
    "drop 3 (month_name m) = [] \<or> hd (drop 3 (month_name m)) \<noteq> CHR '' ''"
    using mem month_tables(3,5) by (auto simp: list_all_iff)
qed

text \<open>The zone: a whole number of hours after \<open>GMT\<close>, with the minutes the program appends.\<close>

lemma signed_offset_zone:
  assumes "h < 100" "sg = CHR ''+'' \<or> sg = CHR ''-''"
  shows "signed_offset (sg # two h @ ''00'') = (if h = 0 then 5 else 0)"
proof -
  have digits: "takeWhile is_digit (two h @ ''00'') = two h @ ''00''"
    using set_two[OF assms(1)] by (simp add: takeWhile_append2)
  have "dec_value (two h @ ''00'') = 100 * h"
  proof -
    have "dec_value (two h) = h"
      using assms(1) by (simp add: two_def dec_value_def)
    then have "dec_value (two h @ [CHR ''0'']) = 10 * h" by (simp add: digit_val_def del: append_Cons)
    then show ?thesis using dec_value_snoc[of "two h @ [CHR ''0'']" "CHR ''0''"] by (simp add: digit_val_def)
  qed
  with digits assms show ?thesis by (auto simp: signed_offset_def two_def)
qed

lemma zone_parse:
  assumes "h \<le> 24" "sg = CHR ''+'' \<or> sg = CHR ''-''"
  shows "parse_elements zone_elements p (''GMT'' @ sg # two h @ ''00'') =
    (if h = 0 then None else Some (p\<lparr>p_offset := Some (zone_seconds sg h)\<rparr>))"
proof -
  have tz: "parseTimeZone (''GMT'' @ sg # two h @ ''00'') = Some (3 + (if h = 0 then 5 else 0))"
    using signed_offset_zone[of h sg] assms by (simp add: parseTimeZone_def)
  obtain a b where ab: "two h = [a, b]" "getnum True [a, b] = Some (int h, [])"
    using getnum_two_Nil[of h True] assms(1) by (simp add: two_def)
  have "getnum True ''00'' = Some (0, [])" by (simp add: getnum_def digit_val_def)
  then have "parse_num_zone (sg # two h @ ''00'') = Some (zone_seconds sg h, [])"
    using assms by (auto simp: parse_num_zone_def zone_seconds_def ab)
  with tz ab(1) show ?thesis
    by (cases "h = 0") (simp_all add: zone_elements_def parse_element_def parse_num_zone_def[of "[]"])
qed

lemma clock_layout_parse:
  assumes "1 \<le> d" "d < 100" "1 \<le> m" "m \<le> 12" "y < 10000" "hh \<le> 12" "mi < 60" "ss < 60"
    and "ap = ''am'' \<or> ap = ''pm''" "h \<le> 24" "sg = CHR ''+'' \<or> sg = CHR ''-''"
  defines "s \<equiv> payment_text d m y hh mi ss ap (''GMT'' @ sg # two h @ ''00'')"
  shows "h \<noteq> 0 \<Longrightarrow> parse_elements (clock_layout StdLongMonth Stdpm) parsed_start s = Some
      \<lparr>p_year = int y, p_month = int m, p_day = int d, p_hour = int hh, p_min = int mi, p_sec = int ss,
       p_pm = ap = ''pm'', p_am = ap = ''am'', p_utc = False, p_offset = Some (zone_seconds sg h)\<rparr>"
    and "h = 0 \<Longrightarrow> list_all (\<lambda>l. parse_elements l parsed_start s = None) payment_layouts"
proof -
  define z where "z = ''GMT'' @ sg # two h @ ''00''"
  have z: "z \<noteq> []" "hd z \<noteq> CHR '' ''" by (simp_all add: z_def)
  have layout: "clock_layout mon pm = [StdDay, Prefix '' '', mon] @ clock_tail pm" for mon pm
    by (simp add: clock_layout_def clock_tail_def zone_elements_def)
  have space: "\<not> is_digit CHR '' ''" by (simp add: is_digit_def)
  have name: "skip (CHR '' '' # month_name m @ r) '' '' = Some (month_name m @ r)" for r
    using month_lookups(3,4)[OF assms(3,4)] by (intro skip_space) auto
  have tail: "parse_elements (clock_tail Stdpm) p (clock_text y hh mi ss ap z) =
      (if h = 0 then None else Some
        (p\<lparr>p_year := int y, p_hour := int hh, p_min := int mi, p_sec := int ss,
           p_pm := ap = ''pm'' \<or> p_pm p, p_am := ap = ''am'' \<or> p_am p,
           p_offset := Some (zone_seconds sg h)\<rparr>))"
    and tail_PM: "parse_elements (clock_tail StdPM) p (clock_text y hh mi ss ap z) = None" for p
    using clock_tail_parse[OF assms(5-9) z, of p] zone_parse[OF assms(10,11), folded z_def] by simp_all
  have long: "parse_elements (clock_layout StdLongMonth pm) parsed_start s =
      parse_elements (clock_tail pm) (parsed_start\<lparr>p_day := int d, p_month := int m\<rparr>)
        (clock_text y hh mi ss ap z)" for pm
    unfolding layout s_def z_def[symmetric] payment_text_def using assms(2) space name month_lookups(1)[OF assms(3,4)]
    by (simp add: parse_element_def del: skip.simps)
  have short: "parse_elements (clock_layout StdMonth pm) parsed_start s =
      parse_elements (clock_tail pm) (parsed_start\<lparr>p_day := int d, p_month := int m\<rparr>)
        (drop 3 (month_name m) @ clock_text y hh mi ss ap z)" for pm
    unfolding layout s_def z_def[symmetric] payment_text_def using assms(2) space name month_lookups(2)[OF assms(3,4)]
    by (simp add: parse_element_def del: skip.simps)
  have rest: "parse_elements (clock_tail pm) p (w @ r) = None" if "w \<noteq> []" "hd w \<noteq> CHR '' ''" for pm p w r
    using that by (cases w) (simp_all add: clock_tail_def parse_element_def)
  show "h \<noteq> 0 \<Longrightarrow> parse_elements (clock_layout StdLongMonth Stdpm) parsed_start s = Some
      \<lparr>p_year = int y, p_month = int m, p_day = int d, p_hour = int hh, p_min = int mi, p_sec = int ss,
       p_pm = ap = ''pm'', p_am = ap = ''am'', p_utc = False, p_offset = Some (zone_seconds sg h)\<rparr>"
    unfolding long tail by (simp add: parsed_start_def)
  show "h = 0 \<Longrightarrow> list_all (\<lambda>l. parse_elements l parsed_start s = None) payment_layouts"
    using month_lookups(5)[OF assms(3,4)]
    by (cases "drop 3 (month_name m) = []")
      (simp_all add: payment_layouts_def long short tail tail_PM rest del: drop_eq_Nil)
qed

lemma gmt_rewrite_hours:
  assumes "h < 100" "sg = CHR ''+'' \<or> sg = CHR ''-''"
  shows "gmt_rewrite (p @ ''GMT'' @ sg # dec h) = p @ ''GMT'' @ sg # two h @ ''00''"
proof -
  let ?s = "p @ ''GMT'' @ sg # dec h"
  have nd: "\<not> is_digit sg" using assms(2) by (auto simp: is_digit_def)
  have "takeWhile is_digit (rev (dec h) @ sg # rev (p @ ''GMT'')) = rev (dec h)"
    using nd dec_digits[of h] by (intro takeWhile_append2[THEN trans]) (auto simp: list_all_iff)
  then have n: "length (takeWhile is_digit (rev ?s)) = length (dec h)" by simp
  have len: "length (dec h) = 1 \<or> length (dec h) = 2"
  proof -
    have "length (dec h) \<le> 2" using assms(1) by (intro dec_length_le) simp_all
    moreover have "0 < length (dec h)" by simp
    ultimately show ?thesis by linarith
  qed
  have "take (length ?s - length (dec h)) ?s = p @ ''GMT'' @ [sg]"
    "drop (length ?s - length (dec h)) ?s = dec h" by simp_all
  with n len assms pad_two[OF assms(1)] show ?thesis
    unfolding gmt_rewrite_def Let_def n by (auto simp del: pad_zeros.simps)
qed

lemma TrimSpace_payment_text:
  "TrimSpace (payment_text d m y hh mi ss ap (z @ dec h)) = payment_text d m y hh mi ss ap (z @ dec h)"
proof (rule TrimSpace_id)
  have digit: "\<not> ascii_space (code c) \<and> code c < 128" if "is_digit c" for c
    using that by (auto simp: is_digit_def ascii_space_def)
  let ?s = "payment_text d m y hh mi ss ap (z @ dec h)"
  obtain c r where c: "dec d = c # r" "is_digit c"
    using dec_nonempty[of d] dec_digits[of d] by (cases "dec d") auto
  show "space_bytes ?s = 0"
    using digit[OF c(2)] by (simp add: payment_text_def c(1))
  obtain e t where e: "rev (dec h) = e # t" by (cases "rev (dec h)") simp_all
  then have "e \<in> set (dec h)" by (metis list.set_intros(1) set_rev)
  then have "is_digit e" using dec_digits[of h] by (simp add: list_all_iff)
  show "space_bytes_rev (rev ?s) = 0"
    using digit[OF \<open>is_digit e\<close>] by (simp add: payment_text_def clock_text_def e)
qed

text \<open>
  C28. Payment timestamps as the report prints them, day, English month name, year, twelve-hour
  clock, and \<open>GMT\<close> with a signed number of hours, are read as the right instant for every valid
  date of the years 0 to 9999 and every clock time; except that an offset of zero hours is
  refused: the program appends the minutes and \<open>time.Parse\<close> then takes the whole of \<open>GMT+0000\<close>
  as the zone name and finds no numeric offset after it.
\<close>

theorem payment_timestamp_read:
  assumes "valid_date (int y) (int m) (int d)" "y < 10000"
    and "hh \<le> 12" "mi < 60" "ss < 60" "ap = ''am'' \<or> ap = ''pm''"
    and "h \<le> 24" "sg = CHR ''+'' \<or> sg = CHR ''-''"
  shows "map_sum (\<lambda>_. ()) id
      (parsePaymentDate (payment_text d m y hh mi ss ap (''GMT'' @ sg # dec h))) =
    (if h = 0 then Inl ()
     else Inr (Some (days_from_civil (int y) (int m) (int d) * 86400 + int (hour24 ap hh) * 3600 +
            int mi * 60 + int ss - zone_seconds sg h)))"
proof -
  let ?raw = "payment_text d m y hh mi ss ap (''GMT'' @ sg # dec h)"
  let ?s = "payment_text d m y hh mi ss ap (''GMT'' @ sg # two h @ ''00'')"
  let ?t = "days_from_civil (int y) (int m) (int d) * 86400 + int (hour24 ap hh) * 3600 +
            int mi * 60 + int ss - zone_seconds sg h"
  note v = valid_date_nat[OF assms(1)]
  have trim: "TrimSpace ?raw = ?raw"
    using TrimSpace_payment_text[of d m y hh mi ss ap "''GMT'' @ [sg]" h] by simp
  have ne: "?raw \<noteq> []" by (simp add: payment_text_def)
  have gmt: "gmt_rewrite ?raw = ?s"
    using gmt_rewrite_hours[of h sg "dec d @ CHR '' '' # month_name m @ CHR '' '' # four y @
        CHR '' '' # dec hh @ CHR '':'' # two mi @ CHR '':'' # two ss @ CHR '' '' # ap @ '' ''"] assms(7,8)
    by (simp add: payment_text_def clock_text_def)
  have run: "parsePaymentDate ?raw = (case first_layout payment_layouts ?s of
      Some t \<Rightarrow> Inr (Some t) | None \<Rightarrow> Inl (InvalidPaymentTimestamp ?s))"
    using ne unfolding parsePaymentDate_def Let_def trim gmt by (simp only: if_False)
  have in_month: "\<not> (int d < 1 \<or> days_in (int m) (int y) < int d)"
    using assms(1) by (simp add: valid_date_def)
  note parse = clock_layout_parse[of d m y hh mi ss ap h sg] v assms
  show ?thesis
  proof (cases "h = 0")
    case True
    with parse have "list_all (\<lambda>l. parse_elements l parsed_start ?s = None) payment_layouts" by simp
    then have "first_layout payment_layouts ?s = None"
      by (simp add: payment_layouts_def Parse_def)
    with run True show ?thesis by simp
  next
    case False
    with parse have "parse_elements (clock_layout StdLongMonth Stdpm) parsed_start ?s = Some
      \<lparr>p_year = int y, p_month = int m, p_day = int d, p_hour = int hh, p_min = int mi, p_sec = int ss,
       p_pm = ap = ''pm'', p_am = ap = ''am'', p_utc = False, p_offset = Some (zone_seconds sg h)\<rparr>"
      by simp
    then have "Parse (clock_layout StdLongMonth Stdpm) ?s = Some ?t"
      using in_month assms(3,6) by (auto simp: Parse_def instant_of_def hour24_def)
    then have "first_layout payment_layouts ?s = Some ?t" by (simp add: payment_layouts_def)
    with run False show ?thesis by simp
  qed
qed

lemma payment_timestamp_read_witness:
  "map_sum (\<lambda>_. ()) id (parsePaymentDate ''5 August 2025 11:30:05 pm GMT+0'') = Inl () \<and>
   map_sum (\<lambda>_. ()) id (parsePaymentDate ''5 August 2025 11:30:05 pm GMT+10'') = Inr (Some 1754400605)"
proof -
  have d: "valid_date (int 2025) (int 8) (int 5)" by code_simp
  have s: "payment_text 5 8 2025 11 30 5 ''pm'' (''GMT'' @ CHR ''+'' # dec 0) = ''5 August 2025 11:30:05 pm GMT+0''"
    "payment_text 5 8 2025 11 30 5 ''pm'' (''GMT'' @ CHR ''+'' # dec 10) = ''5 August 2025 11:30:05 pm GMT+10''"
    by code_simp+
  have t: "days_from_civil (int 2025) (int 8) (int 5) * 86400 + int (hour24 ''pm'' 11) * 3600 +
            int 30 * 60 + int 5 - zone_seconds CHR ''+'' 10 = 1754400605" by code_simp
  show ?thesis
    using payment_timestamp_read[OF d, of 11 30 5 "''pm''" 0 "CHR ''+''"]
      payment_timestamp_read[OF d, of 11 30 5 "''pm''" 10 "CHR ''+''"]
    unfolding s t by simp
qed

end
