(* ===== verification/Ingest.thy ===== *)
theory Ingest
  imports Dates Normalize Mapping_Config
begin

text \<open>
  \<open>internal/ingest/parser.go\<close>: the two input files become rows. The file system is a parameter:
  opening a path yields its size, its hash, whether it starts with a byte order mark, and the
  records the CSV reader returns for the delimiter of the file, with the byte offsets before and
  after each. The JSON copies of the payloads are functions of the two maps and are not kept.
\<close>

section \<open>Files and records\<close>

record input_file =
  file_size :: int
  file_hash :: string
  file_bom :: bool
  file_records :: csv_stream

type_synonym input_fs = "string \<Rightarrow> io_error + input_file"

record file_info =
  info_Path :: string
  info_SHA256 :: string
  info_Bytes :: int

definition maxInputBytes :: int where
  "maxInputBytes = 100 * 2 ^ 20"

definition maxRecordBytes :: int where
  "maxRecordBytes = 2 ^ 20"

definition maxInputRows :: int where
  "maxInputRows = 5000000"

datatype record_error = RecordTooLong int | InvalidUTF8 int

datatype ingest_error =
    InputOpen io_error
  | InputTooLarge string int
  | HeaderRead int csv_error
  | HeaderCandidate int record_error
  | HeaderNotFound
  | InputDuplicateHeader string
  | TooManyRows
  | InputRecord int csv_error
  | InputWidth int
  | InputRecordError int record_error
  | InputDate int date_error
  | InputAmount int string money_error
  | ComponentTotal int money_error
  | ComponentMismatch int string string
  | NoPostedTimestamp int
  | NoReleaseDate int
  | UnsupportedStatus int string
  | NoTypeOrTotal int
  | TransactionNoAmount int
  | MetadataHasAmount int
  | DatesDisagree int string string
  | TransactionNoDate int
  | MetadataNoIdentity int
  | TransactionNoSettlement int
  | DuplicateMetadata string
  | NoMetadata int string
  | CurrencyConflict int string string

text \<open>\<open>utf8.ValidString\<close>\<close>

definition utf8_cont :: "char \<Rightarrow> bool" where
  "utf8_cont c \<longleftrightarrow> 128 \<le> code c \<and> code c \<le> 191"

fun valid_utf8 :: "string \<Rightarrow> bool" where
  "valid_utf8 [] = True"
| "valid_utf8 (a # s) =
     (let x = code a
      in if x < 128 then valid_utf8 s
         else case s of [] \<Rightarrow> False
         | b # t \<Rightarrow>
             if 194 \<le> x \<and> x \<le> 223 then utf8_cont b \<and> valid_utf8 t
             else case t of [] \<Rightarrow> False
             | c # u \<Rightarrow>
                 if 224 \<le> x \<and> x \<le> 239
                 then utf8_cont b \<and> utf8_cont c \<and> (x = 224 \<longrightarrow> 160 \<le> code b) \<and>
                      (x = 237 \<longrightarrow> code b \<le> 159) \<and> valid_utf8 u
                 else case u of [] \<Rightarrow> False
                 | d # v \<Rightarrow>
                     240 \<le> x \<and> x \<le> 244 \<and> utf8_cont b \<and> utf8_cont c \<and> utf8_cont d \<and>
                     (x = 240 \<longrightarrow> 144 \<le> code b) \<and> (x = 244 \<longrightarrow> code b \<le> 143) \<and> valid_utf8 v)"

fun first_invalid :: "int \<Rightarrow> string list \<Rightarrow> int option" where
  "first_invalid i [] = None"
| "first_invalid i (v # vs) = (if valid_utf8 v then first_invalid (i + 1) vs else Some (i + 1))"

definition validateRecord :: "string list \<Rightarrow> int \<Rightarrow> record_error option" where
  "validateRecord vals bytes =
     (if maxRecordBytes < bytes then Some (RecordTooLong bytes)
      else map_option InvalidUTF8 (first_invalid 0 vals))"

definition open_input :: "input_fs \<Rightarrow> string \<Rightarrow> ingest_error + input_file \<times> file_info" where
  "open_input fs path =
     (case fs path of Inl e \<Rightarrow> Inl (InputOpen e)
      | Inr f \<Rightarrow>
          if maxInputBytes < file_size f then Inl (InputTooLarge path (file_size f))
          else Inr (f, \<lparr>info_Path = path, info_SHA256 = file_hash f, info_Bytes = file_size f\<rparr>))"

definition byte_base :: "input_file \<Rightarrow> int" where
  "byte_base f = (if file_bom f then 3 else 0)"

fun readHeader ::
  "string list \<Rightarrow> nat \<Rightarrow> int \<Rightarrow> csv_stream \<Rightarrow> ingest_error + string list \<times> csv_stream" where
  "readHeader required limit line [] =
     (if limit = 0 then Inl HeaderNotFound else Inl (HeaderRead line ErrEOF))"
| "readHeader required limit line (r # rest) =
     (if limit = 0 then Inl HeaderNotFound
      else case r of Inl e \<Rightarrow> Inl (HeaderRead line e)
      | Inr rec \<Rightarrow>
     (case validateRecord (csv_fields rec) (csv_after rec - csv_before rec) of
        Some e \<Rightarrow> Inl (HeaderCandidate line e)
      | None \<Rightarrow>
          if list_all (\<lambda>req. req \<in> set (map Header (csv_fields rec))) required
          then Inr (csv_fields rec, rest)
          else readHeader required (limit - 1) (line + 1) rest))"

fun canon_headers :: "string list \<Rightarrow> string list \<Rightarrow> ingest_error + string list" where
  "canon_headers seen [] = Inr []"
| "canon_headers seen (h # hs) =
     (if Header h \<in> set seen then Inl (InputDuplicateHeader h)
      else case canon_headers (Header h # seen) hs of Inl e \<Rightarrow> Inl e
           | Inr cs \<Rightarrow> Inr (Header h # cs))"

text \<open>\<open>lineRange\<close>: the last field may itself span lines.\<close>

definition lineRange :: "csv_record \<Rightarrow> int \<times> int" where
  "lineRange rec =
     (csv_line rec,
      csv_last_line rec + int (length (filter (\<lambda>c. c = CHR 0x0A) (last (csv_fields rec)))))"

definition raw_map :: "string list \<Rightarrow> string list \<Rightarrow> strmap" where
  "raw_map headers vals = map_of (rev (zip headers vals))"

definition canonical_map :: "string list \<Rightarrow> string list \<Rightarrow> strmap" where
  "canonical_map canon vals = map_of (rev (zip canon (map TrimSpace vals)))"

lemma canonical_map_code [code]:
  "canonical_map canon vals k = map_option TrimSpace (map_of (rev (zip canon vals)) k)"
proof -
  have "rev (zip canon (map TrimSpace vals)) = map (\<lambda>(k, v). (k, TrimSpace v)) (rev (zip canon vals))"
    by (simp add: zip_map2 rev_map)
  then show ?thesis by (simp add: canonical_map_def map_of_map)
qed

text \<open>The checks that both loops make on a record before they interpret it.\<close>

definition check_record :: "nat \<Rightarrow> int \<Rightarrow> csv_record \<Rightarrow> ingest_error option" where
  "check_record width ordinal rec =
     (if length (csv_fields rec) \<noteq> width then Some (InputWidth ordinal)
      else map_option (InputRecordError ordinal)
             (validateRecord (csv_fields rec) (csv_after rec - csv_before rec)))"

text \<open>The loop over the records: the row limit is checked before a record is read.\<close>

fun read_rows ::
  "(int \<Rightarrow> csv_record \<Rightarrow> ingest_error + raw_row) \<Rightarrow> int \<Rightarrow> csv_stream \<Rightarrow> ingest_error + raw_row list"
where
  "read_rows f ordinal [] = (if maxInputRows < ordinal then Inl TooManyRows else Inr [])"
| "read_rows f ordinal (r # st) =
     (if maxInputRows < ordinal then Inl TooManyRows
      else case r of Inl e \<Rightarrow> Inl (InputRecord ordinal e)
      | Inr rec \<Rightarrow> (case f ordinal rec of Inl e \<Rightarrow> Inl e
      | Inr row \<Rightarrow> (case read_rows f (ordinal + 1) st of Inl e \<Rightarrow> Inl e
                   | Inr rows \<Rightarrow> Inr (row # rows))))"

section \<open>Payments\<close>

definition payment_required :: "string list" where
  "payment_required =
     [''date/time'', ''transaction_release_date'', ''settlement_id'', ''type'', ''description'',
      ''order_id'', ''sku'', ''total'', ''transaction_status'', ''product_sales'',
      ''shipping_credits'', ''gift_wrap_credits'', ''promotional_rebates'',
      ''sales_tax_collected'', ''low_value_goods'', ''selling_fees'',
      ''fulfilment_by_amazon_fees'', ''other_transaction_fees'', ''other'']"

definition component_fields :: "string list" where
  "component_fields =
     [''product_sales'', ''shipping_credits'', ''gift_wrap_credits'', ''promotional_rebates'',
      ''sales_tax_collected'', ''low_value_goods'', ''selling_fees'',
      ''fulfilment_by_amazon_fees'', ''other_transaction_fees'', ''other'']"

definition add_component :: "strmap \<Rightarrow> int \<Rightarrow> string \<Rightarrow> int64 \<Rightarrow> ingest_error + int64" where
  "add_component canonical line field acc =
     (case ParseCents (sget canonical field) of Inl e \<Rightarrow> Inl (InputAmount line field e)
      | Inr amount \<Rightarrow> (case Add acc amount of Inl e \<Rightarrow> Inl (ComponentTotal line e)
                      | Inr s \<Rightarrow> Inr s))"

definition validatePaymentComponents :: "strmap \<Rightarrow> int64 \<Rightarrow> int \<Rightarrow> ingest_error option" where
  "validatePaymentComponents canonical tot line =
     (if list_ex (\<lambda>f. canonical f = None) component_fields then None
      else case foldE (add_component canonical line) component_fields 0 of Inl e \<Rightarrow> Some e
      | Inr s \<Rightarrow>
          if s \<noteq> tot then Some (ComponentMismatch line (FormatCents s) (FormatCents tot))
          else None)"

definition payment_status :: "raw_row \<Rightarrow> int \<Rightarrow> int option \<Rightarrow> ingest_error + raw_row" where
  "payment_status row posted release =
     (if EqualFold (row_Status row) ''Released'' then
        (case release of None \<Rightarrow> Inl (NoReleaseDate (row_LineStart row))
         | Some r \<Rightarrow> Inr (row\<lparr>row_KeyDate := format_day r\<rparr>))
      else if EqualFold (row_Status row) ''Deferred'' then Inr (row\<lparr>row_KeyDate := format_day posted\<rparr>)
      else Inl (UnsupportedStatus (row_LineStart row) (row_Status row)))"

definition payment_fields ::
  "strmap \<Rightarrow> strmap \<Rightarrow> int \<Rightarrow> int \<Rightarrow> csv_record \<Rightarrow> int64 \<Rightarrow> int option \<Rightarrow> int option \<Rightarrow> raw_row" where
  "payment_fields raw cp ordinal base rec tot posted release =
     \<lparr>row_Source = SourcePayment, row_Kind = RowTransaction, row_Ordinal = ordinal,
      row_LineStart = fst (lineRange rec), row_LineEnd = snd (lineRange rec),
      row_ByteStart = base + csv_before rec, row_ByteEnd = base + csv_after rec,
      row_Raw = raw, row_Canonical = cp, row_SettlementID = sget cp ''settlement_id'',
      row_Currency = ''AUD'', row_Transaction = sget cp ''type'',
      row_Description = sget cp ''description'', row_AmountType = [], row_AmountDesc = [],
      row_SKU = sget cp ''sku'', row_TxnRef = sget cp ''order_id'', row_PostedAt = posted,
      row_ReleaseAt = release, row_KeyDate = [], row_Status = sget cp ''transaction_status'',
      row_ReconAmount = tot, row_HasRecon = True, row_Scope = ScopeNone,
      row_EventClass = ''OPERATING''\<rparr>"

definition payment_row ::
  "string list \<Rightarrow> string list \<Rightarrow> int \<Rightarrow> int \<Rightarrow> csv_record \<Rightarrow> ingest_error + raw_row" where
  "payment_row headers canon base ordinal rec =
     (case check_record (length headers) ordinal rec of Some e \<Rightarrow> Inl e
      | None \<Rightarrow>
     (let line = fst (lineRange rec);
          raw = raw_map headers (csv_fields rec);
          cp = canonical_map canon (csv_fields rec)
      in case parsePaymentDate (sget cp ''date/time'') of Inl e \<Rightarrow> Inl (InputDate line e)
      | Inr posted \<Rightarrow>
     (case parsePaymentDate (sget cp ''transaction_release_date'') of Inl e \<Rightarrow> Inl (InputDate line e)
      | Inr release \<Rightarrow>
     (case ParseCents (sget cp ''total'') of Inl e \<Rightarrow> Inl (InputAmount line ''total'' e)
      | Inr tot \<Rightarrow>
     (case validatePaymentComponents cp tot line of Some e \<Rightarrow> Inl e
      | None \<Rightarrow>
     (case posted of None \<Rightarrow> Inl (NoPostedTimestamp line)
      | Some p \<Rightarrow>
     (case payment_status (payment_fields raw cp ordinal base rec tot posted release) p release of
        Inl e \<Rightarrow> Inl e
      | Inr row \<Rightarrow>
          Inr (if Label (row_Transaction row) = ''TRANSFER''
               then row\<lparr>row_EventClass := ''BANK_TRANSFER''\<rparr> else row))))))))"

definition ParsePayments :: "input_fs \<Rightarrow> string \<Rightarrow> ingest_error + raw_row list \<times> file_info" where
  "ParsePayments fs path =
     (case open_input fs path of Inl e \<Rightarrow> Inl e
      | Inr (f, info) \<Rightarrow>
     (case readHeader payment_required 21 1 (file_records f) of Inl e \<Rightarrow> Inl e
      | Inr (headers, rest) \<Rightarrow>
     (case canon_headers [] headers of Inl e \<Rightarrow> Inl e
      | Inr canon \<Rightarrow>
     (case read_rows (payment_row headers canon (byte_base f)) 1 rest of Inl e \<Rightarrow> Inl e
      | Inr rows \<Rightarrow> Inr (rows, info)))))"

section \<open>Settlements\<close>

definition settlement_required :: "string list" where
  "settlement_required =
     [''settlement_id'', ''transaction_type'', ''amount'', ''amount_type'', ''amount_description'',
      ''posted_date'', ''posted_date_time'', ''currency'', ''total_amount'', ''order_id'',
      ''adjustment_id'', ''sku'', ''shipment_id'', ''merchant_order_id'']"

definition settlement_kind :: "strmap \<Rightarrow> int \<Rightarrow> ingest_error + row_kind" where
  "settlement_kind cp line =
     (if sget cp ''transaction_type'' = [] \<and> sget cp ''total_amount'' \<noteq> [] then Inr RowMetadata
      else if sget cp ''transaction_type'' = [] then Inl (NoTypeOrTotal line)
      else Inr RowTransaction)"

definition settlement_amount :: "strmap \<Rightarrow> row_kind \<Rightarrow> int \<Rightarrow> ingest_error + int64" where
  "settlement_amount cp kind line =
     (let amountText = sget cp ''amount''; has = (amountText \<noteq> [])
      in if kind = RowTransaction \<and> \<not> has then Inl (TransactionNoAmount line)
         else if kind = RowMetadata \<and> has then Inl (MetadataHasAmount line)
         else if has then
           (case ParseCents amountText of Inl e \<Rightarrow> Inl (InputAmount line ''amount'' e) | Inr a \<Rightarrow> Inr a)
         else Inr 0)"

text \<open>The two dates of a settlement row, which must name the same UTC day.\<close>

definition settlement_dates ::
  "strmap \<Rightarrow> row_kind \<Rightarrow> int \<Rightarrow> ingest_error + int option \<times> int option" where
  "settlement_dates cp kind line =
     (case parseSettlementDate (sget cp ''posted_date_time'') of Inl e \<Rightarrow> Inl (InputDate line e)
      | Inr postedTime \<Rightarrow>
     (case parseSettlementDate (sget cp ''posted_date'') of Inl e \<Rightarrow> Inl (InputDate line e)
      | Inr postedDate \<Rightarrow>
     (if postedTime \<noteq> None \<and> postedDate \<noteq> None \<and>
         format_day (the postedTime) \<noteq> format_day (the postedDate)
      then Inl (DatesDisagree line (format_day (the postedDate)) (format_day (the postedTime)))
      else if kind = RowTransaction \<and> postedDate = None then Inl (TransactionNoDate line)
      else Inr (if postedTime = None then postedDate else postedTime, postedDate))))"

definition settlement_fields ::
  "strmap \<Rightarrow> strmap \<Rightarrow> row_kind \<Rightarrow> int \<Rightarrow> int \<Rightarrow> csv_record \<Rightarrow> int64 \<Rightarrow> int option \<Rightarrow> raw_row" where
  "settlement_fields raw cp kind ordinal base rec amount posted =
     \<lparr>row_Source = SourceSettlement, row_Kind = kind, row_Ordinal = ordinal,
      row_LineStart = fst (lineRange rec), row_LineEnd = snd (lineRange rec),
      row_ByteStart = base + csv_before rec, row_ByteEnd = base + csv_after rec,
      row_Raw = raw, row_Canonical = cp, row_SettlementID = sget cp ''settlement_id'',
      row_Currency = sget cp ''currency'', row_Transaction = sget cp ''transaction_type'',
      row_Description = sget cp ''amount_description'', row_AmountType = sget cp ''amount_type'',
      row_AmountDesc = sget cp ''amount_description'', row_SKU = sget cp ''sku'',
      row_TxnRef = (if sget cp ''order_id'' = [] then sget cp ''adjustment_id'' else sget cp ''order_id''),
      row_PostedAt = posted, row_ReleaseAt = None, row_KeyDate = [], row_Status = [],
      row_ReconAmount = amount, row_HasRecon = (sget cp ''amount'' \<noteq> []), row_Scope = ScopeMetadata,
      row_EventClass = ''OPERATING''\<rparr>"

definition settlement_finish :: "strmap \<Rightarrow> int option \<Rightarrow> raw_row \<Rightarrow> ingest_error + raw_row" where
  "settlement_finish cp postedDate row =
     (if row_Kind row = RowMetadata then
        if row_SettlementID row = [] \<or> row_Currency row = []
        then Inl (MetadataNoIdentity (row_LineStart row))
        else case ParseCents (sget cp ''total_amount'') of
               Inl e \<Rightarrow> Inl (InputAmount (row_LineStart row) ''total amount'' e)
             | Inr tot \<Rightarrow>
                 Inr (row\<lparr>row_EventClass := ''CONTROL'', row_ReconAmount := tot, row_HasRecon := True\<rparr>)
      else if row_SettlementID row = [] then Inl (TransactionNoSettlement (row_LineStart row))
      else Inr (row\<lparr>row_KeyDate := format_day (the postedDate)\<rparr>))"

definition settlement_row ::
  "string list \<Rightarrow> string list \<Rightarrow> int \<Rightarrow> int \<Rightarrow> csv_record \<Rightarrow> ingest_error + raw_row" where
  "settlement_row headers canon base ordinal rec =
     (case check_record (length headers) ordinal rec of Some e \<Rightarrow> Inl e
      | None \<Rightarrow>
     (let line = fst (lineRange rec);
          raw = raw_map headers (csv_fields rec);
          cp = canonical_map canon (csv_fields rec)
      in case settlement_kind cp line of Inl e \<Rightarrow> Inl e
      | Inr kind \<Rightarrow>
     (case settlement_amount cp kind line of Inl e \<Rightarrow> Inl e
      | Inr amount \<Rightarrow>
     (case settlement_dates cp kind line of Inl e \<Rightarrow> Inl e
      | Inr (posted, postedDate) \<Rightarrow>
          settlement_finish cp postedDate
            (settlement_fields raw cp kind ordinal base rec amount posted)))))"

text \<open>The control row of each settlement; a second one is an error.\<close>

fun collect_metadata ::
  "raw_row list \<Rightarrow> (string, raw_row) gomap \<Rightarrow> ingest_error + (string, raw_row) gomap" where
  "collect_metadata [] m = Inr m"
| "collect_metadata (r # rs) m =
     (if row_Kind r \<noteq> RowMetadata then collect_metadata rs m
      else if ghas m (row_SettlementID r) then Inl (DuplicateMetadata (row_SettlementID r))
      else collect_metadata rs (gput (row_SettlementID r) r m))"

definition settle_currency :: "(string, raw_row) gomap \<Rightarrow> raw_row \<Rightarrow> ingest_error + raw_row" where
  "settle_currency m r =
     (if row_Kind r \<noteq> RowTransaction then Inr r
      else case map_of m (row_SettlementID r) of
             None \<Rightarrow> Inl (NoMetadata (row_LineStart r) (row_SettlementID r))
           | Some control \<Rightarrow>
               if row_Currency r \<noteq> [] \<and> row_Currency r \<noteq> row_Currency control
               then Inl (CurrencyConflict (row_LineStart r) (row_Currency r) (row_Currency control))
               else Inr (r\<lparr>row_Currency := row_Currency control\<rparr>))"

definition ParseSettlements :: "input_fs \<Rightarrow> string \<Rightarrow> ingest_error + raw_row list \<times> file_info" where
  "ParseSettlements fs path =
     (case open_input fs path of Inl e \<Rightarrow> Inl e
      | Inr (f, info) \<Rightarrow>
     (case readHeader settlement_required 1 1 (file_records f) of Inl e \<Rightarrow> Inl e
      | Inr (headers, rest) \<Rightarrow>
     (case canon_headers [] headers of Inl e \<Rightarrow> Inl e
      | Inr canon \<Rightarrow>
     (case read_rows (settlement_row headers canon (byte_base f)) 1 rest of Inl e \<Rightarrow> Inl e
      | Inr out \<Rightarrow>
     (case collect_metadata out [] of Inl e \<Rightarrow> Inl e
      | Inr m \<Rightarrow>
     (case mapE (settle_currency m) out of Inl e \<Rightarrow> Inl e
      | Inr rows \<Rightarrow> Inr (rows, info)))))))"

end
