(* ===== verification/Ingest_Props.thy ===== *)
theory Ingest_Props
  imports Ingest Reconcile
begin

text \<open>
  What parsing guarantees about the rows that reach mapping: their amounts are the exact cents of
  the texts, payment components add up to the total, statuses are supported, and every settlement
  transaction is governed by exactly one control row whose currency it has.
\<close>

section \<open>Reading rows\<close>

lemma read_rows_Inr:
  "read_rows f n st = Inr rows \<Longrightarrow>
     \<exists>recs. st = map Inr recs \<and> list_all2 (\<lambda>(i, rec) row. f i rec = Inr row)
       (zip (map (\<lambda>k. n + int k) [0..<length recs]) recs) rows"
proof (induction st arbitrary: n rows)
  case Nil
  then show ?case by (intro exI[of _ "[]"]) (auto split: if_splits)
next
  case (Cons r st)
  then obtain rec row rest where *: "r = Inr rec" "f n rec = Inr row"
    "read_rows f (n + 1) st = Inr rest" "rows = row # rest"
    by (auto split: if_splits sum.splits)
  from Cons.IH[OF *(3)] obtain recs where recs: "st = map Inr recs"
    "list_all2 (\<lambda>(i, rec) row. f i rec = Inr row)
       (zip (map (\<lambda>k. n + 1 + int k) [0..<length recs]) recs) rest" by blast
  have "map (\<lambda>k. n + int k) [0..<length (rec # recs)] = n # map (\<lambda>k. n + 1 + int k) [0..<length recs]"
    by (simp add: upt_conv_Cons map_Suc_upt[symmetric] o_def add.assoc del: upt_Suc)
  with * recs show ?case by (intro exI[of _ "rec # recs"]) simp
qed

lemma read_rows_mem:
  assumes "read_rows f n st = Inr rows" and "row \<in> set rows"
  obtains i rec where "f i rec = Inr row" "Inr rec \<in> set st"
proof -
  from read_rows_Inr[OF assms(1)] obtain recs where recs: "st = map Inr recs"
    "list_all2 (\<lambda>(i, rec) row. f i rec = Inr row)
       (zip (map (\<lambda>k. n + int k) [0..<length recs]) recs) rows" by blast
  obtain k where k: "k < length rows" "rows ! k = row" using assms(2) by (auto simp: in_set_conv_nth)
  with recs(2) have "f (n + int k) (recs ! k) = Inr row" "k < length recs"
    by (auto simp: list_all2_conv_all_nth)
  with recs(1) that show ?thesis by auto
qed

lemma read_rows_ordinals:
  assumes "read_rows f n st = Inr rows" and "\<And>i rec row. f i rec = Inr row \<Longrightarrow> row_Ordinal row = i"
  shows "map row_Ordinal rows = map (\<lambda>k. n + int k) [0..<length rows] \<and> length rows = length st"
proof -
  from read_rows_Inr[OF assms(1)] obtain recs where recs: "st = map Inr recs"
    "list_all2 (\<lambda>(i, rec) row. f i rec = Inr row)
       (zip (map (\<lambda>k. n + int k) [0..<length recs]) recs) rows" by blast
  then have len: "length rows = length recs" by (auto dest: list_all2_lengthD)
  have "row_Ordinal (rows ! k) = n + int k" if "k < length rows" for k
    using recs(2) that len assms(2) by (auto simp: list_all2_conv_all_nth)
  with len recs(1) show ?thesis by (auto intro: nth_equalityI)
qed

text \<open>The header is the first of the leading records that names every required column.\<close>

definition header_split :: "string list \<Rightarrow> nat \<Rightarrow> csv_stream \<Rightarrow> string list \<Rightarrow> csv_stream \<Rightarrow> bool" where
  "header_split required limit st headers rest \<longleftrightarrow>
     (\<exists>before hdr. st = map Inr before @ Inr hdr # rest \<and> length before < limit \<and>
        csv_fields hdr = headers \<and> set required \<subseteq> set (map Header headers) \<and>
        list_all (\<lambda>r. \<not> set required \<subseteq> set (map Header (csv_fields r))) before)"

lemma readHeader_split:
  "readHeader required n line st = Inr (headers, rest) \<Longrightarrow> header_split required n st headers rest"
proof (induction st arbitrary: n line)
  case Nil
  then show ?case by (simp split: if_splits)
next
  case (Cons r st)
  from Cons.prems obtain rec where rec: "r = Inr rec" "n \<noteq> 0"
    by (auto split: sum.splits if_splits)
  have all: "list_all (\<lambda>req. req \<in> set (map Header (csv_fields rec))) required \<longleftrightarrow>
      set required \<subseteq> set (map Header (csv_fields rec))"
    by (auto simp: list_all_iff)
  show ?case
  proof (cases "set required \<subseteq> set (map Header (csv_fields rec))")
    case True
    with Cons.prems rec have "headers = csv_fields rec" "rest = st"
      using all by (auto split: option.splits)
    with True rec show ?thesis
      unfolding header_split_def by (intro exI[of _ "[]"] exI[of _ rec]) simp
  next
    case False
    with Cons.prems rec have "readHeader required (n - 1) (line + 1) st = Inr (headers, rest)"
      using all by (simp split: option.splits)
    from Cons.IH[OF this] obtain before hdr where "st = map Inr before @ Inr hdr # rest"
      "length before < n - 1" "csv_fields hdr = headers" "set required \<subseteq> set (map Header headers)"
      "list_all (\<lambda>r. \<not> set required \<subseteq> set (map Header (csv_fields r))) before"
      unfolding header_split_def by blast
    with False rec show ?thesis
      unfolding header_split_def by (intro exI[of _ "rec # before"] exI[of _ hdr]) simp
  qed
qed

lemma readHeader_required:
  "readHeader required n line st = Inr (headers, rest) \<Longrightarrow> set required \<subseteq> set (map Header headers)"
  by (drule readHeader_split) (auto simp: header_split_def)

text \<open>
  What a row takes over from its record: the physical lines, the byte range after a byte order
  mark, and the fields under their column names, as they are and trimmed under canonical names.
\<close>

definition from_record :: "string list \<Rightarrow> int \<Rightarrow> csv_record \<Rightarrow> raw_row \<Rightarrow> bool" where
  "from_record headers base rec row \<longleftrightarrow>
     length (csv_fields rec) = length headers \<and>
     row_LineStart row = csv_line rec \<and> row_LineEnd row = snd (lineRange rec) \<and>
     row_ByteStart row = base + csv_before rec \<and> row_ByteEnd row = base + csv_after rec \<and>
     row_Raw row = map_of (zip headers (csv_fields rec)) \<and>
     row_Canonical row = map_of (zip (map Header headers) (map TrimSpace (csv_fields rec)))"

lemma map_of_rev_distinct: "distinct (map fst xs) \<Longrightarrow> map_of (rev xs) = map_of xs"
  by (subst map_of_inject_set) (simp_all add: rev_map[symmetric])

lemma raw_map_zip: "distinct headers \<Longrightarrow> raw_map headers vals = map_of (zip headers vals)"
  unfolding raw_map_def by (rule map_of_rev_distinct) (simp add: map_fst_zip_take)

lemma canonical_map_zip:
  "distinct canon \<Longrightarrow> canonical_map canon vals = map_of (zip canon (map TrimSpace vals))"
  unfolding canonical_map_def by (rule map_of_rev_distinct) (simp add: map_fst_zip_take)

lemma canon_headers_Inr:
  "canon_headers seen hs = Inr cs \<Longrightarrow> cs = map Header hs \<and> distinct cs \<and> set cs \<inter> set seen = {}"
proof (induction hs arbitrary: seen cs)
  case Nil
  then show ?case by simp
next
  case (Cons h hs)
  then obtain cs' where cs': "Header h \<notin> set seen" "canon_headers (Header h # seen) hs = Inr cs'"
    "cs = Header h # cs'"
    by (auto split: if_splits sum.splits)
  have IH: "cs' = map Header hs" "distinct cs'" "set cs' \<inter> set (Header h # seen) = {}"
    using Cons.IH[OF cs'(2)] by blast+
  have new: "x \<noteq> Header h \<and> x \<notin> set seen" if "x \<in> set cs'" for x
    using IH(3) that unfolding list.set by blast
  note IH(1,2)
  moreover have "set cs \<inter> set seen = {}" "Header h \<notin> set cs'"
    using new cs'(1) by (auto simp only: cs'(3) list.set)
  ultimately show ?case by (simp add: cs'(3))
qed

lemma dom_canonical_map:
  assumes "length canon = length vals"
  shows "dom (canonical_map canon vals) = set canon"
proof -
  have "fst ` set (zip canon (map TrimSpace vals)) = set (map fst (zip canon (map TrimSpace vals)))"
    by simp
  also have "\<dots> = set canon" using assms by (simp del: set_map)
  finally show ?thesis by (simp add: canonical_map_def dom_map_of_conv_image_fst)
qed

section \<open>Components of a payment\<close>

lemma add_components_exact:
  "foldE (add_component cp line) fs acc = Inr s \<Longrightarrow>
     \<exists>amts. list_all2 (\<lambda>f a. ParseCents (sget cp f) = Inr a) fs amts \<and>
       sint s = sint acc + (\<Sum>a\<leftarrow>amts. sint a)"
proof (induction fs arbitrary: acc)
  case Nil
  then show ?case by (intro exI[of _ "[]"]) simp
next
  case (Cons f fs)
  then obtain u where u: "add_component cp line f acc = Inr u" "foldE (add_component cp line) fs u = Inr s"
    by (auto simp: result_simps)
  then obtain a where a: "ParseCents (sget cp f) = Inr a" "sint u = sint acc + sint a"
    by (auto simp: add_component_def Add_Inr_iff split: sum.splits)
  from Cons.IH[OF u(2)] obtain amts where
    "list_all2 (\<lambda>f a. ParseCents (sget cp f) = Inr a) fs amts" "sint s = sint u + (\<Sum>a\<leftarrow>amts. sint a)"
    by blast
  with a show ?case by (intro exI[of _ "a # amts"]) simp
qed

definition components_add_up :: "raw_row \<Rightarrow> bool" where
  "components_add_up r \<longleftrightarrow>
     (\<exists>amts. list_all2 (\<lambda>f a. ParseCents (sget (row_Canonical r) f) = Inr a) component_fields amts \<and>
        (\<Sum>a\<leftarrow>amts. sint a) = sint (row_ReconAmount r))"

definition payment_ok :: "raw_row \<Rightarrow> bool" where
  "payment_ok r \<longleftrightarrow>
     row_Source r = SourcePayment \<and> row_Kind r = RowTransaction \<and> row_HasRecon r \<and>
     row_Currency r = ''AUD'' \<and> row_PostedAt r \<noteq> None \<and>
     ParseCents (sget (row_Canonical r) ''total'') = Inr (row_ReconAmount r) \<and>
     (if EqualFold (row_Status r) ''Released''
      then \<exists>t. row_ReleaseAt r = Some t \<and> row_KeyDate r = format_day t
      else EqualFold (row_Status r) ''Deferred'' \<and>
        (\<exists>t. row_PostedAt r = Some t \<and> row_KeyDate r = format_day t))"

lemma payment_row_Inr:
  assumes "payment_row headers canon base ordinal rec = Inr row"
    and canon: "canon = map Header headers" "distinct canon" and "set component_fields \<subseteq> set canon"
  shows "payment_ok row \<and> components_add_up row \<and> row_Ordinal row = ordinal \<and>
    from_record headers base rec row"
proof -
  let ?cp = "canonical_map canon (csv_fields rec)"
  from assms(1) obtain posted release tot row0 where
    len: "length (csv_fields rec) = length headers" and
    tot: "ParseCents (sget ?cp ''total'') = Inr tot" and
    comps: "validatePaymentComponents ?cp tot (fst (lineRange rec)) = None" and
    st: "payment_status (payment_fields (raw_map headers (csv_fields rec)) ?cp ordinal base rec tot
        (Some posted) release) posted release = Inr row0" and
    row: "row = (if Label (row_Transaction row0) = ''TRANSFER''
        then row0\<lparr>row_EventClass := ''BANK_TRANSFER''\<rparr> else row0)"
    by (auto simp: payment_row_def check_record_def Let_def split: option.splits sum.splits if_splits)
  have "list_all (\<lambda>f. ?cp f \<noteq> None) component_fields"
    using dom_canonical_map[of canon "csv_fields rec"] canon assms(4) len by (auto simp: list_all_iff)
  then have "\<not> list_ex (\<lambda>f. ?cp f = None) component_fields" by (simp add: list_ex_iff list_all_iff)
  with comps have "foldE (add_component ?cp (fst (lineRange rec))) component_fields 0 = Inr tot"
    unfolding validatePaymentComponents_def by (auto split: sum.splits if_splits)
  from add_components_exact[OF this] have "components_add_up row"
    using st row by (auto simp: components_add_up_def payment_status_def payment_fields_def
        split: if_splits option.splits)
  moreover have "payment_ok row \<and> row_Ordinal row = ordinal"
    using st row tot by (auto simp: payment_ok_def payment_status_def payment_fields_def
        split: if_splits option.splits)
  moreover have "distinct headers" using canon by (simp add: distinct_map)
  then have "from_record headers base rec row"
    using st row len canon canonical_map_zip[OF canon(2)]
    by (auto simp: from_record_def payment_status_def payment_fields_def raw_map_zip lineRange_def
        split: if_splits option.splits)
  ultimately show ?thesis by simp
qed

lemma component_fields_required: "set component_fields \<subseteq> set payment_required"
  by (simp add: component_fields_def payment_required_def)

section \<open>Settlements\<close>

definition settlement_ok :: "raw_row \<Rightarrow> bool" where
  "settlement_ok r \<longleftrightarrow>
     row_Source r = SourceSettlement \<and> row_HasRecon r \<and> row_SettlementID r \<noteq> [] \<and>
     (if row_Kind r = RowMetadata
      then row_Currency r \<noteq> [] \<and> row_EventClass r = ''CONTROL'' \<and>
        ParseCents (sget (row_Canonical r) ''total_amount'') = Inr (row_ReconAmount r)
      else row_EventClass r = ''OPERATING'' \<and> sget (row_Canonical r) ''transaction_type'' \<noteq> [] \<and>
        ParseCents (sget (row_Canonical r) ''amount'') = Inr (row_ReconAmount r) \<and>
        (\<exists>t. parseSettlementDate (sget (row_Canonical r) ''posted_date'') = Inr (Some t) \<and>
           row_KeyDate r = format_day t))"

lemma settlement_row_Inr:
  assumes "settlement_row headers canon base ordinal rec = Inr row"
    and canon: "canon = map Header headers" "distinct canon"
  shows "settlement_ok row \<and> row_Ordinal row = ordinal \<and> from_record headers base rec row"
proof -
  let ?cp = "canonical_map canon (csv_fields rec)"
  from assms(1) obtain kind amount posted postedDate where
    len: "length (csv_fields rec) = length headers" and
    kind: "settlement_kind ?cp (fst (lineRange rec)) = Inr kind" and
    amount: "settlement_amount ?cp kind (fst (lineRange rec)) = Inr amount" and
    dates: "settlement_dates ?cp kind (fst (lineRange rec)) = Inr (posted, postedDate)" and
    fin: "settlement_finish ?cp postedDate (settlement_fields (raw_map headers (csv_fields rec)) ?cp
        kind ordinal base rec amount posted) = Inr row"
    by (auto simp: settlement_row_def check_record_def Let_def split: option.splits sum.splits if_splits)
  have "distinct headers" using canon by (simp add: distinct_map)
  then have from_rec: "from_record headers base rec row"
    using fin len canon canonical_map_zip[OF canon(2)]
    by (auto simp: from_record_def settlement_finish_def settlement_fields_def raw_map_zip lineRange_def
        split: if_splits sum.splits)
  show ?thesis
  proof (cases kind)
    case RowMetadata
    with fin from_rec show ?thesis
      by (auto simp: settlement_finish_def settlement_fields_def settlement_ok_def
          split: if_splits sum.splits)
  next
    case RowTransaction
    have "sget ?cp ''transaction_type'' \<noteq> []"
      using kind RowTransaction by (auto simp: settlement_kind_def split: if_splits)
    moreover have "sget ?cp ''amount'' \<noteq> []" "ParseCents (sget ?cp ''amount'') = Inr amount"
      using amount RowTransaction by (auto simp: settlement_amount_def Let_def split: if_splits sum.splits)
    moreover obtain t where "parseSettlementDate (sget ?cp ''posted_date'') = Inr (Some t)" "postedDate = Some t"
      using dates RowTransaction
      by (auto simp: settlement_dates_def Let_def split: if_splits sum.splits option.splits)
    ultimately show ?thesis
      using fin RowTransaction from_rec
      by (auto simp: settlement_finish_def settlement_fields_def settlement_ok_def split: if_splits)
  qed
qed

text \<open>A map of control rows: each is a metadata row of the input, under its settlement.\<close>

definition control_map :: "raw_row list \<Rightarrow> (string, raw_row) gomap \<Rightarrow> bool" where
  "control_map rows m \<longleftrightarrow>
     (\<forall>k c. map_of m k = Some c \<longrightarrow> c \<in> set rows \<and> row_Kind c = RowMetadata \<and> row_SettlementID c = k)"

lemma collect_metadata_Inr:
  "collect_metadata rows m = Inr m' \<Longrightarrow>
     distinct (map row_SettlementID (filter (\<lambda>r. row_Kind r = RowMetadata) rows)) \<and>
     (\<forall>r \<in> set rows. row_Kind r = RowMetadata \<longrightarrow> \<not> ghas m (row_SettlementID r)) \<and>
     (\<forall>k c. map_of m' k = Some c \<longrightarrow> map_of m k = Some c \<or>
        (c \<in> set rows \<and> row_Kind c = RowMetadata \<and> row_SettlementID c = k))"
proof (induction rows arbitrary: m)
  case Nil
  then show ?case by simp
next
  case (Cons r rows)
  show ?case
  proof (cases "row_Kind r = RowMetadata")
    case False
    with Cons show ?thesis by auto
  next
    case True
    with Cons.prems have new: "\<not> ghas m (row_SettlementID r)"
      and rec: "collect_metadata rows (gput (row_SettlementID r) r m) = Inr m'"
      by (auto split: if_splits)
    note IH = Cons.IH[OF rec]
    from IH have fresh: "row_SettlementID x \<noteq> row_SettlementID r \<and> \<not> ghas m (row_SettlementID x)"
      if "x \<in> set rows" "row_Kind x = RowMetadata" for x
      using that by auto
    have "map_of m k = Some c \<or> c \<in> set (r # rows) \<and> row_Kind c = RowMetadata \<and> row_SettlementID c = k"
      if "map_of m' k = Some c" for k c
    proof -
      from IH that have "map_of (gput (row_SettlementID r) r m) k = Some c \<or>
        (c \<in> set rows \<and> row_Kind c = RowMetadata \<and> row_SettlementID c = k)" by blast
      with True show ?thesis by (auto simp: update_conv' split: if_splits)
    qed
    with IH fresh new True show ?thesis by (auto simp: image_iff)
  qed
qed

lemma settle_currency_Inr:
  assumes "settle_currency m r = Inr r'"
  shows "r' = r\<lparr>row_Currency := row_Currency r'\<rparr> \<and>
    (if row_Kind r = RowTransaction
     then \<exists>c. map_of m (row_SettlementID r) = Some c \<and> row_Currency r' = row_Currency c \<and>
       (row_Currency r = [] \<or> row_Currency r = row_Currency c)
     else r' = r)"
  using assms by (auto simp: settle_currency_def split: if_splits option.splits)

lemma settlement_ok_currency: "row_Kind r = RowTransaction \<Longrightarrow> settlement_ok (r\<lparr>row_Currency := c\<rparr>) = settlement_ok r"
  by (simp add: settlement_ok_def)

lemma settle_currency_kind:
  "settle_currency m r = Inr r' \<Longrightarrow>
     row_Kind r' = row_Kind r \<and> row_SettlementID r' = row_SettlementID r \<and>
     row_Ordinal r' = row_Ordinal r \<and> (row_Kind r = RowMetadata \<longrightarrow> r' = r)"
  by (auto simp: settle_currency_def split: if_splits option.splits)

lemma settle_metadata:
  "list_all2 (\<lambda>r r'. settle_currency m r = Inr r') out rows \<Longrightarrow>
     map row_Ordinal rows = map row_Ordinal out \<and>
     filter (\<lambda>r. row_Kind r = RowMetadata) rows = filter (\<lambda>r. row_Kind r = RowMetadata) out"
  by (induction rule: list_all2_induct) (auto dest: settle_currency_kind)

section \<open>Example inputs\<close>

definition ex_payment_fs :: input_fs where
  "ex_payment_fs = (\<lambda>_. Inr \<lparr>file_size = 600, file_hash = ''00'', file_bom = True, file_records =
     [Inr \<lparr>csv_fields = payment_required,
            csv_line = 1, csv_last_line = 1, csv_before = 0, csv_after = 280\<rparr>,
      Inr \<lparr>csv_fields =
              [''5 Jan 2024 3:04:05 pm GMT+11'', ''7 Jan 2024 1:00:00 am GMT+11'', ''S1'', ''Order'',
               ''item'', ''O-1'', ''SKU1'', ''8.90'', ''Released'', ''10.00'', ''0'', ''0'', ''0'', ''1.00'',
               ''0'', ''-2.10'', ''0'', ''0'', ''0''],
            csv_line = 2, csv_last_line = 2, csv_before = 280, csv_after = 400\<rparr>,
      Inr \<lparr>csv_fields =
              [''5 Jan 2024 3:04:05 pm GMT+11'', '''', ''S1'', ''Transfer'',
               ''bank'', '''', '''', ''-1,000.00'', ''deferred'', ''0'', ''0'', ''0'', ''0'', ''0'',
               ''0'', ''0'', ''0'', ''0'', ''-1,000.00''],
            csv_line = 3, csv_last_line = 3, csv_before = 400, csv_after = 500\<rparr>]\<rparr>)"

definition ex_settlement_fs :: input_fs where
  "ex_settlement_fs = (\<lambda>_. Inr \<lparr>file_size = 500, file_hash = ''00'', file_bom = False, file_records =
     [Inr \<lparr>csv_fields = settlement_required,
            csv_line = 1, csv_last_line = 1, csv_before = 0, csv_after = 180\<rparr>,
      Inr \<lparr>csv_fields =
              [''S1'', '''', '''', '''', '''', '''', '''', ''AUD'', ''8.90'', '''', '''', '''', '''', ''''],
            csv_line = 2, csv_last_line = 2, csv_before = 180, csv_after = 220\<rparr>,
      Inr \<lparr>csv_fields =
              [''S1'', ''Order'', ''8.90'', ''ItemPrice'', ''Principal'', ''05.01.2024'',
               ''05.01.2024 04:04:05 UTC'', '''', '''', ''O-1'', '''', ''SKU1'', '''', ''''],
            csv_line = 3, csv_last_line = 3, csv_before = 220, csv_after = 330\<rparr>]\<rparr>)"

text \<open>A code equation without the pair pattern, so that evaluation waits for the dates.\<close>

lemma settlement_row_code [code]:
  "settlement_row headers canon base ordinal rec =
     (case check_record (length headers) ordinal rec of Some e \<Rightarrow> Inl e
      | None \<Rightarrow>
     (case settlement_kind (canonical_map canon (csv_fields rec)) (fst (lineRange rec)) of Inl e \<Rightarrow> Inl e
      | Inr kind \<Rightarrow>
     (case settlement_amount (canonical_map canon (csv_fields rec)) kind (fst (lineRange rec)) of
        Inl e \<Rightarrow> Inl e
      | Inr amount \<Rightarrow>
     (case settlement_dates (canonical_map canon (csv_fields rec)) kind (fst (lineRange rec)) of
        Inl e \<Rightarrow> Inl e
      | Inr d \<Rightarrow>
          settlement_finish (canonical_map canon (csv_fields rec)) (snd d)
            (settlement_fields (raw_map headers (csv_fields rec)) (canonical_map canon (csv_fields rec))
              kind ordinal base rec amount (fst d))))))"
  by (simp add: settlement_row_def Let_def split: option.splits sum.splits prod.splits)

lemma ex_payment_rows:
  "\<exists>rows info. ParsePayments ex_payment_fs ''p.csv'' = Inr (rows, info) \<and>
     map row_KeyDate rows = [''2024-01-06'', ''2024-01-05''] \<and>
     map row_EventClass rows = [''OPERATING'', ''BANK_TRANSFER''] \<and>
     map row_ReconAmount rows = [890, - 100000]"
proof -
  have "case ParsePayments ex_payment_fs ''p.csv'' of Inl _ \<Rightarrow> False
    | Inr (rows, info) \<Rightarrow> map row_KeyDate rows = [''2024-01-06'', ''2024-01-05''] \<and>
       map row_EventClass rows = [''OPERATING'', ''BANK_TRANSFER''] \<and>
       map row_ReconAmount rows = [890, - 100000]"
    by code_simp
  then show ?thesis by (auto split: sum.splits)
qed

lemma ex_settlement_rows:
  "\<exists>rows info. ParseSettlements ex_settlement_fs ''s.csv'' = Inr (rows, info) \<and>
     map row_Kind rows = [RowMetadata, RowTransaction] \<and>
     map row_Currency rows = [''AUD'', ''AUD'']"
proof -
  have "case ParseSettlements ex_settlement_fs ''s.csv'' of Inl _ \<Rightarrow> False
    | Inr (rows, info) \<Rightarrow> map row_Kind rows = [RowMetadata, RowTransaction] \<and>
       map row_Currency rows = [''AUD'', ''AUD'']"
    by code_simp
  then show ?thesis by (auto split: sum.splits)
qed

section \<open>Parsed payments\<close>

lemma parsed_payment_rows:
  assumes "ParsePayments fs path = Inr (rows, info)"
  obtains f headers canon rest where
    "fs path = Inr f" "header_split payment_required 21 (file_records f) headers rest"
    "read_rows (payment_row headers canon (byte_base f)) 1 rest = Inr rows"
    "\<And>i rec row. payment_row headers canon (byte_base f) i rec = Inr row \<Longrightarrow>
       payment_ok row \<and> components_add_up row \<and> row_Ordinal row = i \<and>
       from_record headers (byte_base f) rec row"
proof -
  obtain f headers rest canon where
    f: "fs path = Inr f" and
    head: "readHeader payment_required 21 1 (file_records f) = Inr (headers, rest)" and
    canon: "canon_headers [] headers = Inr canon" and
    rows: "read_rows (payment_row headers canon (byte_base f)) 1 rest = Inr rows"
    using assms by (auto simp: ParsePayments_def open_input_def split: sum.splits prod.splits if_splits)
  have c: "canon = map Header headers" "distinct canon" using canon_headers_Inr[OF canon] by blast+
  then have "set component_fields \<subseteq> set canon"
    using readHeader_required[OF head] component_fields_required by auto
  with c have "payment_ok row \<and> components_add_up row \<and> row_Ordinal row = i \<and>
      from_record headers (byte_base f) rec row"
    if "payment_row headers canon (byte_base f) i rec = Inr row" for i rec row
    using payment_row_Inr[OF that] by blast
  with that f readHeader_split[OF head] rows show ?thesis by blast
qed

text \<open>
  The file a list of rows was read from, record by record: some leading records, the header, and
  then exactly one record for each row, in the same order.
\<close>

definition rows_of_file :: "string list \<Rightarrow> nat \<Rightarrow> input_file \<Rightarrow> raw_row list \<Rightarrow> bool" where
  "rows_of_file required limit f rows \<longleftrightarrow>
     (\<exists>headers recs. header_split required limit (file_records f) headers (map Inr recs) \<and>
        list_all2 (from_record headers (byte_base f)) recs rows)"

lemma read_rows_of_file:
  assumes head: "header_split required limit (file_records f) headers rest"
    and rows: "read_rows g 1 rest = Inr rows"
    and from_rec: "\<And>i rec row. g i rec = Inr row \<Longrightarrow> from_record headers (byte_base f) rec row"
  shows "rows_of_file required limit f rows"
proof -
  from read_rows_Inr[OF rows] obtain recs where recs: "rest = map Inr recs"
    "list_all2 (\<lambda>(i, rec) row. g i rec = Inr row)
       (zip (map (\<lambda>k. 1 + int k) [0..<length recs]) recs) rows" by blast
  then have "list_all2 (from_record headers (byte_base f)) recs rows"
    using from_rec by (auto simp: list_all2_conv_all_nth)
  with head recs(1) show ?thesis unfolding rows_of_file_def by blast
qed

lemma parsed_payments_ok:
  assumes "ParsePayments fs path = Inr (rows, info)" and "row \<in> set rows"
  shows "payment_ok row \<and> components_add_up row"
proof (rule parsed_payment_rows[OF assms(1)])
  fix f headers canon rest
  assume rows: "read_rows (payment_row headers canon (byte_base f)) 1 rest = Inr rows"
    and row: "\<And>i rec row. payment_row headers canon (byte_base f) i rec = Inr row \<Longrightarrow>
       payment_ok row \<and> components_add_up row \<and> row_Ordinal row = i \<and>
       from_record headers (byte_base f) rec row"
  show ?thesis by (rule read_rows_mem[OF rows assms(2)]) (use row in blast)
qed

lemma ordinals_from_one:
  assumes "map row_Ordinal rows = map (\<lambda>k. 1 + int k) [0..<n]"
  shows "map row_Ordinal rows = map int [1..<Suc n]"
proof -
  have "map int [1..<Suc n] = map (\<lambda>k. 1 + int k) [0..<n]"
    by (simp add: map_Suc_upt[symmetric] o_def del: upt_Suc)
  with assms show ?thesis by (simp only:)
qed

section \<open>Properties\<close>

text \<open>
  C23. Every payment row that parses is a transaction with the exact cents of its total, whose ten
  components parse and add up, without wrap-around, to that total; its status is released or
  deferred and its key date is the UTC day of the timestamp that status asks for. The rows are
  the records of the file after its header, which is among the first 21 records: one row per
  record, in the order of the file and numbered from 1, each with the lines, the byte range and
  the fields of its record. No record is skipped, repeated or unreadable.
\<close>

theorem ParsePayments_rows:
  assumes "ParsePayments fs path = Inr (rows, info)"
  shows "list_all (\<lambda>r. payment_ok r \<and> components_add_up r) rows \<and>
    map row_Ordinal rows = map int [1..<Suc (length rows)] \<and>
    (\<exists>f headers recs before hdr. fs path = Inr f \<and>
       file_records f = map Inr before @ Inr hdr # map Inr recs \<and> length before < 21 \<and>
       csv_fields hdr = headers \<and> set payment_required \<subseteq> set (map Header headers) \<and>
       list_all2 (from_record headers (byte_base f)) recs rows)"
proof (rule parsed_payment_rows[OF assms])
  fix f headers canon rest
  assume f: "fs path = Inr f" and head: "header_split payment_required 21 (file_records f) headers rest"
    and rows: "read_rows (payment_row headers canon (byte_base f)) 1 rest = Inr rows"
    and row: "\<And>i rec row. payment_row headers canon (byte_base f) i rec = Inr row \<Longrightarrow>
       payment_ok row \<and> components_add_up row \<and> row_Ordinal row = i \<and>
       from_record headers (byte_base f) rec row"
  have "map row_Ordinal rows = map (\<lambda>k. 1 + int k) [0..<length rows]"
    using read_rows_ordinals[OF rows] row by blast
  from ordinals_from_one[OF this] parsed_payments_ok[OF assms]
    read_rows_of_file[OF head rows] row f show ?thesis
    unfolding rows_of_file_def header_split_def list_all_iff by blast
qed

lemma ParsePayments_rows_witness:
  "\<exists>rows info. ParsePayments ex_payment_fs ''p.csv'' = Inr (rows, info) \<and> length rows = 2 \<and>
     list_all (\<lambda>r. payment_ok r \<and> components_add_up r) rows \<and> map row_Ordinal rows = [1, 2]"
proof -
  obtain rows info where r: "ParsePayments ex_payment_fs ''p.csv'' = Inr (rows, info)"
    and n: "map row_ReconAmount rows = [890, - 100000]"
    using ex_payment_rows by (elim exE conjE)
  from arg_cong[OF n, of length] have "length rows = 2" by simp
  moreover from this have "map int [1..<Suc (length rows)] = [1, 2]" by (simp add: upt_rec)
  ultimately show ?thesis using ParsePayments_rows[OF r] r by simp
qed

text \<open>
  A payment row that parses is never classified as unsupported: whatever settlement is
  selected, it is in scope, deferred, or of another settlement.
\<close>

theorem parsed_payments_classified:
  assumes "ParsePayments fs path = Inr (rows, info)"
  shows "list_all (\<lambda>r. row_Scope r \<in> {ScopeIn, ScopeDeferred, ScopeOther}) (Classify rows sel)"
proof -
  have "row_Scope (classify_row sel r) \<in> {ScopeIn, ScopeDeferred, ScopeOther}" if "r \<in> set rows" for r
  proof -
    have "payment_ok r" using parsed_payments_ok[OF assms that] by blast
    then show ?thesis by (auto simp: payment_ok_def classify_row_def split: if_splits)
  qed
  then show ?thesis by (auto simp: Classify_def list_all_iff)
qed

lemma parsed_payments_classified_witness:
  "\<exists>rows info. ParsePayments ex_payment_fs ''p.csv'' = Inr (rows, info) \<and> rows \<noteq> [] \<and>
     list_all (\<lambda>r. row_Scope r \<in> {ScopeIn, ScopeDeferred, ScopeOther}) (Classify rows ''S1'')"
proof -
  obtain rows info where r: "ParsePayments ex_payment_fs ''p.csv'' = Inr (rows, info)"
    and n: "map row_ReconAmount rows = [890, - 100000]"
    using ex_payment_rows by (elim exE conjE)
  from n have "rows \<noteq> []" by auto
  with parsed_payments_classified[OF r] r show ?thesis by blast
qed

lemma settle_currency_from_record:
  "from_record hs base rec r \<Longrightarrow> settle_currency m r = Inr r' \<Longrightarrow> from_record hs base rec r'"
  by (auto simp: settle_currency_def from_record_def split: if_splits option.splits)

text \<open>
  C24. Every settlement row that parses has exact cents, a settlement and a proper event class; a
  settlement has at most one control row, and every transaction row belongs to the settlement of a
  control row of the file and has its currency. The rows are the records of the file after the
  header, its first record: one row per record, in the order of the file and numbered from 1, each
  with the lines, the byte range and the fields of its record.
\<close>

theorem ParseSettlements_rows:
  assumes "ParseSettlements fs path = Inr (rows, info)"
  shows "list_all settlement_ok rows \<and>
    distinct (map row_SettlementID (filter (\<lambda>r. row_Kind r = RowMetadata) rows)) \<and>
    list_all (\<lambda>r. list_ex (\<lambda>c. row_Kind c = RowMetadata \<and>
      row_SettlementID c = row_SettlementID r \<and> row_Currency c = row_Currency r) rows) rows \<and>
    map row_Ordinal rows = map int [1..<Suc (length rows)] \<and>
    (\<exists>f hdr recs. fs path = Inr f \<and> file_records f = Inr hdr # map Inr recs \<and>
       set settlement_required \<subseteq> set (map Header (csv_fields hdr)) \<and>
       list_all2 (from_record (csv_fields hdr) (byte_base f)) recs rows)"
proof -
  obtain f headers rest canon out m where
    f: "fs path = Inr f" and
    head: "readHeader settlement_required 1 1 (file_records f) = Inr (headers, rest)" and
    canon: "canon_headers [] headers = Inr canon" and
    out: "read_rows (settlement_row headers canon (byte_base f)) 1 rest = Inr out" and
    m: "collect_metadata out [] = Inr m" and
    rows: "mapE (settle_currency m) out = Inr rows"
    using assms by (auto simp: ParseSettlements_def open_input_def split: sum.splits prod.splits if_splits)
  have c: "canon = map Header headers" "distinct canon" using canon_headers_Inr[OF canon] by blast+
  have ok: "settlement_ok row \<and> row_Ordinal row = i \<and> from_record headers (byte_base f) rec row"
    if "settlement_row headers canon (byte_base f) i rec = Inr row" for i rec row
    using settlement_row_Inr[OF that c] .
  have out_ok: "settlement_ok r" if "r \<in> set out" for r
    by (rule read_rows_mem[OF out that]) (use ok in blast)
  have pairs: "list_all2 (\<lambda>r r'. settle_currency m r = Inr r') out rows"
    using rows by (simp add: mapE_Inr_iff)
  note meta = collect_metadata_Inr[OF m] settle_metadata[OF pairs]
  have row: "settlement_ok r' \<and> list_ex (\<lambda>c. row_Kind c = RowMetadata \<and>
      row_SettlementID c = row_SettlementID r' \<and> row_Currency c = row_Currency r') rows"
    if r': "r' \<in> set rows" for r'
  proof -
    obtain i where i: "i < length rows" "r' = rows ! i" using r' by (metis in_set_conv_nth)
    obtain r where r: "r \<in> set out" "settle_currency m r = Inr r'"
      using list_all2_nthD2[OF pairs i(1)] nth_mem[of i out] list_all2_lengthD[OF pairs] i
      by metis
    note k = settle_currency_kind[OF r(2)] and c = settle_currency_Inr[OF r(2)]
    show ?thesis
    proof (cases "row_Kind r")
      case RowMetadata
      with k r out_ok r' show ?thesis by (auto simp: list_ex_iff)
    next
      case RowTransaction
      with c obtain c where c': "map_of m (row_SettlementID r) = Some c" "row_Currency r' = row_Currency c"
        by auto
      then have "c \<in> set out" and c_kind: "row_Kind c = RowMetadata"
        and c_id: "row_SettlementID c = row_SettlementID r'"
        using meta(1) k by auto
      then have "c \<in> set (filter (\<lambda>r. row_Kind r = RowMetadata) out)" by simp
      then have "c \<in> set (filter (\<lambda>r. row_Kind r = RowMetadata) rows)" using meta(2) by simp
      then have "c \<in> set rows" by simp
      note this c_kind c_id
      moreover have "r' = r\<lparr>row_Currency := row_Currency r'\<rparr>" using c by blast
      then have "settlement_ok r'"
        using settlement_ok_currency[OF RowTransaction] out_ok[OF r(1)] by metis
      ultimately show ?thesis using c'(2) by (auto simp: list_ex_iff)
    qed
  qed
  have "map row_Ordinal out = map (\<lambda>k. 1 + int k) [0..<length out]"
    using read_rows_ordinals[OF out] ok by blast
  note ordinals_from_one[OF this]
  also have "length out = length rows"
    using list_all2_lengthD[OF pairs] .
  finally have ords: "map row_Ordinal rows = map int [1..<Suc (length rows)]"
    using meta(2) by simp
  have "distinct (map row_SettlementID (filter (\<lambda>r. row_Kind r = RowMetadata) rows))"
    using meta by simp
  moreover have "rows_of_file settlement_required 1 f out"
    using read_rows_of_file[OF readHeader_split[OF head] out] ok by blast
  then obtain hs recs where recs: "header_split settlement_required 1 (file_records f) hs (map Inr recs)"
    "list_all2 (from_record hs (byte_base f)) recs out" unfolding rows_of_file_def by blast
  then have "\<exists>hdr. file_records f = Inr hdr # map Inr recs \<and> csv_fields hdr = hs \<and>
      set settlement_required \<subseteq> set (map Header hs)"
    unfolding header_split_def by auto
  moreover have "list_all2 (from_record hs (byte_base f)) recs rows"
    by (rule list_all2_trans[OF _ recs(2) pairs]) (use settle_currency_from_record in blast)
  ultimately show ?thesis using row ords f by (simp add: list_all_iff) blast
qed

lemma ParseSettlements_rows_witness:
  "\<exists>rows info. ParseSettlements ex_settlement_fs ''s.csv'' = Inr (rows, info) \<and> length rows = 2 \<and>
     list_all settlement_ok rows \<and> map row_Ordinal rows = [1, 2]"
proof -
  obtain rows info where r: "ParseSettlements ex_settlement_fs ''s.csv'' = Inr (rows, info)"
    and n: "map row_Kind rows = [RowMetadata, RowTransaction]"
    using ex_settlement_rows by (elim exE conjE)
  from arg_cong[OF n, of length] have "length rows = 2" by simp
  moreover from this have "map int [1..<Suc (length rows)] = [1, 2]" by (simp add: upt_rec)
  ultimately show ?thesis using ParseSettlements_rows[OF r] r by simp
qed

end
