(* ===== verification/Report.thy ===== *)
theory Report
  imports Reconcile
begin

text \<open>
  \<open>internal/report/report.go\<close>: the workbook as the values the program puts into its cells.
  A sheet filled cell by cell is the list of its writes in order; a sheet filled by a stream
  writer is the list of its rows. The styles of the summary sheet are modelled too, because reading
  a cell back gives its value formatted in its style; widths and print layouts carry no values and
  are not in the model. Saving and reopening a workbook is the library's: an \<open>opened\<close> workbook is
  what its accessors return.

  A \<open>float64\<close> that the program writes is an amount divided by 100. All of them are multiples of
  \<open>2 ^ -60\<close>, and \<open>CellNumber n\<close> is the number \<open>n / 2 ^ 60\<close>.
\<close>

section \<open>Cells\<close>

datatype cell_value = CellText string | CellNumber int | CellInt int

type_synonym cells = "(string \<times> cell_value) list"

definition cell_at :: "cells \<Rightarrow> string \<Rightarrow> cell_value option" where
  "cell_at ws a = map_of (rev ws) a"

definition cell_name :: "char \<Rightarrow> nat \<Rightarrow> string" where
  "cell_name col row = col # dec row"

definition round_half_even :: "int \<Rightarrow> int \<Rightarrow> int" where
  "round_half_even a b =
     (let q = a div b; r = a mod b
      in if 2 * r < b \<or> (2 * r = b \<and> even q) then q else q + 1)"

text \<open>
  The correctly rounded quotient \<open>float64(c) / 100\<close> for an exactly representable \<open>c\<close>: the
  significand of \<open>m / 100\<close> has 53 bits, so it is the integer nearest to \<open>m * 2 ^ k / 100\<close> for the
  first \<open>k\<close> that takes it to \<open>2 ^ 52\<close>, that is \<open>m * 2 ^ k\<close> to \<open>100 * 2 ^ 52 = 450359962737049600\<close>.
\<close>

definition binade :: "int \<Rightarrow> nat" where
  "binade m = (case find (\<lambda>k. 450359962737049600 \<le> m * 2 ^ k) [0..<60] of Some k \<Rightarrow> k | None \<Rightarrow> 59)"

definition float_div_100 :: "int \<Rightarrow> int" where
  "float_div_100 c =
     (if c = 0 then 0
      else let m = \<bar>c\<bar>; k = binade m in sgn c * (round_half_even (m * 2 ^ k) 100 * 2 ^ (60 - k)))"

definition maxExactInteger :: int64 where
  "maxExactInteger = push_bit 53 1"

lemma maxExactInteger_num [code]: "maxExactInteger = 9007199254740992"
  by (simp add: maxExactInteger_def push_bit_eq_mult)

definition reportAmount :: "int64 \<Rightarrow> cell_value" where
  "reportAmount cents =
     (if maxExactInteger <s cents \<or> cents <s - maxExactInteger then CellText (FormatCents cents)
      else CellNumber (float_div_100 (sint cents)))"

definition displayKey :: "string list \<Rightarrow> string" where
  "displayKey parts = Join parts '' + ''"

definition bucketNames :: "(string, int64) gomap \<Rightarrow> string" where
  "bucketNames m = Join (sort_by (<) (gkeys m)) '', ''"

fun kind_string :: "row_kind \<Rightarrow> string" where
  "kind_string RowTransaction = ''transaction''"
| "kind_string RowMetadata = ''settlement_metadata''"

fun decision_string :: "decision \<Rightarrow> string" where
  "decision_string Routed = ''ROUTED''"
| "decision_string OptionalAbsent = ''OPTIONAL_ABSENT''"
| "decision_string DecisionZero = ''ZERO''"
| "decision_string NotSummarized = ''NOT_SUMMARIZED''"

section \<open>The summary sheet\<close>

datatype report_error =
    SubtotalError string money_error
  | RowDifference nat money_error
  | ActivityError money_error
  | HeaderDifference money_error
  | GroupDifference string money_error

definition summaryRows :: "(nat \<times> string \<times> string) list" where
  "summaryRows =
     [(4, ''Sales'', []), (5, ''Product Charges'', ''sales_product_charges''),
      (6, ''Tax'', ''sales_tax''), (7, ''Shipping'', ''sales_shipping''),
      (8, ''Amazon fees'', ''sales_amazon_fees''),
      (9, ''Inventory Reimbursements'', ''sales_inventory_reimbursements''),
      (10, ''Cross-account Debt Adjustment'', []), (11, ''Other'', ''sales_other''),
      (12, ''FBA Fees'', []), (13, ''Micro Deposit (Failed)'', []), (15, ''Refunds'', []),
      (16, ''Refund expenses'', ''refunded_expenses''), (17, ''Refunded sales'', ''refunded_sales''),
      (19, ''Expenses'', []), (20, ''Promo rebates'', ''expenses_promotional_rebates''),
      (21, ''FBA fees'', ''expenses_fba_fees''),
      (22, ''Cost of Advertising'', ''expenses_cost_of_advertising''), (23, ''Shipping Charges'', []),
      (24, ''Amazon fees'', ''expenses_amazon_fees''),
      (25, ''Reversed Reimbursements'', ''expenses_reversed_reimbursements''),
      (26, ''Cross-account Debt Adjustment'', []), (27, ''Other'', ''expenses_other''),
      (28, ''Micro Deposit'', []), (32, ''Paid To Amazon'', ''paid_to_amazon'')]"

definition subtotal_fields :: "nat \<Rightarrow> string list" where
  "subtotal_fields row =
     (if row = 4 then [''sales_product_charges'', ''sales_tax'', ''sales_shipping'',
        ''sales_amazon_fees'', ''sales_inventory_reimbursements'', ''sales_other'']
      else if row = 15 then [''refunded_expenses'', ''refunded_sales'']
      else if row = 19 then [''expenses_promotional_rebates'', ''expenses_fba_fees'',
        ''expenses_cost_of_advertising'', ''expenses_reversed_reimbursements'',
        ''expenses_amazon_fees'', ''expenses_other'']
      else [])"

definition add_field :: "summary \<Rightarrow> source \<Rightarrow> string \<Rightarrow> int64 \<Rightarrow> report_error + int64" where
  "add_field s src field acc =
     (case Add acc (bucket s field src) of Inl e \<Rightarrow> Inl (SubtotalError field e) | Inr v \<Rightarrow> Inr v)"

definition sumFields :: "summary \<Rightarrow> source \<Rightarrow> string list \<Rightarrow> report_error + int64" where
  "sumFields s src fs = foldE (add_field s src) fs 0"

text \<open>The sum over the map of buckets, in one of its iteration orders.\<close>

definition add_side :: "source \<Rightarrow> string \<times> (source, int64) gomap \<Rightarrow> int64 \<Rightarrow> money_error + int64" where
  "add_side src b acc = Add acc (gget 0 (snd b) src)"

definition sumSummary :: "summary \<Rightarrow> source \<Rightarrow> money_error + int64" where
  "sumSummary s src = foldE (add_side src) (Buckets s) 0"

definition row_figure :: "summary \<Rightarrow> nat \<Rightarrow> string \<Rightarrow> source \<Rightarrow> report_error + int64" where
  "row_figure s row field src =
     (if field \<noteq> [] then Inr (bucket s field src) else sumFields s src (subtotal_fields row))"

definition figure_row :: "summary \<Rightarrow> nat \<times> string \<times> string \<Rightarrow> report_error + cells" where
  "figure_row s x =
     (case row_figure s (fst x) (snd (snd x)) SourcePayment of Inl e \<Rightarrow> Inl e
      | Inr p \<Rightarrow> (case row_figure s (fst x) (snd (snd x)) SourceSettlement of Inl e \<Rightarrow> Inl e
      | Inr q \<Rightarrow> (case Sub p q of Inl e \<Rightarrow> Inl (RowDifference (fst x) e)
      | Inr difference \<Rightarrow>
          Inr [(cell_name CHR ''C'' (fst x), reportAmount p), (cell_name CHR ''D'' (fst x), reportAmount q),
               (cell_name CHR ''E'' (fst x), reportAmount difference)])))"

definition writeSummary :: "'i run_result \<Rightarrow> report_error + cells" where
  "writeSummary r =
     (let head = [(''B1'', CellText ''Summary''), (''C1'', CellText ''Payments''),
                  (''D1'', CellText ''Settlements''), (''E1'', CellText ''Payments - Settlements'')];
          labels = map (\<lambda>x. (cell_name CHR ''B'' (fst x), CellText (fst (snd x)))) summaryRows
      in case mapE (figure_row (res_Summary r)) summaryRows of Inl e \<Rightarrow> Inl e
      | Inr figures \<Rightarrow>
     (case sumSummary (res_Summary r) SourceSettlement of Inl e \<Rightarrow> Inl (ActivityError e)
      | Inr activity \<Rightarrow>
     (case Sub activity (res_SettlementHeader r) of Inl e \<Rightarrow> Inl (HeaderDifference e)
      | Inr controlDifference \<Rightarrow>
          Inr (head @ labels @ concat figures @
            [(''B34'', CellText ''Settlement header control''),
             (''D34'', reportAmount (res_SettlementHeader r)),
             (''B35'', CellText ''Activity minus header control''),
             (''D35'', reportAmount controlDifference)]))))"

text \<open>
  The styles \<open>writeSummary\<close> sets on its cells, in the order of the calls: a range of one row is the
  list of its cells, and a later call overrides an earlier one.
\<close>

datatype cell_style = PlainStyle | HeaderStyle | MoneyStyle | SubStyle

definition row_styles :: "nat \<times> string \<times> string \<Rightarrow> (string \<times> cell_style) list" where
  "row_styles x =
     map (\<lambda>col. (cell_name col (fst x), MoneyStyle)) ''CDE'' @
     (if snd (snd x) = [] then map (\<lambda>col. (cell_name col (fst x), SubStyle)) ''BCDE'' else [])"

definition summary_styles :: "(string \<times> cell_style) list" where
  "summary_styles =
     map (\<lambda>col. (cell_name col 1, HeaderStyle)) ''BCDE'' @ concat (map row_styles summaryRows) @
     [(''D34'', MoneyStyle), (''D35'', MoneyStyle)]"

definition style_at :: "string \<Rightarrow> cell_style" where
  "style_at a = (case map_of (rev summary_styles) a of None \<Rightarrow> PlainStyle | Some st \<Rightarrow> st)"

section \<open>The other sheets\<close>

definition group_status :: "group \<Rightarrow> recon_status" where
  "group_status g =
     (if g_PaymentRows g = [] then StatusUnreconciledSettle
      else if g_SettlementRows g = [] then StatusUnreconciledPayment
      else StatusReconciled)"

definition group_line :: "group \<Rightarrow> report_error + cell_value list" where
  "group_line g =
     (case Sub (g_PaymentAmount g) (g_SettlementAmt g) of
        Inl e \<Rightarrow> Inl (GroupDifference (displayKey (g_KeyParts g)) e)
      | Inr difference \<Rightarrow>
          Inr [CellText (status_string (group_status g)), CellText (scope_string (g_Scope g)),
               CellText (g_SettlementID g), CellText (g_Currency g),
               CellText (displayKey (g_KeyParts g)), CellInt (int (length (g_PaymentRows g))),
               reportAmount (g_PaymentAmount g), CellInt (int (length (g_SettlementRows g))),
               reportAmount (g_SettlementAmt g), reportAmount difference,
               CellText (bucketNames (g_PaymentBuckets g)), CellText (bucketNames (g_SettleBuckets g))])"

definition writeGroups :: "group list \<Rightarrow> report_error + cell_value list list" where
  "writeGroups gs =
     (case mapE group_line gs of Inl e \<Rightarrow> Inl e
      | Inr ls \<Rightarrow> Inr (map CellText
          [''Status'', ''Scope'', ''Settlement ID'', ''Currency'', ''Record Ref'', ''Payment Rows'',
           ''Payment Amount'', ''Settlement Rows'', ''Settlement Amount'', ''Difference'',
           ''Payment Fields'', ''Settlement Fields''] # ls))"

definition row_line :: "'i mapped \<Rightarrow> cell_value list" where
  "row_line m =
     (let x = m_Row m
      in [CellText (source_string (row_Source x)), CellText (kind_string (row_Kind x)),
          CellInt (row_LineStart x), CellInt (row_Ordinal x), CellText (row_SettlementID x),
          CellText (scope_string (row_Scope x)), CellText (row_Status x), CellText (row_Transaction x),
          CellText (row_Description x), CellText (row_SKU x), CellText (row_TxnRef x),
          CellText (row_KeyDate x), reportAmount (row_ReconAmount x),
          CellText (displayKey (m_KeyParts m))])"

definition writeRows :: "'i run_result \<Rightarrow> cell_value list list" where
  "writeRows r =
     map CellText [''Source'', ''Kind'', ''Line'', ''Ordinal'', ''Settlement ID'', ''Scope'',
       ''Status'', ''Type'', ''Description'', ''SKU'', ''Txn Ref'', ''Key Date'', ''Amount'',
       ''Record Ref''] # map row_line (res_PaymentRows r @ res_SettlementRows r)"

definition contribution_line :: "raw_row \<Rightarrow> contribution \<Rightarrow> cell_value list" where
  "contribution_line row x =
     [CellText (source_string (row_Source row)), CellInt (row_LineStart row),
      CellInt (rule_OriginLine (con_Rule x)), CellText (con_Field x), reportAmount (con_Amount x),
      CellText (con_Target x), CellText (decision_string (con_Decision x)),
      CellText (displayKey (con_KeyParts x))]"

definition writeContributions :: "'i run_result \<Rightarrow> cell_value list list" where
  "writeContributions r =
     map CellText [''Source'', ''Line'', ''Rule Line'', ''Field'', ''Amount'', ''Target'',
       ''Decision'', ''Record Ref''] #
     concat (map (\<lambda>m. map (contribution_line (m_Row m)) (m_Contributions m))
       (res_PaymentRows r @ res_SettlementRows r))"

text \<open>The texts of the issues are printed by \<open>issue_text\<close>.\<close>

definition writeIssues :: "('i \<Rightarrow> string) \<Rightarrow> 'i run_result \<Rightarrow> cells" where
  "writeIssues issue_text r =
     (''A1'', CellText ''Issue'') #
     map (\<lambda>(i, x). (cell_name CHR ''A'' (i + 2), CellText (issue_text x))) (enumerate 0 (res_Issues r)) @
     (if res_Issues r = [] then [(''A2'', CellText ''No mapping issues'')] else [])"

definition writeInfo :: "(string, string) gomap \<Rightarrow> cells" where
  "writeInfo m =
     (''A1'', CellText ''Property'') # (''B1'', CellText ''Value'') #
     concat (map (\<lambda>(i, k). [(cell_name CHR ''A'' (i + 2), CellText k),
                              (cell_name CHR ''B'' (i + 2), CellText (gget [] m k))])
       (enumerate 0 (sort_by (<) (gkeys m))))"

section \<open>Workbooks\<close>

record workbook =
  wb_summary :: cells
  wb_groups :: "cell_value list list"
  wb_rows :: "cell_value list list"
  wb_contributions :: "cell_value list list"
  wb_issues :: cells
  wb_info :: cells

definition build_workbook ::
  "('i \<Rightarrow> string) \<Rightarrow> 'i run_result \<Rightarrow> (string, string) gomap \<Rightarrow> report_error + workbook" where
  "build_workbook issue_text r metadata =
     (case writeSummary r of Inl e \<Rightarrow> Inl e
      | Inr sheet \<Rightarrow> (case writeGroups (res_Groups r) of Inl e \<Rightarrow> Inl e
      | Inr gs \<Rightarrow>
          Inr \<lparr>wb_summary = sheet, wb_groups = gs, wb_rows = writeRows r,
               wb_contributions = writeContributions r, wb_issues = writeIssues issue_text r,
               wb_info = writeInfo metadata\<rparr>))"

text \<open>A workbook read back: the sheet names, the text of a cell, and the rows of a sheet.\<close>

record opened =
  op_sheets :: "string list"
  op_cell :: "string \<Rightarrow> string \<Rightarrow> io_error + string"
  op_rows :: "string \<Rightarrow> io_error + string list list"

datatype verify_error =
    OpenWorkbook io_error
  | SheetCount nat
  | SheetName nat string
  | CellRead io_error
  | NotZero string string
  | RowsRead io_error
  | InfoMode string
  | InfoIssues string
  | NoDataRows string

definition sheet_names :: "string list" where
  "sheet_names = [''Summary'', ''Consolidated Data'', ''Source Rows'', ''Contributions'',
     ''Mapping Issues'', ''Run Info'']"

definition data_sheets :: "string list" where
  "data_sheets = [''Consolidated Data'', ''Source Rows'', ''Contributions'']"

fun check_names :: "nat \<Rightarrow> string list \<Rightarrow> string list \<Rightarrow> verify_error option" where
  "check_names i (w # ws) (g # gs) = (if g \<noteq> w then Some (SheetName i g) else check_names (Suc i) ws gs)"
| "check_names i _ _ = None"

definition check_sheets :: "opened \<Rightarrow> verify_error option" where
  "check_sheets f =
     (if length (op_sheets f) \<noteq> length sheet_names then Some (SheetCount (length (op_sheets f)))
      else check_names 0 sheet_names (op_sheets f))"

fun check_data :: "opened \<Rightarrow> string list \<Rightarrow> verify_error option" where
  "check_data f [] = None"
| "check_data f (name # names) =
     (case op_rows f name of Inl e \<Rightarrow> Some (RowsRead e)
      | Inr rows \<Rightarrow> if length rows < 2 then Some (NoDataRows name) else check_data f names)"

definition verifyStructure :: "(string \<Rightarrow> io_error + opened) \<Rightarrow> string \<Rightarrow> verify_error option" where
  "verifyStructure open_file path =
     (case open_file path of Inl e \<Rightarrow> Some (OpenWorkbook e)
      | Inr f \<Rightarrow> (case check_sheets f of Some e \<Rightarrow> Some e | None \<Rightarrow> check_data f data_sheets))"

definition zero_cells :: "string list" where
  "zero_cells = map (\<lambda>x. cell_name CHR ''E'' (fst x)) summaryRows @ [''D35'']"

definition zero_texts :: "string list" where
  "zero_texts = [''0'', ''0.00'', ''0.0'']"

fun check_zero :: "opened \<Rightarrow> string list \<Rightarrow> verify_error option" where
  "check_zero f [] = None"
| "check_zero f (c # cs) =
     (case op_cell f ''Summary'' c of Inl e \<Rightarrow> Some (CellRead e)
      | Inr v \<Rightarrow> if v \<notin> set zero_texts then Some (NotZero c v) else check_zero f cs)"

text \<open>The properties of the run: rows after the first that have a name and a value.\<close>

definition run_info :: "string list list \<Rightarrow> (string, string) gomap" where
  "run_info rows =
     fold (\<lambda>row m. if 2 \<le> length row then gput (row ! 0) (row ! 1) m else m) (drop 1 rows) []"

definition Verify :: "(string \<Rightarrow> io_error + opened) \<Rightarrow> string \<Rightarrow> verify_error option" where
  "Verify open_file path =
     (case verifyStructure open_file path of Some e \<Rightarrow> Some e
      | None \<Rightarrow>
     (case open_file path of Inl e \<Rightarrow> Some (OpenWorkbook e)
      | Inr f \<Rightarrow>
     (case check_sheets f of Some e \<Rightarrow> Some e
      | None \<Rightarrow>
     (case check_zero f zero_cells of Some e \<Rightarrow> Some e
      | None \<Rightarrow>
     (case op_rows f ''Run Info'' of Inl e \<Rightarrow> Some (RowsRead e)
      | Inr infoRows \<Rightarrow>
          let info = run_info infoRows
          in if gget [] info ''mode'' \<noteq> ''strict'' then Some (InfoMode (gget [] info ''mode''))
             else if gget [] info ''mapping_issues'' \<noteq> ''0''
             then Some (InfoIssues (gget [] info ''mapping_issues''))
             else check_data f data_sheets)))))"

section \<open>Publishing\<close>

text \<open>
  The files a run writes to, by path, and the calls \<open>Write\<close> makes: cleaning the destination path,
  creating a closed temporary file in its directory, saving the workbook there, the rename, and the
  deferred removal of the temporary file, whose failure the program ignores. \<open>pub_partial\<close> is what a
  failed save has written.
\<close>

type_synonym book_files = "string \<rightharpoonup> opened"

record publisher =
  pub_clean :: "string \<Rightarrow> string"
  pub_temp :: "string \<Rightarrow> io_error + string"
  pub_save :: "workbook \<Rightarrow> io_error + opened"
  pub_partial :: "workbook \<Rightarrow> opened"
  pub_rename :: "string \<Rightarrow> io_error option"
  pub_remove :: "string \<Rightarrow> io_error option"

datatype write_error =
    BuildError report_error
  | TempError io_error
  | SaveError io_error
  | VerifyTemp verify_error
  | PublishError io_error

definition open_in :: "book_files \<Rightarrow> string \<Rightarrow> io_error + opened" where
  "open_in fs path =
     (case fs path of None \<Rightarrow> Inl (IOError ''no such file'') | Some f \<Rightarrow> Inr f)"

definition remove_temp :: "publisher \<Rightarrow> string \<Rightarrow> book_files \<Rightarrow> book_files" where
  "remove_temp pub tmp fs = (case pub_remove pub tmp of None \<Rightarrow> fs(tmp := None) | Some _ \<Rightarrow> fs)"

definition Write ::
  "publisher \<Rightarrow> ('i \<Rightarrow> string) \<Rightarrow> string \<Rightarrow> 'i run_result \<Rightarrow> (string, string) gomap \<Rightarrow> book_files \<Rightarrow>
     book_files \<times> write_error option" where
  "Write pub issue_text path r metadata fs =
     (case build_workbook issue_text r metadata of Inl e \<Rightarrow> (fs, Some (BuildError e))
      | Inr b \<Rightarrow>
     (let destination = pub_clean pub path
      in case pub_temp pub destination of Inl e \<Rightarrow> (fs, Some (TempError e))
      | Inr tmp \<Rightarrow>
     (case pub_save pub b of Inl e \<Rightarrow> (remove_temp pub tmp (fs(tmp \<mapsto> pub_partial pub b)), Some (SaveError e))
      | Inr f \<Rightarrow>
     (case verifyStructure (open_in (fs(tmp \<mapsto> f))) tmp of
        Some e \<Rightarrow> (remove_temp pub tmp (fs(tmp \<mapsto> f)), Some (VerifyTemp e))
      | None \<Rightarrow>
     (case pub_rename pub destination of Some e \<Rightarrow> (remove_temp pub tmp (fs(tmp \<mapsto> f)), Some (PublishError e))
      | None \<Rightarrow> (fs(tmp := None, destination \<mapsto> f), None))))))"

end
