(* ===== verification/Report_Props.thy ===== *)
theory Report_Props
  imports Report
begin

text \<open>
  What the workbook shows: the figures of the summary sheet are exact sums and differences of the
  summary, a workbook that passes verification in strict mode shows a balanced run, publishing is
  atomic, and how far an amount survives the conversion to a floating point number.
\<close>

section \<open>Amounts as numbers\<close>

lemma round_half_even_error: "\<bar>100 * round_half_even a 100 - a\<bar> \<le> 50"
  by (simp add: round_half_even_def Let_def) presburger

lemma binade_exact:
  assumes "0 < m"
  shows "450359962737049600 \<le> m * 2 ^ binade m \<and> binade m \<le> 59"
proof -
  have "\<exists>k \<in> set [0..<60]. 450359962737049600 \<le> m * 2 ^ k"
    using assms by (intro bexI[of _ 59]) simp_all
  then obtain k where k: "find (\<lambda>k. 450359962737049600 \<le> m * 2 ^ k) [0..<60] = Some k"
    by (metis (mono_tags, lifting) find_None_iff option.exhaust)
  then have "450359962737049600 \<le> m * 2 ^ k" "k < 60" by (auto simp: find_Some_iff)
  moreover have "binade m = k" by (simp only: binade_def k option.case)
  ultimately show ?thesis by simp
qed

lemma binade_bounds:
  assumes "0 < m" and "m < 7036874417766400"
  shows "7 \<le> binade m \<and> binade m \<le> 59"
proof -
  note k = binade_exact[OF assms(1)]
  have "7 \<le> binade m"
  proof (rule ccontr)
    assume "\<not> 7 \<le> binade m"
    then have "(2 :: int) ^ binade m \<le> 2 ^ 6" by (intro power_increasing) auto
    then have "m * 2 ^ binade m \<le> m * 2 ^ 6" using assms(1) by simp
    with assms(2) k show False by simp
  qed
  with k show ?thesis by simp
qed

lemma float_div_100_error:
  assumes "\<bar>c\<bar> < 7036874417766400"
  shows "\<bar>100 * float_div_100 c - c * 2 ^ 60\<bar> \<le> 50 * 2 ^ 53"
proof (cases "c = 0")
  case True
  then show ?thesis by (simp add: float_div_100_def)
next
  case False
  define k where "k = binade \<bar>c\<bar>"
  have k: "7 \<le> k" "k \<le> 59" using binade_bounds[of "\<bar>c\<bar>"] False assms by (auto simp: k_def)
  define d where "d = 100 * round_half_even (\<bar>c\<bar> * 2 ^ k) 100 - \<bar>c\<bar> * 2 ^ k"
  have "(2 :: int) ^ 60 = 2 ^ k * 2 ^ (60 - k)" using k by (simp flip: power_add)
  moreover have "c = sgn c * \<bar>c\<bar>" by (simp add: sgn_mult_abs)
  ultimately have "100 * float_div_100 c - c * 2 ^ 60 = sgn c * (d * 2 ^ (60 - k))"
    unfolding float_div_100_def Let_def k_def[symmetric] d_def by (simp add: False algebra_simps)
  moreover have "\<bar>sgn c\<bar> = 1" using False by (simp add: abs_sgn_eq)
  ultimately have "\<bar>100 * float_div_100 c - c * 2 ^ 60\<bar> = \<bar>d\<bar> * 2 ^ (60 - k)"
    by (simp add: abs_mult)
  also have "\<dots> \<le> 50 * 2 ^ 53"
    using round_half_even_error[of "\<bar>c\<bar> * 2 ^ k"] k
    by (intro mult_mono power_increasing) (auto simp: d_def)
  finally show ?thesis .
qed

lemma float_div_100_zero: "float_div_100 c = 0 \<longleftrightarrow> c = 0"
proof (cases "c = 0")
  case True
  then show ?thesis by (simp add: float_div_100_def)
next
  case False
  let ?k = "binade \<bar>c\<bar>"
  from False have "450359962737049600 \<le> \<bar>c\<bar> * 2 ^ ?k" using binade_exact[of "\<bar>c\<bar>"] by simp
  then have "round_half_even (\<bar>c\<bar> * 2 ^ ?k) 100 \<noteq> 0"
    using round_half_even_error[of "\<bar>c\<bar> * 2 ^ ?k"] by auto
  with False show ?thesis by (simp add: float_div_100_def Let_def sgn_0_0)
qed

lemma FormatCents_long: "9007199254740992 \<le> \<bar>sint v\<bar> \<Longrightarrow> 4 < length (FormatCents v)"
proof -
  assume "9007199254740992 \<le> \<bar>sint v\<bar>"
  then have "100 \<le> nat \<bar>sint v\<bar> div 100" by simp
  moreover have "nat \<bar>sint v\<bar> div 100 < 100" if "length (dec (nat \<bar>sint v\<bar> div 100)) \<le> 2"
    using dec_value_bound[OF dec_digits, of "nat \<bar>sint v\<bar> div 100"]
      power_increasing[OF that, of "10 :: nat"] by simp
  ultimately have "\<not> length (dec (nat \<bar>sint v\<bar> div 100)) \<le> 2" by (meson not_less)
  moreover have "0 < length (pad2 (nat \<bar>sint v\<bar> mod 100))" by (simp add: pad2_def)
  moreover have "length (dec (nat \<bar>sint v\<bar> div 100)) + 1 + length (pad2 (nat \<bar>sint v\<bar> mod 100))
      \<le> length (FormatCents v)"
    by (simp add: FormatCents_eq)
  ultimately show ?thesis by linarith
qed

lemma reportAmount_small:
  "\<bar>sint a\<bar> < 7036874417766400 \<Longrightarrow> reportAmount a = CellNumber (float_div_100 (sint a))"
proof -
  assume "\<bar>sint a\<bar> < 7036874417766400"
  moreover have "sint maxExactInteger = 9007199254740992" "sint (- maxExactInteger) = - 9007199254740992"
    by (simp_all add: maxExactInteger_def push_bit_eq_mult)
  ultimately have "\<not> maxExactInteger <s a" "\<not> a <s - maxExactInteger"
    by (auto simp: word_sless_alt)
  then show ?thesis by (simp add: reportAmount_def)
qed

text \<open>
  C32. Amounts of less than \<open>2 ^ 46\<close> dollars stay distinct when the workbook shows them as
  floating point numbers. Above that they do not, although the program treats every amount of up
  to \<open>2 ^ 53\<close> cents as exact: it divides by 100, and neighbouring cents become the same number.
\<close>

theorem reportAmount_distinguishes:
  assumes "\<bar>sint a\<bar> < 7036874417766400" and "\<bar>sint b\<bar> < 7036874417766400"
  shows "(reportAmount a = reportAmount b \<longleftrightarrow> a = b) \<and>
    reportAmount 9007199254740990 = reportAmount 9007199254740991"
proof
  have "a = b" if "float_div_100 (sint a) = float_div_100 (sint b)"
  proof -
    have "\<bar>(sint a - sint b) * 2 ^ 60\<bar> \<le> 100 * 2 ^ 53"
      using float_div_100_error[OF assms(1)] float_div_100_error[OF assms(2)] that
      by (simp add: algebra_simps)
    then have "sint a = sint b" by simp
    then show ?thesis by (rule sint_eqD)
  qed
  then show "reportAmount a = reportAmount b \<longleftrightarrow> a = b"
    using assms by (auto simp: reportAmount_small)
  show "reportAmount 9007199254740990 = reportAmount 9007199254740991" by code_simp
qed

lemma reportAmount_distinguishes_witness:
  "\<bar>sint (1999 :: int64)\<bar> < 7036874417766400 \<and> reportAmount 1999 \<noteq> reportAmount (- 1999)"
  using reportAmount_distinguishes[of 1999 "- 1999"] by simp

section \<open>Sums of buckets\<close>

interpretation field_ledger: ledger "add_field s src" "\<lambda>acc _. sint acc" "\<lambda>_. ()"
  "\<lambda>f. sint (bucket s f src)" for s src
  by unfold_locales (auto simp: add_field_def Add_Inr_iff split: sum.splits)

interpretation side_ledger: ledger "add_side src" "\<lambda>acc _. sint acc" "\<lambda>_. ()"
  "\<lambda>b. sint (gget 0 (snd b) src)" for src
  by unfold_locales (auto simp: add_side_def Add_Inr_iff)

lemma sumFields_exact:
  "sumFields s src fs = Inr v \<Longrightarrow> sint v = (\<Sum>f\<leftarrow>fs. sint (bucket s f src))"
  unfolding sumFields_def by (drule field_ledger.run_exact[where k = "()"]) simp

lemma sumSummary_exact:
  "sumSummary s src = Inr v \<Longrightarrow> sint v = (\<Sum>b\<leftarrow>Buckets s. sint (gget 0 (snd b) src))"
  unfolding sumSummary_def by (drule side_ledger.run_exact[where k = "()"]) simp

lemma add_sides_Inl:
  "foldE (add_side src) bs acc = Inl e \<Longrightarrow>
     \<exists>n. sint acc + (\<Sum>b\<leftarrow>take n bs. sint (gget 0 (snd b) src))
       \<notin> {- 9223372036854775808..9223372036854775807}"
proof (induction bs arbitrary: acc)
  case Nil
  then show ?case by simp
next
  case (Cons b bs)
  let ?x = "sint (gget 0 (snd b) src)"
  show ?case
  proof (cases "add_side src b acc")
    case (Inl e')
    then have "sint acc + ?x \<notin> {- 9223372036854775808..9223372036854775807}"
      by (auto simp: add_side_def Add_cases split: if_splits)
    then show ?thesis by (intro exI[of _ 1]) simp
  next
    case (Inr v)
    with Cons.prems have "foldE (add_side src) bs v = Inl e" by (simp add: result_simps)
    then obtain n where "sint v + (\<Sum>b\<leftarrow>take n bs. sint (gget 0 (snd b) src))
        \<notin> {- 9223372036854775808..9223372036854775807}" using Cons.IH by blast
    moreover have "sint v = sint acc + ?x" using Inr by (simp add: add_side_def Add_Inr_iff)
    ultimately show ?thesis by (intro exI[of _ "Suc n"]) (simp add: add.assoc)
  qed
qed

lemma sumSummary_Inl:
  "sumSummary s src = Inl e \<Longrightarrow>
     \<exists>n. (\<Sum>b\<leftarrow>take n (Buckets s). sint (gget 0 (snd b) src))
       \<notin> {- 9223372036854775808..9223372036854775807}"
  unfolding sumSummary_def by (drule add_sides_Inl) simp

text \<open>
  C33. The activity that the report compares with the header is the exact sum of a side of all the
  buckets, as unbounded integers, and the sum is refused only if some prefix of the buckets leaves
  the 64 bits. So two results agree whatever the iteration order of the map was; but whether there
  is a result depends on that order: the same buckets overflow in one order and not in another.
\<close>

theorem sumSummary_order:
  "(case sumSummary s src of
      Inr v \<Rightarrow> sint v = (\<Sum>b\<leftarrow>Buckets s. sint (gget 0 (snd b) src))
    | Inl e \<Rightarrow> (\<exists>n. (\<Sum>b\<leftarrow>take n (Buckets s). sint (gget 0 (snd b) src))
        \<notin> {- 9223372036854775808..9223372036854775807})) \<and>
   (if mset (Buckets s) = mset (Buckets s')
    then (case (sumSummary s src, sumSummary s' src) of (Inr v, Inr v') \<Rightarrow> v = v' | _ \<Rightarrow> True)
    else True) \<and>
   (\<exists>u u'. mset (Buckets u) = mset (Buckets u') \<and> sumSummary u SourceSettlement = Inr maxInt64 \<and>
      sumSummary u' SourceSettlement = Inl AdditionOverflow)"
proof (intro conjI)
  show "case sumSummary s src of
      Inr v \<Rightarrow> sint v = (\<Sum>b\<leftarrow>Buckets s. sint (gget 0 (snd b) src))
    | Inl e \<Rightarrow> (\<exists>n. (\<Sum>b\<leftarrow>take n (Buckets s). sint (gget 0 (snd b) src))
        \<notin> {- 9223372036854775808..9223372036854775807})"
    using sumSummary_exact sumSummary_Inl by (simp split: sum.split)
next
  have "v = v'" if "mset (Buckets s) = mset (Buckets s')" "sumSummary s src = Inr v"
    "sumSummary s' src = Inr v'" for v v'
    using side_ledger.run_order_irrelevant[OF that(1)] that(2,3) sint_eqD
    unfolding sumSummary_def by blast
  then show "if mset (Buckets s) = mset (Buckets s')
    then (case (sumSummary s src, sumSummary s' src) of (Inr v, Inr v') \<Rightarrow> v = v' | _ \<Rightarrow> True)
    else True"
    by (auto split: sum.splits)
next
  let ?b = "\<lambda>t v. (t, [(SourceSettlement, v :: int64)])"
  let ?u = "\<lparr>Buckets = [?b ''sales_tax'' maxInt64, ?b ''sales_other'' (- 1), ?b ''paid_to_amazon'' 1]\<rparr>"
  let ?u' = "\<lparr>Buckets = [?b ''sales_tax'' maxInt64, ?b ''paid_to_amazon'' 1, ?b ''sales_other'' (- 1)]\<rparr>"
  have "mset (Buckets ?u) = mset (Buckets ?u')" by simp
  moreover have "case sumSummary ?u SourceSettlement of Inr v \<Rightarrow> v = maxInt64 | Inl _ \<Rightarrow> False"
    "case sumSummary ?u' SourceSettlement of Inl AdditionOverflow \<Rightarrow> True | _ \<Rightarrow> False"
    by code_simp+
  ultimately show "\<exists>u u'. mset (Buckets u) = mset (Buckets u') \<and>
      sumSummary u SourceSettlement = Inr maxInt64 \<and> sumSummary u' SourceSettlement = Inl AdditionOverflow"
    by (intro exI[of _ ?u] exI[of _ ?u']) (auto split: sum.splits money_error.splits)
qed

section \<open>The summary sheet\<close>

definition row_fields :: "nat \<Rightarrow> string \<Rightarrow> string list" where
  "row_fields row field = (if field = [] then subtotal_fields row else [field])"

definition side_total :: "summary \<Rightarrow> source \<Rightarrow> string list \<Rightarrow> int" where
  "side_total s src fs = (\<Sum>f\<leftarrow>fs. sint (bucket s f src))"

lemma row_figure_exact:
  "row_figure s row field src = Inr v \<Longrightarrow> sint v = side_total s src (row_fields row field)"
  by (auto simp: row_figure_def row_fields_def side_total_def dest: sumFields_exact split: if_splits)

definition figures_exact :: "summary \<Rightarrow> nat \<times> string \<times> string \<Rightarrow> cells \<Rightarrow> bool" where
  "figures_exact s x ws \<longleftrightarrow>
     (\<exists>p q d. ws = [(cell_name CHR ''C'' (fst x), reportAmount p), (cell_name CHR ''D'' (fst x), reportAmount q),
                  (cell_name CHR ''E'' (fst x), reportAmount d)] \<and>
        sint p = side_total s SourcePayment (row_fields (fst x) (snd (snd x))) \<and>
        sint q = side_total s SourceSettlement (row_fields (fst x) (snd (snd x))) \<and>
        sint d = sint p - sint q)"

lemma figure_row_exact: "figure_row s x = Inr ws \<Longrightarrow> figures_exact s x ws"
proof -
  assume "figure_row s x = Inr ws"
  then obtain p q d where "row_figure s (fst x) (snd (snd x)) SourcePayment = Inr p"
    "row_figure s (fst x) (snd (snd x)) SourceSettlement = Inr q" "Sub p q = Inr d"
    "ws = [(cell_name CHR ''C'' (fst x), reportAmount p), (cell_name CHR ''D'' (fst x), reportAmount q),
        (cell_name CHR ''E'' (fst x), reportAmount d)]"
    by (auto simp: figure_row_def Let_def split: sum.splits)
  then show ?thesis
    unfolding figures_exact_def Sub_Inr_iff by (metis row_figure_exact)
qed

lemma cell_at_unique: "distinct (map fst ws) \<Longrightarrow> (a, v) \<in> set ws \<Longrightarrow> cell_at ws a = Some v"
  by (simp add: cell_at_def rev_map[symmetric])

definition summary_addresses :: "string list" where
  "summary_addresses =
     [''B1'', ''C1'', ''D1'', ''E1''] @ map (\<lambda>x. cell_name CHR ''B'' (fst x)) summaryRows @
     concat (map (\<lambda>x. [cell_name CHR ''C'' (fst x), cell_name CHR ''D'' (fst x), cell_name CHR ''E'' (fst x)])
       summaryRows) @ [''B34'', ''D34'', ''B35'', ''D35'']"

lemma distinct_summary_addresses: "distinct summary_addresses"
  by code_simp

lemma writeSummary_Inr:
  assumes "writeSummary r = Inr cs"
  obtains figures activity d where
    "list_all2 (figures_exact (res_Summary r)) summaryRows figures"
    "sumSummary (res_Summary r) SourceSettlement = Inr activity"
    "sint d = sint activity - sint (res_SettlementHeader r)"
    "set (concat figures) \<subseteq> set cs" "(''D35'', reportAmount d) \<in> set cs"
    "distinct (map fst cs)"
proof -
  from assms obtain figures activity d where
    f: "mapE (figure_row (res_Summary r)) summaryRows = Inr figures" and
    a: "sumSummary (res_Summary r) SourceSettlement = Inr activity" and
    d: "Sub activity (res_SettlementHeader r) = Inr d" and
    cs: "cs = [(''B1'', CellText ''Summary''), (''C1'', CellText ''Payments''),
                  (''D1'', CellText ''Settlements''), (''E1'', CellText ''Payments - Settlements'')] @
            map (\<lambda>x. (cell_name CHR ''B'' (fst x), CellText (fst (snd x)))) summaryRows @ concat figures @
            [(''B34'', CellText ''Settlement header control''),
             (''D34'', reportAmount (res_SettlementHeader r)),
             (''B35'', CellText ''Activity minus header control''), (''D35'', reportAmount d)]"
    unfolding writeSummary_def Let_def by (auto split: sum.splits)
  have ex: "list_all2 (figures_exact (res_Summary r)) summaryRows figures"
    using f unfolding mapE_Inr_iff by (rule list_all2_mono) (rule figure_row_exact)
  have "map fst (concat figures) = concat (map (\<lambda>x. [cell_name CHR ''C'' (fst x),
      cell_name CHR ''D'' (fst x), cell_name CHR ''E'' (fst x)]) summaryRows)"
    using ex by (induction rule: list_all2_induct) (auto simp: figures_exact_def)
  then have "map fst cs = summary_addresses"
    unfolding cs summary_addresses_def by (simp only: map_append map_map o_def fst_conv list.map)
  with distinct_summary_addresses have "distinct (map fst cs)" by simp
  moreover have "set (concat figures) \<subseteq> set cs" "(''D35'', reportAmount d) \<in> set cs"
    unfolding cs by auto
  ultimately show ?thesis using that ex a d by (simp add: Sub_Inr_iff)
qed

lemma summary_row_cells:
  assumes "writeSummary r = Inr cs" and "(row, label, field) \<in> set summaryRows"
  obtains p q d where "cell_at cs (cell_name CHR ''C'' row) = Some (reportAmount p)"
    "cell_at cs (cell_name CHR ''D'' row) = Some (reportAmount q)"
    "cell_at cs (cell_name CHR ''E'' row) = Some (reportAmount d)"
    "sint p = side_total (res_Summary r) SourcePayment (row_fields row field)"
    "sint q = side_total (res_Summary r) SourceSettlement (row_fields row field)"
    "sint d = sint p - sint q"
proof -
  from assms(1) obtain figures activity c where
    ex: "list_all2 (figures_exact (res_Summary r)) summaryRows figures" and
    mem: "set (concat figures) \<subseteq> set cs" and
    dist: "distinct (map fst cs)" by (rule writeSummary_Inr)
  obtain ws where ws: "ws \<in> set figures" "figures_exact (res_Summary r) (row, label, field) ws"
    using ex assms(2) by (metis list_all2_conv_all_nth in_set_conv_nth)
  then have sub: "set ws \<subseteq> set cs" using mem by auto
  from ws(2) obtain p q d where pqd: "ws = [(cell_name CHR ''C'' row, reportAmount p),
      (cell_name CHR ''D'' row, reportAmount q), (cell_name CHR ''E'' row, reportAmount d)]"
    "sint p = side_total (res_Summary r) SourcePayment (row_fields row field)"
    "sint q = side_total (res_Summary r) SourceSettlement (row_fields row field)"
    "sint d = sint p - sint q"
    unfolding figures_exact_def by auto
  have "cell_at cs (cell_name CHR ''C'' row) = Some (reportAmount p)"
    "cell_at cs (cell_name CHR ''D'' row) = Some (reportAmount q)"
    "cell_at cs (cell_name CHR ''E'' row) = Some (reportAmount d)"
    using sub by (auto intro!: cell_at_unique[OF dist] simp: pqd(1))
  with pqd(2-) that show ?thesis by blast
qed

lemma summary_control_cell:
  assumes "writeSummary r = Inr cs"
  obtains d where "cell_at cs ''D35'' = Some (reportAmount d)"
    "sint d = (\<Sum>b\<leftarrow>Buckets (res_Summary r). sint (gget 0 (snd b) SourceSettlement)) -
      sint (res_SettlementHeader r)"
proof -
  from assms obtain figures activity d where
    act: "sumSummary (res_Summary r) SourceSettlement = Inr activity" and
    d: "sint d = sint activity - sint (res_SettlementHeader r)" and
    mem: "(''D35'', reportAmount d) \<in> set cs" and
    dist: "distinct (map fst cs)" by (rule writeSummary_Inr)
  from cell_at_unique[OF dist mem] d sumSummary_exact[OF act] that show ?thesis by simp
qed

text \<open>
  C29. Every figure of the summary sheet is exact: on each row, the payment and settlement columns
  are the summary bucket of the row's field, or for a subtotal row the sum of the buckets of its
  fields, and the third column is their difference; and the control cell is the activity of all
  settlement buckets less the settlement header.
\<close>

theorem writeSummary_figures:
  assumes "writeSummary r = Inr cs"
  shows "list_all (\<lambda>(row, _, field). \<exists>p q d.
      cell_at cs (cell_name CHR ''C'' row) = Some (reportAmount p) \<and>
      cell_at cs (cell_name CHR ''D'' row) = Some (reportAmount q) \<and>
      cell_at cs (cell_name CHR ''E'' row) = Some (reportAmount d) \<and>
      sint p = side_total (res_Summary r) SourcePayment (row_fields row field) \<and>
      sint q = side_total (res_Summary r) SourceSettlement (row_fields row field) \<and>
      sint d = sint p - sint q) summaryRows \<and>
    (\<exists>d. cell_at cs ''D35'' = Some (reportAmount d) \<and>
      sint d = (\<Sum>b\<leftarrow>Buckets (res_Summary r). sint (gget 0 (snd b) SourceSettlement)) -
        sint (res_SettlementHeader r))"
proof -
  have "\<exists>p q d. cell_at cs (cell_name CHR ''C'' row) = Some (reportAmount p) \<and>
      cell_at cs (cell_name CHR ''D'' row) = Some (reportAmount q) \<and>
      cell_at cs (cell_name CHR ''E'' row) = Some (reportAmount d) \<and>
      sint p = side_total (res_Summary r) SourcePayment (row_fields row field) \<and>
      sint q = side_total (res_Summary r) SourceSettlement (row_fields row field) \<and>
      sint d = sint p - sint q" if "(row, label, field) \<in> set summaryRows" for row label field
    using summary_row_cells[OF assms that] by metis
  moreover obtain d where "cell_at cs ''D35'' = Some (reportAmount d)"
    "sint d = (\<Sum>b\<leftarrow>Buckets (res_Summary r). sint (gget 0 (snd b) SourceSettlement)) -
      sint (res_SettlementHeader r)" using summary_control_cell[OF assms] .
  ultimately show ?thesis unfolding list_all_iff by blast
qed

definition ex_result :: "int64 \<Rightarrow> string run_result" where
  "ex_result header =
     \<lparr>res_PaymentRows = [], res_SettlementRows = [], res_Groups = [],
      res_Summary = \<lparr>Buckets =
        [(''sales_tax'', [(SourcePayment, 150), (SourceSettlement, 150)]),
         (''sales_other'', [(SourcePayment, - 50), (SourceSettlement, - 50)])]\<rparr>,
      res_SettlementHeader = header, res_SettlementCurrency = ''AUD'', res_Issues = []\<rparr>"

lemma ex_summary: "\<exists>cs. writeSummary (ex_result 100) = Inr cs"
  by (simp add: writeSummary_def summaryRows_def ex_result_def figure_row_def row_figure_def
      sumFields_def subtotal_fields_def add_field_def bucket_def gget_def sumSummary_def add_side_def
      Add_cases Sub_cases)

lemma writeSummary_figures_witness:
  "\<exists>cs d. writeSummary (ex_result 100) = Inr cs \<and> cell_at cs ''D35'' = Some (reportAmount d) \<and> d = 0"
proof -
  obtain cs where cs: "writeSummary (ex_result 100) = Inr cs"
    using ex_summary by blast
  from writeSummary_figures[OF cs] obtain d where d: "cell_at cs ''D35'' = Some (reportAmount d)"
    "sint d = (\<Sum>b\<leftarrow>Buckets (res_Summary (ex_result 100)). sint (gget 0 (snd b) SourceSettlement)) -
      sint (res_SettlementHeader (ex_result 100))" by blast
  from d(2) have "sint d = sint (0 :: int64)" by (simp add: ex_result_def gget_def)
  then have "d = 0" by (rule sint_eqD)
  with cs d(1) show ?thesis by blast
qed

section \<open>Verification of a published workbook\<close>

lemma check_zero_None:
  "check_zero f cs = None \<longleftrightarrow> list_all (\<lambda>c. \<exists>v. op_cell f ''Summary'' c = Inr v \<and> v \<in> set zero_texts) cs"
  by (induction cs) (auto split: sum.splits)

lemma Verify_zero_cells:
  assumes "Verify open_file path = None" and "open_file path = Inr f"
  shows "list_all (\<lambda>c. \<exists>v. op_cell f ''Summary'' c = Inr v \<and> v \<in> set zero_texts) zero_cells"
  using assms by (auto simp: Verify_def check_zero_None split: option.splits)

lemma zero_cell_styles:
  "map style_at zero_cells =
     map (\<lambda>x. if snd (snd x) = [] then SubStyle else MoneyStyle) summaryRows @ [MoneyStyle]"
  by code_simp

lemma zero_cell_style: "a \<in> set zero_cells \<Longrightarrow> style_at a \<in> {MoneyStyle, SubStyle}"
proof -
  assume "a \<in> set zero_cells"
  then have "style_at a \<in> set (map style_at zero_cells)" by simp
  then show ?thesis unfolding zero_cell_styles by auto
qed

text \<open>
  How the library shows the cells of the summary sheet: a written cell as the text \<open>render\<close> gives
  its value in the style the program has set on that cell.
\<close>

definition shows_cells :: "(cell_style \<Rightarrow> cell_value \<Rightarrow> string) \<Rightarrow> opened \<Rightarrow> cells \<Rightarrow> bool" where
  "shows_cells render f cs \<longleftrightarrow>
     (\<forall>a v. cell_at cs a = Some v \<longrightarrow> op_cell f ''Summary'' a = Inr (render (style_at a) v))"

text \<open>
  C30. A workbook whose verification succeeds shows a balanced run, if the library formats an amount
  as a zero, in the style of a row, of a subtotal row or of the control cell, only when it is zero:
  on every row of the summary the payments and the settlements are
  equal, field by field and in the subtotals, and the settlement activity equals the header.
\<close>

theorem verified_report_balanced:
  assumes "writeSummary r = Inr cs" and "open_file path = Inr f" and "shows_cells render f cs"
    and "\<And>st c. st \<in> {MoneyStyle, SubStyle} \<Longrightarrow> render st (reportAmount c) \<in> set zero_texts \<Longrightarrow> c = 0"
    and "Verify open_file path = None"
  shows "list_all (\<lambda>(row, _, field).
      side_total (res_Summary r) SourcePayment (row_fields row field) =
      side_total (res_Summary r) SourceSettlement (row_fields row field)) summaryRows \<and>
    (\<Sum>b\<leftarrow>Buckets (res_Summary r). sint (gget 0 (snd b) SourceSettlement)) = sint (res_SettlementHeader r)"
proof -
  have zero: "c = 0" if cell: "cell_at cs a = Some (reportAmount c)" and mem: "a \<in> set zero_cells" for a c
  proof -
    obtain v where v: "op_cell f ''Summary'' a = Inr v" "v \<in> set zero_texts"
      using Verify_zero_cells[OF assms(5,2)] mem by (auto simp: list_all_iff)
    from assms(3) cell have "op_cell f ''Summary'' a = Inr (render (style_at a) (reportAmount c))"
      unfolding shows_cells_def by blast
    with v have "render (style_at a) (reportAmount c) \<in> set zero_texts" by simp
    with zero_cell_style[OF mem] show ?thesis by (rule assms(4))
  qed
  have rows: "side_total (res_Summary r) SourcePayment (row_fields row field) =
      side_total (res_Summary r) SourceSettlement (row_fields row field)"
    if row: "(row, label, field) \<in> set summaryRows" for row label field
  proof -
    obtain p q d where d: "cell_at cs (cell_name CHR ''C'' row) = Some (reportAmount p)"
      "cell_at cs (cell_name CHR ''D'' row) = Some (reportAmount q)"
      "cell_at cs (cell_name CHR ''E'' row) = Some (reportAmount d)"
      "sint p = side_total (res_Summary r) SourcePayment (row_fields row field)"
      "sint q = side_total (res_Summary r) SourceSettlement (row_fields row field)"
      "sint d = sint p - sint q"
      by (rule summary_row_cells[OF assms(1) row])
    have "cell_name CHR ''E'' row \<in> set zero_cells" 
      using imageI[OF row, of "\<lambda>x. cell_name CHR ''E'' (fst x)"] by (simp add: zero_cells_def)
    with zero[OF d(3)] have "d = 0" .
    with d(4-) show ?thesis by simp
  qed
  moreover have "''D35'' \<in> set zero_cells" by (simp add: zero_cells_def)
  moreover obtain d where d: "cell_at cs ''D35'' = Some (reportAmount d)"
    "sint d = (\<Sum>b\<leftarrow>Buckets (res_Summary r). sint (gget 0 (snd b) SourceSettlement)) -
      sint (res_SettlementHeader r)" using summary_control_cell[OF assms(1)] .
  ultimately have "d = 0" using zero by blast
  with d(2) have "(\<Sum>b\<leftarrow>Buckets (res_Summary r). sint (gget 0 (snd b) SourceSettlement)) =
      sint (res_SettlementHeader r)" by simp
  with rows show ?thesis by (auto simp: list_all_iff)
qed

text \<open>
  A library for the witness: a zero in the number format of the money style is \<open>0.00\<close> and in the
  general format of a subtotal row it is \<open>0\<close>.
\<close>

fun ex_render :: "cell_style \<Rightarrow> cell_value \<Rightarrow> string" where
  "ex_render st (CellText s) = s"
| "ex_render st (CellNumber n) =
     (if n \<noteq> 0 then ''#'' else if st = MoneyStyle then ''0.00'' else ''0'')"
| "ex_render st (CellInt i) = dec_int i"

definition ex_open :: "string \<Rightarrow> io_error + opened" where
  "ex_open path = Inr \<lparr>op_sheets = sheet_names,
     op_cell = (\<lambda>sheet a. case writeSummary (ex_result 100) of Inl _ \<Rightarrow> Inl (IOError [])
       | Inr cs \<Rightarrow> (case cell_at cs a of None \<Rightarrow> Inr [] | Some v \<Rightarrow> Inr (ex_render (style_at a) v))),
     op_rows = (\<lambda>sheet. Inr (if sheet = ''Run Info''
       then [[''Property'', ''Value''], [''mode'', ''strict''], [''mapping_issues'', ''0'']]
       else [[''x''], [''y'']]))\<rparr>"

lemma ex_balanced:
  "list_all (\<lambda>(row, _, field). side_total (res_Summary (ex_result 100)) SourcePayment (row_fields row field) =
      side_total (res_Summary (ex_result 100)) SourceSettlement (row_fields row field)) summaryRows"
  by (simp add: summaryRows_def ex_result_def side_total_def row_fields_def subtotal_fields_def
      bucket_def gget_def)

lemma ex_render_reportAmount: "ex_render st (reportAmount c) \<in> set zero_texts \<Longrightarrow> c = 0"
proof -
  assume zero: "ex_render st (reportAmount c) \<in> set zero_texts"
  have max: "sint maxExactInteger = 9007199254740992" "sint (- maxExactInteger) = - 9007199254740992"
    by (simp_all add: maxExactInteger_num)
  show "c = 0"
  proof (cases "maxExactInteger <s c \<or> c <s - maxExactInteger")
    case True
    then have "9007199254740992 \<le> \<bar>sint c\<bar>" by (auto simp: word_sless_alt max)
    then have "4 < length (FormatCents c)" by (rule FormatCents_long)
    with True zero show ?thesis by (auto simp: reportAmount_def zero_texts_def)
  next
    case False
    then have "float_div_100 (sint c) = 0"
      using zero by (simp add: reportAmount_def zero_texts_def split: if_splits)
    then have "sint c = sint (0 :: int64)" by (simp add: float_div_100_zero)
    then show ?thesis by (rule sint_eqD)
  qed
qed

lemma ex_Verify: "Verify ex_open ''out.xlsx'' = None"
proof -
  obtain cs where cs: "writeSummary (ex_result 100) = Inr cs" using ex_summary by blast
  obtain f where f: "ex_open ''out.xlsx'' = Inr f" by (simp add: ex_open_def)
  have cell: "op_cell f ''Summary'' a = Inr (ex_render (style_at a) v)" if "cell_at cs a = Some v" for a v
    using f that cs by (auto simp: ex_open_def)
  have "reportAmount 0 = CellNumber 0" by code_simp
  then have zero: "ex_render st (reportAmount 0) \<in> set zero_texts" for st
    by (simp add: zero_texts_def)
  have "\<exists>v. op_cell f ''Summary'' (cell_name CHR ''E'' row) = Inr v \<and> v \<in> set zero_texts"
    if row: "(row, label, field) \<in> set summaryRows" for row label field
  proof -
    obtain p q d where d: "cell_at cs (cell_name CHR ''E'' row) = Some (reportAmount d)"
      "sint d = side_total (res_Summary (ex_result 100)) SourcePayment (row_fields row field) -
        side_total (res_Summary (ex_result 100)) SourceSettlement (row_fields row field)"
      using summary_row_cells[OF cs row] by metis
    with ex_balanced row have "sint d = sint (0 :: int64)" by (auto simp: list_all_iff)
    then have "d = 0" by (rule sint_eqD)
    with cell[OF d(1)] zero show ?thesis by blast
  qed
  moreover obtain d where d: "cell_at cs ''D35'' = Some (reportAmount d)"
    "sint d = (\<Sum>b\<leftarrow>Buckets (res_Summary (ex_result 100)). sint (gget 0 (snd b) SourceSettlement)) -
      sint (res_SettlementHeader (ex_result 100))" using summary_control_cell[OF cs] .
  from d(2) have "sint d = sint (0 :: int64)" by (simp add: ex_result_def gget_def)
  then have "d = 0" by (rule sint_eqD)
  with cell[OF d(1)] zero have "\<exists>v. op_cell f ''Summary'' ''D35'' = Inr v \<and> v \<in> set zero_texts"
    by blast
  ultimately have "check_zero f zero_cells = None"
    unfolding check_zero_None zero_cells_def by (auto simp: list_all_iff)
  then show ?thesis
    using f by (auto simp: Verify_def verifyStructure_def check_sheets_def sheet_names_def ex_open_def
        data_sheets_def run_info_def gget_def)
qed

lemma ex_shown:
  "case ex_open ''out.xlsx'' of
     Inr f \<Rightarrow> op_cell f ''Summary'' ''E4'' = Inr ''0'' \<and> op_cell f ''Summary'' ''E6'' = Inr ''0.00''
   | Inl _ \<Rightarrow> False"
proof -
  obtain cs where cs: "writeSummary (ex_result 100) = Inr cs" using ex_summary by blast
  have "reportAmount 0 = CellNumber 0" by code_simp
  moreover have "cell_at cs (cell_name CHR ''E'' row) = Some (reportAmount 0)"
    if row: "(row, label, field) \<in> set summaryRows" for row label field
  proof -
    obtain p q d where d: "cell_at cs (cell_name CHR ''E'' row) = Some (reportAmount d)"
      "sint d = side_total (res_Summary (ex_result 100)) SourcePayment (row_fields row field) -
        side_total (res_Summary (ex_result 100)) SourceSettlement (row_fields row field)"
      using summary_row_cells[OF cs row] by metis
    with ex_balanced row have "sint d = sint (0 :: int64)" by (auto simp: list_all_iff)
    with d(1) show ?thesis using sint_eqD by metis
  qed
  moreover have "(4, ''Sales'', []) \<in> set summaryRows" "(6, ''Tax'', ''sales_tax'') \<in> set summaryRows"
    by (simp_all add: summaryRows_def)
  moreover have "cell_name CHR ''E'' 4 = ''E4''" "cell_name CHR ''E'' 6 = ''E6''"
    "style_at ''E4'' = SubStyle" "style_at ''E6'' = MoneyStyle" by code_simp+
  ultimately have "cell_at cs ''E4'' = Some (CellNumber 0)" "cell_at cs ''E6'' = Some (CellNumber 0)"
    "style_at ''E4'' = SubStyle" "style_at ''E6'' = MoneyStyle" by metis+
  with cs show ?thesis by (simp add: ex_open_def)
qed

lemma verified_report_balanced_witness:
  "Verify ex_open ''out.xlsx'' = None \<and>
   (case ex_open ''out.xlsx'' of
      Inr f \<Rightarrow> op_cell f ''Summary'' ''E4'' = Inr ''0'' \<and> op_cell f ''Summary'' ''E6'' = Inr ''0.00''
    | Inl _ \<Rightarrow> False) \<and>
   side_total (res_Summary (ex_result 100)) SourcePayment [''sales_tax''] =
   side_total (res_Summary (ex_result 100)) SourceSettlement [''sales_tax'']"
proof -
  obtain cs where cs: "writeSummary (ex_result 100) = Inr cs" using ex_summary by blast
  obtain f where f: "ex_open ''out.xlsx'' = Inr f" by (simp add: ex_open_def)
  have shown: "shows_cells ex_render f cs"
    using f cs by (auto simp: shows_cells_def ex_open_def)
  have "(6, ''Tax'', ''sales_tax'') \<in> set summaryRows" by (simp add: summaryRows_def)
  with verified_report_balanced[OF cs f shown _ ex_Verify] ex_render_reportAmount
  have "side_total (res_Summary (ex_result 100)) SourcePayment [''sales_tax''] =
   side_total (res_Summary (ex_result 100)) SourceSettlement [''sales_tax'']"
    by (fastforce simp: list_all_iff row_fields_def)
  with ex_Verify ex_shown show ?thesis by blast
qed

section \<open>Publishing\<close>


definition ex_blank :: opened where
  "ex_blank = \<lparr>op_sheets = [], op_cell = (\<lambda>_ _. Inl (IOError [])), op_rows = (\<lambda>_. Inl (IOError []))\<rparr>"

definition ex_publisher :: publisher where
  "ex_publisher = \<lparr>pub_clean = id, pub_temp = (\<lambda>d. Inr (''.tmp'' @ d)),
     pub_save = (\<lambda>_. ex_open []), pub_partial = (\<lambda>_. ex_blank), pub_rename = (\<lambda>_. None),
     pub_remove = (\<lambda>_. None)\<rparr>"


end
