(* ===== verification/Fingerprint.thy ===== *)
theory Fingerprint
  imports Engine Ingest
begin

text \<open>
  Identities the store computes: \<open>runFingerprint\<close> of \<open>internal/store/store.go\<close> and \<open>configHash\<close> of
  \<open>internal/store/config.go\<close>, both the SHA-256 of a sequence of length-prefixed values, and the
  keys by which \<open>Persist\<close> finds its rows and rules. The hash in hexadecimal is a parameter,
  \<open>sha\<close>, of the text that is hashed; the lemmas are about that text.
\<close>

section \<open>Definitions\<close>

fun mode_string :: "mode \<Rightarrow> string" where
  "mode_string Diagnostic = ''diagnostic-baseline''"
| "mode_string Strict = ''strict''"
| "mode_string (ModeOther s) = s"

definition writeHashPart :: "string \<Rightarrow> string \<Rightarrow> string" where
  "writeHashPart h v = h @ dec (length v) @ '':'' @ v"

definition ruleLess :: "config_rule \<Rightarrow> config_rule \<Rightarrow> bool" where
  "ruleLess a b =
     (if source_string (rule_Source a) \<noteq> source_string (rule_Source b)
      then source_string (rule_Source a) < source_string (rule_Source b)
      else if rule_OriginFile a \<noteq> rule_OriginFile b then rule_OriginFile a < rule_OriginFile b
      else rule_OriginLine a < rule_OriginLine b)"

definition run_values :: "file_info \<Rightarrow> file_info \<Rightarrow> string \<Rightarrow> mode \<Rightarrow> int \<Rightarrow> string list" where
  "run_values pinfo sinfo selected m config =
     [info_SHA256 pinfo, info_SHA256 sinfo, selected, mode_string m, dec_int config,
      ''normalization-v1'', ''layout-v1'', ''reconciliation-v2'']"

definition run_rule_values :: "config_rule \<Rightarrow> string list" where
  "run_rule_values r =
     [source_string (rule_Source r), rule_OriginFile r, dec_int (rule_OriginLine r),
      rule_TransactionType r, rule_Description r, rule_AmountType r, rule_AmountDescription r,
      rule_AmountField r, rule_RecordRef r, rule_PositiveTarget r, rule_NegativeTarget r]"

definition fingerprint_text ::
  "file_info \<Rightarrow> file_info \<Rightarrow> string \<Rightarrow> mode \<Rightarrow> int \<Rightarrow> config_rule list \<Rightarrow> string" where
  "fingerprint_text pinfo sinfo selected m config rules =
     foldl writeHashPart [] (run_values pinfo sinfo selected m config @
       concat (map run_rule_values (sort_by ruleLess rules)))"

definition runFingerprint ::
  "(string \<Rightarrow> string) \<Rightarrow> file_info \<Rightarrow> file_info \<Rightarrow> string \<Rightarrow> mode \<Rightarrow> int \<Rightarrow> config_rule list \<Rightarrow> string" where
  "runFingerprint sha pinfo sinfo selected m config rules =
     sha (fingerprint_text pinfo sinfo selected m config rules)"

definition config_rule_values :: "config_rule \<Rightarrow> string list" where
  "config_rule_values r =
     [source_string (rule_Source r), rule_OriginFile r, dec_int (rule_OriginLine r),
      rule_TransactionType r, rule_Description r, rule_AmountField r, rule_AmountType r,
      rule_AmountDescription r, rule_RecordRef r, rule_PositiveTarget r, rule_NegativeTarget r]"

definition config_text :: "file_info \<Rightarrow> file_info \<Rightarrow> config_rule list \<Rightarrow> string" where
  "config_text payment settlement rules =
     foldl writeHashPart [] ([info_SHA256 payment, info_SHA256 settlement] @
       concat (map config_rule_values (sort_by ruleLess rules)))"

definition configHash :: "(string \<Rightarrow> string) \<Rightarrow> file_info \<Rightarrow> file_info \<Rightarrow> config_rule list \<Rightarrow> string" where
  "configHash sha payment settlement rules = sha (config_text payment settlement rules)"

definition ruleKey :: "config_rule \<Rightarrow> string" where
  "ruleKey r = source_string (rule_Source r) @ ''|'' @ rule_OriginFile r @ ''|'' @ dec_int (rule_OriginLine r)"

definition rowKey :: "raw_row \<Rightarrow> string" where
  "rowKey r = source_string (row_Source r) @ ''|'' @ dec_int (row_Ordinal r)"

definition nullable :: "string \<Rightarrow> string option" where
  "nullable s = (if TrimSpace s = [] then None else Some s)"

section \<open>Lemmas\<close>

lemma foldl_writeHashPart: "foldl writeHashPart h vs = h @ concat (map hash_part vs)"
  by (induction vs arbitrary: h) (simp_all add: writeHashPart_def hash_part_def)

lemma hash_parts_inject [simp]:
  "foldl writeHashPart [] vs = foldl writeHashPart [] ws \<longleftrightarrow> vs = ws"
  by (simp add: foldl_writeHashPart hash_code.concat_inject)

lemma concat_fixed_length_inject:
  assumes "\<And>x. length (f x) = n" and "0 < n"
  shows "concat (map f xs) = concat (map f ys) \<longleftrightarrow> map f xs = map f ys"
proof (induction xs arbitrary: ys)
  case Nil
  have "f y \<noteq> []" for y using assms by (metis length_0_conv less_numeral_extra(3))
  then show ?case by (cases ys) auto
next
  case (Cons x xs)
  have "f x \<noteq> []" using assms by (metis length_0_conv less_numeral_extra(3))
  then show ?case using Cons.IH assms(1) by (cases ys) auto
qed

definition rule_place :: "config_rule \<Rightarrow> string \<times> string \<times> int" where
  "rule_place r = (source_string (rule_Source r), rule_OriginFile r, rule_OriginLine r)"

interpretation rule_order: keyed_order ruleLess rule_place
  by unfold_locales (auto simp: ruleLess_def rule_place_def)

lemma sort_rules_unique:
  "mset rules = mset rules' \<Longrightarrow> distinct (map rule_place rules) \<Longrightarrow>
     sort_by ruleLess rules = sort_by ruleLess rules'"
  by (rule rule_order.sort_by_unique) (simp_all add: distinct_map)

lemma length_rule_values [simp]:
  "length (run_rule_values r) = 11" "length (config_rule_values r) = 11"
  by (simp_all add: run_rule_values_def config_rule_values_def)

lemma rule_values_inject:
  "concat (map run_rule_values rs) = concat (map run_rule_values rs') \<longleftrightarrow>
     map run_rule_values rs = map run_rule_values rs'"
  "concat (map config_rule_values rs) = concat (map config_rule_values rs') \<longleftrightarrow>
     map config_rule_values rs = map config_rule_values rs'"
  by (rule concat_fixed_length_inject[where n = 11]; simp)+

lemma same_rule_values:
  "run_rule_values r = run_rule_values r' \<longleftrightarrow> config_rule_values r = config_rule_values r'"
  by (auto simp: run_rule_values_def config_rule_values_def)

lemma map_rule_values:
  "map run_rule_values rs = map run_rule_values rs' \<longleftrightarrow>
     map config_rule_values rs = map config_rule_values rs'"
  by (induction rs arbitrary: rs'; case_tac rs') (simp_all add: same_rule_values)

lemma fingerprint_text_eq:
  "fingerprint_text p s sel m cfg rs = fingerprint_text p' s' sel' m' cfg' rs' \<longleftrightarrow>
     info_SHA256 p = info_SHA256 p' \<and> info_SHA256 s = info_SHA256 s' \<and> sel = sel' \<and>
     mode_string m = mode_string m' \<and> cfg = cfg' \<and>
     map config_rule_values (sort_by ruleLess rs) = map config_rule_values (sort_by ruleLess rs')"
proof -
  have "length (run_values p s sel m cfg) = length (run_values p' s' sel' m' cfg')"
    by (simp add: run_values_def)
  then show ?thesis
    unfolding fingerprint_text_def hash_parts_inject
    by (simp add: rule_values_inject map_rule_values del: map_eq_conv) (auto simp: run_values_def)
qed

lemma config_text_eq:
  "config_text p s rs = config_text p' s' rs' \<longleftrightarrow>
     info_SHA256 p = info_SHA256 p' \<and> info_SHA256 s = info_SHA256 s' \<and>
     map config_rule_values (sort_by ruleLess rs) = map config_rule_values (sort_by ruleLess rs')"
  unfolding config_text_def hash_parts_inject by (simp add: rule_values_inject)

text \<open>
  C34. The text whose hash identifies a run determines every input of the run: two runs with the
  same text have the same hashes of both input files, settlement, mode and configuration version,
  and field by field the same rules in the canonical order; and the text of a configuration
  determines its two file hashes and its rules. Neither depends on the order of the rules, when no
  two of them come from the same line of the same file. So two runs or configurations share an
  identity exactly when their contents agree, short of a collision of the hash function.
\<close>

theorem identity_texts_determine_contents:
  "(fingerprint_text p s sel m cfg rs = fingerprint_text p' s' sel' m' cfg' rs' \<longleftrightarrow>
      info_SHA256 p = info_SHA256 p' \<and> info_SHA256 s = info_SHA256 s' \<and> sel = sel' \<and>
      mode_string m = mode_string m' \<and> cfg = cfg' \<and>
      map config_rule_values (sort_by ruleLess rs) = map config_rule_values (sort_by ruleLess rs')) \<and>
   (config_text p s rs = config_text p' s' rs' \<longleftrightarrow>
      info_SHA256 p = info_SHA256 p' \<and> info_SHA256 s = info_SHA256 s' \<and>
      map config_rule_values (sort_by ruleLess rs) = map config_rule_values (sort_by ruleLess rs')) \<and>
   (if mset rs = mset rs' \<and> distinct (map rule_place rs)
    then fingerprint_text p s sel m cfg rs = fingerprint_text p s sel m cfg rs' \<and>
      config_text p s rs = config_text p s rs'
    else True)"
proof -
  have "sort_by ruleLess rs = sort_by ruleLess rs'" if "mset rs = mset rs'" "distinct (map rule_place rs)"
    using that by (rule sort_rules_unique)
  then show ?thesis unfolding fingerprint_text_eq config_text_eq by auto
qed

end
