(* ===== verification/Runs.thy ===== *)
theory Runs
  imports Fingerprint
begin

text \<open>
  The life of a run in the table \<open>runs\<close>: \<open>claimRun\<close> and \<open>markRunFailed\<close> of \<open>internal/store/store.go\<close>,
  the last statements of \<open>Persist\<close>, and \<open>RegisterReport\<close> of \<open>internal/store/artifact.go\<close>. A table is
  the list of its rows in insertion order with the next value of its sequence. The SQL of each
  statement is written out on the rows; the unique indexes on the fingerprint and on the name are
  those of the migrations 001 and 002, and a text column accepts only valid UTF-8. A transaction
  ends in one of three ways: committed, rolled back with an error, or committed although the
  client was told of an error because the connection broke.

  The step relation lets any number of processes work on the table. \<open>workers\<close> are the runs that
  some live process has claimed and not finished; \<open>contents\<close> are the runs whose rows have been
  committed.
\<close>

section \<open>The table of runs\<close>

datatype stage = CLAIMED | FAILED | RECONCILED | REPORTED

datatype verification = NOT_CHECKED | FAIL | PASS | DIAGNOSTIC

record run_row =
  run_id :: int
  run_name :: string
  run_fingerprint :: string
  run_selected :: string
  run_mode :: mode
  run_stage :: stage
  run_status :: verification
  run_config :: int
  run_attempt :: int
  run_error :: "(string \<times> string) option"
  run_completed :: bool

record run_table =
  rt_rows :: "run_row list"
  rt_next :: int

datatype commit_outcome = Committed | RolledBack | CommittedUnseen

datatype claim_error =
    NameTaken string
  | ClaimCommit
  | AlreadyClaimed string stage

definition find_run :: "string \<Rightarrow> run_table \<Rightarrow> run_row option" where
  "find_run fp t = find (\<lambda>r. run_fingerprint r = fp) (rt_rows t)"

definition update_run :: "int \<Rightarrow> (run_row \<Rightarrow> run_row) \<Rightarrow> run_table \<Rightarrow> run_table" where
  "update_run i f t = t\<lparr>rt_rows := map (\<lambda>r. if run_id r = i then f r else r) (rt_rows t)\<rparr>"

definition new_run :: "int \<Rightarrow> string \<Rightarrow> string \<Rightarrow> string \<Rightarrow> mode \<Rightarrow> int \<Rightarrow> run_row" where
  "new_run i name fp selected m config =
     \<lparr>run_id = i, run_name = name, run_fingerprint = fp, run_selected = selected, run_mode = m,
      run_stage = CLAIMED, run_status = NOT_CHECKED, run_config = config, run_attempt = 1,
      run_error = None, run_completed = False\<rparr>"

definition insert_run :: "run_row \<Rightarrow> run_table \<Rightarrow> run_table" where
  "insert_run r t = \<lparr>rt_rows = rt_rows t @ [r], rt_next = rt_next t + 1\<rparr>"

definition retry_run :: "int \<Rightarrow> run_row \<Rightarrow> run_row" where
  "retry_run attempt r = r\<lparr>run_stage := CLAIMED, run_status := NOT_CHECKED, run_attempt := attempt + 1,
     run_error := None, run_completed := False\<rparr>"

definition end_tx :: "commit_outcome \<Rightarrow> run_table \<Rightarrow> run_table \<Rightarrow> 'a \<Rightarrow> run_table \<times> (claim_error + 'a)" where
  "end_tx c t t' x =
     (case c of Committed \<Rightarrow> (t', Inr x)
      | RolledBack \<Rightarrow> (t, Inl ClaimCommit)
      | CommittedUnseen \<Rightarrow> (t', Inl ClaimCommit))"

definition claimRun ::
  "commit_outcome \<Rightarrow> string \<Rightarrow> string \<Rightarrow> string \<Rightarrow> mode \<Rightarrow> int \<Rightarrow> bool \<Rightarrow> run_table \<Rightarrow>
     run_table \<times> (claim_error + int \<times> bool)" where
  "claimRun c name fp selected m config retry t =
     (case find_run fp t of
        None \<Rightarrow>
          if name \<in> set (map run_name (rt_rows t)) then (t, Inl (NameTaken name))
          else end_tx c t (insert_run (new_run (rt_next t) name fp selected m config) t)
                 (rt_next t, False)
      | Some r \<Rightarrow>
          if run_stage r = REPORTED \<or> run_stage r = RECONCILED then end_tx c t t (run_id r, True)
          else if run_stage r = FAILED \<and> retry
          then end_tx c t (update_run (run_id r) (retry_run (run_attempt r)) t) (run_id r, False)
          else (t, Inl (AlreadyClaimed fp (run_stage r))))"

definition fail_run :: "string \<Rightarrow> run_row \<Rightarrow> run_row" where
  "fail_run detail r =
     (if run_stage r = CLAIMED
      then r\<lparr>run_stage := FAILED, run_status := FAIL, run_error := Some (''PERSIST_FAILED'', detail),
             run_completed := True\<rparr>
      else r)"

text \<open>The error of the statement is ignored; it is refused when the cut detail is no valid text.\<close>

definition markRunFailed :: "int \<Rightarrow> string \<Rightarrow> run_table \<Rightarrow> run_table" where
  "markRunFailed i cause t =
     (let detail = (if 4000 < length cause then take 4000 cause else cause)
      in if valid_utf8 detail then update_run i (fail_run detail) t else t)"

text \<open>The last statement of the transaction of \<open>Persist\<close>.\<close>

definition reconcile_run :: "run_row \<Rightarrow> run_row" where
  "reconcile_run r = r\<lparr>run_stage := RECONCILED, run_status := NOT_CHECKED, run_completed := False\<rparr>"

definition report_run :: "run_row \<Rightarrow> run_row" where
  "report_run r =
     (if run_stage r = RECONCILED \<or> run_stage r = REPORTED
      then r\<lparr>run_stage := REPORTED,
             run_status := (if run_mode r = Strict then PASS else DIAGNOSTIC), run_completed := True\<rparr>
      else r)"

section \<open>The store and its steps\<close>

type_synonym artifacts = "(int \<times> string, file_info) gomap"

record store =
  runs :: run_table
  workers :: "int set"
  contents :: "int set"
  artifacts :: artifacts

datatype report_failure = ReportFile io_error | UnknownRun int | ReportCommit

text \<open>\<open>RegisterReport\<close>: the artifact refers to the run by a foreign key.\<close>

definition RegisterReport ::
  "(string \<Rightarrow> io_error + file_info) \<Rightarrow> commit_outcome \<Rightarrow> int \<Rightarrow> string \<Rightarrow> string \<Rightarrow> store \<Rightarrow>
     store \<times> report_failure option" where
  "RegisterReport info c i kind path s =
     (case info path of Inl e \<Rightarrow> (s, Some (ReportFile e))
      | Inr f \<Rightarrow>
          if i \<notin> set (map run_id (rt_rows (runs s))) then (s, Some (UnknownRun i))
          else let s' = s\<lparr>artifacts := gput (i, kind) f (artifacts s),
                         runs := update_run i report_run (runs s)\<rparr>
               in case c of Committed \<Rightarrow> (s', None)
                  | RolledBack \<Rightarrow> (s, Some ReportCommit)
                  | CommittedUnseen \<Rightarrow> (s', Some ReportCommit))"

definition empty_store :: store where
  "empty_store = \<lparr>runs = \<lparr>rt_rows = [], rt_next = 1\<rparr>, workers = {}, contents = {}, artifacts = []\<rparr>"

text \<open>
  What a process that has claimed a run does with it: its transaction commits, whether or not it
  sees it, or the transaction is rolled back and the run is marked as failed, or the process dies.
\<close>

inductive step :: "store \<Rightarrow> store \<Rightarrow> bool" where
  claimed: "claimRun c name fp selected m config retry (runs s) = (t, Inr (i, False)) \<Longrightarrow>
    step s (s\<lparr>runs := t, workers := insert i (workers s)\<rparr>)"
| existing: "claimRun c name fp selected m config retry (runs s) = (t, Inr (i, True)) \<Longrightarrow>
    step s (s\<lparr>runs := t\<rparr>)"
| not_claimed: "claimRun c name fp selected m config retry (runs s) = (t, Inl e) \<Longrightarrow>
    step s (s\<lparr>runs := t\<rparr>)"
| persisted: "i \<in> workers s \<Longrightarrow>
    step s (s\<lparr>runs := update_run i reconcile_run (runs s), contents := insert i (contents s),
              workers := workers s - {i}\<rparr>)"
| persisted_unseen: "i \<in> workers s \<Longrightarrow>
    step s (s\<lparr>runs := markRunFailed i cause (update_run i reconcile_run (runs s)),
              contents := insert i (contents s), workers := workers s - {i}\<rparr>)"
| failed: "i \<in> workers s \<Longrightarrow>
    step s (s\<lparr>runs := markRunFailed i cause (runs s), workers := workers s - {i}\<rparr>)"
| died: "i \<in> workers s \<Longrightarrow> step s (s\<lparr>workers := workers s - {i}\<rparr>)"
| reported: "RegisterReport info c i kind path s = (s', e) \<Longrightarrow> step s s'"

inductive reachable :: "store \<Rightarrow> bool" where
  start: "reachable empty_store"
| later: "reachable s \<Longrightarrow> step s s' \<Longrightarrow> reachable s'"

end
