(* ===== verification/Runs_Props.thy ===== *)
theory Runs_Props
  imports Runs
begin

text \<open>
  The life cycle of runs: an invariant of every reachable store, the refinement of an automaton
  with one phase per fingerprint, and what can and cannot happen to a run after a failure.
\<close>

section \<open>Operations on the table\<close>

definition keeps :: "(run_row \<Rightarrow> run_row) \<Rightarrow> bool" where
  "keeps f \<longleftrightarrow> (\<forall>r. run_id (f r) = run_id r \<and> run_name (f r) = run_name r \<and>
     run_fingerprint (f r) = run_fingerprint r \<and> run_selected (f r) = run_selected r \<and>
     run_mode (f r) = run_mode r \<and> run_config (f r) = run_config r)"

lemma keeps_operations [simp]:
  "keeps (retry_run a)" "keeps (fail_run d)" "keeps reconcile_run" "keeps report_run"
  by (simp_all add: keeps_def retry_run_def fail_run_def reconcile_run_def report_run_def)

definition update_rows :: "int \<Rightarrow> (run_row \<Rightarrow> run_row) \<Rightarrow> run_row list \<Rightarrow> run_row list" where
  "update_rows i f rs = map (\<lambda>r. if run_id r = i then f r else r) rs"

lemma rows_update_run [simp]:
  "rt_rows (update_run i f t) = update_rows i f (rt_rows t)" "rt_next (update_run i f t) = rt_next t"
  by (simp_all add: update_run_def update_rows_def)

lemma update_rows_columns [simp]:
  assumes "keeps f"
  shows "map run_id (update_rows i f rs) = map run_id rs"
    "map run_name (update_rows i f rs) = map run_name rs"
    "map run_fingerprint (update_rows i f rs) = map run_fingerprint rs"
  using assms by (auto simp: update_rows_def keeps_def)

lemma find_update_run:
  assumes "keeps f"
  shows "find_run fp (update_run i f t) =
    map_option (\<lambda>r. if run_id r = i then f r else r) (find_run fp t)"
proof -
  have "find (\<lambda>r. run_fingerprint r = fp) (update_rows i f rs) =
      map_option (\<lambda>r. if run_id r = i then f r else r) (find (\<lambda>r. run_fingerprint r = fp) rs)" for rs
    using assms by (induction rs) (auto simp: update_rows_def keeps_def)
  then show ?thesis by (simp add: find_run_def)
qed

lemma find_insert_run:
  "find_run fp (insert_run r t) =
     (case find_run fp t of None \<Rightarrow> if run_fingerprint r = fp then Some r else None | Some x \<Rightarrow> Some x)"
proof -
  have "find P (xs @ [r]) = (case find P xs of None \<Rightarrow> if P r then Some r else None | Some x \<Rightarrow> Some x)"
    for P :: "run_row \<Rightarrow> bool" and xs by (induction xs) auto
  then show ?thesis by (simp add: find_run_def insert_run_def)
qed

lemma find_run_Some: "find_run fp t = Some r \<Longrightarrow> r \<in> set (rt_rows t) \<and> run_fingerprint r = fp"
  by (auto simp: find_run_def find_Some_iff)

lemma find_run_None: "find_run fp t = None \<longleftrightarrow> fp \<notin> set (map run_fingerprint (rt_rows t))"
  by (auto simp: find_run_def find_None_iff)

lemma find_run_unique:
  assumes "distinct (map run_fingerprint (rt_rows t))" and "r \<in> set (rt_rows t)"
  shows "find_run (run_fingerprint r) t = Some r"
proof (cases "find_run (run_fingerprint r) t")
  case None
  with assms(2) show ?thesis by (auto simp: find_run_None)
next
  case (Some x)
  with find_run_Some[OF Some] assms show ?thesis by (auto simp: distinct_map inj_on_def)
qed

text \<open>A claim leaves the table as it was, inserts a new run, or takes a failed run up again.\<close>

lemma claimRun_cases:
  assumes "claimRun c name fp selected m config retry t = (t', res)"
  obtains (same) "t' = t" "\<And>i. res \<noteq> Inr (i, False)"
  | (insert) "find_run fp t = None" "name \<notin> set (map run_name (rt_rows t))"
      "t' = insert_run (new_run (rt_next t) name fp selected m config) t"
      "res = Inr (rt_next t, False) \<or> isl res"
  | (retry) r where "find_run fp t = Some r" "run_stage r = FAILED"
      "t' = update_run (run_id r) (retry_run (run_attempt r)) t"
      "res = Inr (run_id r, False) \<or> isl res"
  using assms
  by (auto simp: claimRun_def end_tx_def split: option.splits if_splits commit_outcome.splits)

lemma markRunFailed_cases:
  obtains (none) "markRunFailed i cause t = t"
  | (fail) d where "markRunFailed i cause t = update_run i (fail_run d) t"
proof (cases "valid_utf8 (if 4000 < length cause then take 4000 cause else cause)")
  case True
  then show ?thesis
    by (intro fail[of "if 4000 < length cause then take 4000 cause else cause"])
      (simp add: markRunFailed_def Let_def)
next
  case False
  then show ?thesis by (intro none) (simp add: markRunFailed_def Let_def)
qed

lemma mark_reconciled [simp]:
  "markRunFailed i cause (update_run i reconcile_run t) = update_run i reconcile_run t"
  by (auto simp: markRunFailed_def Let_def update_run_def fail_run_def reconcile_run_def o_def)

section \<open>The invariant\<close>

definition row_ok :: "store \<Rightarrow> run_row \<Rightarrow> bool" where
  "row_ok s r \<longleftrightarrow>
     (case run_stage r of
        CLAIMED \<Rightarrow> run_status r = NOT_CHECKED \<and> run_error r = None \<and> \<not> run_completed r \<and>
          run_id r \<notin> contents s
      | FAILED \<Rightarrow> run_status r = FAIL \<and> run_error r \<noteq> None \<and> run_completed r \<and>
          run_id r \<notin> contents s \<and> run_id r \<notin> workers s
      | RECONCILED \<Rightarrow> run_status r = NOT_CHECKED \<and> run_error r = None \<and> \<not> run_completed r \<and>
          run_id r \<in> contents s \<and> run_id r \<notin> workers s
      | REPORTED \<Rightarrow> run_status r = (if run_mode r = Strict then PASS else DIAGNOSTIC) \<and>
          run_error r = None \<and> run_completed r \<and> run_id r \<in> contents s \<and> run_id r \<notin> workers s)"

definition store_ok :: "store \<Rightarrow> bool" where
  "store_ok s \<longleftrightarrow>
     distinct (map run_id (rt_rows (runs s))) \<and> distinct (map run_fingerprint (rt_rows (runs s))) \<and>
     distinct (map run_name (rt_rows (runs s))) \<and>
     list_all (\<lambda>i. i < rt_next (runs s)) (map run_id (rt_rows (runs s))) \<and>
     list_all (row_ok s) (rt_rows (runs s)) \<and>
     workers s \<subseteq> set (map run_id (rt_rows (runs s))) \<and>
     contents s \<subseteq> set (map run_id (rt_rows (runs s))) \<and>
     fst ` set (artifacts s) \<subseteq> set (map run_id (rt_rows (runs s))) \<times> UNIV"

lemma row_ok_worker: "row_ok s r \<Longrightarrow> run_id r \<in> workers s \<Longrightarrow> run_stage r = CLAIMED"
  by (auto simp: row_ok_def split: stage.splits)

lemma update_keeps_ok:
  assumes "store_ok s" and "keeps f"
    and "runs s' = update_run i f (runs s)"
    and "workers s' \<subseteq> set (map run_id (rt_rows (runs s)))"
    and "contents s' \<subseteq> set (map run_id (rt_rows (runs s)))"
    and "fst ` set (artifacts s') \<subseteq> set (map run_id (rt_rows (runs s))) \<times> UNIV"
    and "\<And>r. r \<in> set (rt_rows (runs s)) \<Longrightarrow> row_ok s r \<Longrightarrow> row_ok s' (if run_id r = i then f r else r)"
  shows "store_ok s'"
proof -
  have "list_all (row_ok s') (update_rows i f (rt_rows (runs s)))"
  proof (unfold update_rows_def list_all_iff, intro ballI)
    fix x assume "x \<in> set (map (\<lambda>r. if run_id r = i then f r else r) (rt_rows (runs s)))"
    then obtain r where "r \<in> set (rt_rows (runs s))" "x = (if run_id r = i then f r else r)" by auto
    with assms(1,7) show "row_ok s' x" by (simp only: store_ok_def list_all_iff)
  qed
  with assms show ?thesis by (simp add: store_ok_def del: set_map)
qed

lemma insert_keeps_ok:
  assumes "store_ok s" and "find_run fp (runs s) = None"
    and "name \<notin> set (map run_name (rt_rows (runs s)))"
    and "W = workers s \<or> W = insert (rt_next (runs s)) (workers s)"
  shows "store_ok (s\<lparr>runs := insert_run (new_run (rt_next (runs s)) name fp selected m config) (runs s),
    workers := W\<rparr>)" (is "store_ok ?s")
proof -
  have fresh: "rt_next (runs s) \<notin> set (map run_id (rt_rows (runs s)))"
    using assms(1) by (auto simp: store_ok_def list_all_iff)
  then have "rt_next (runs s) \<notin> contents s" using assms(1) by (auto simp: store_ok_def)
  then have "row_ok ?s (new_run (rt_next (runs s)) name fp selected m config)"
    by (simp add: row_ok_def new_run_def)
  moreover have "row_ok ?s r" if "r \<in> set (rt_rows (runs s))" for r
  proof -
    have "row_ok s r" "run_id r \<noteq> rt_next (runs s)"
      using assms(1) that fresh by (auto simp: store_ok_def list_all_iff)
    with assms(4) show ?thesis by (auto simp: row_ok_def split: stage.splits)
  qed
  moreover have "list_all (\<lambda>i. i < rt_next (runs ?s)) (map run_id (rt_rows (runs ?s)))"
    using assms(1) by (auto simp: store_ok_def list_all_iff insert_run_def new_run_def)
  ultimately show ?thesis
    using assms fresh unfolding store_ok_def
    by (auto simp: insert_run_def new_run_def find_run_None list_all_iff)
qed

lemma retry_keeps_ok:
  assumes "store_ok s" and "find_run fp (runs s) = Some r" and "run_stage r = FAILED"
    and "W = workers s \<or> W = insert (run_id r) (workers s)"
  shows "store_ok (s\<lparr>runs := update_run (run_id r) (retry_run a) (runs s), workers := W\<rparr>)"
proof (rule update_keeps_ok[OF assms(1), where f = "retry_run a" and i = "run_id r"])
  have r: "r \<in> set (rt_rows (runs s))" using find_run_Some[OF assms(2)] by blast
  fix x assume x: "x \<in> set (rt_rows (runs s))" "row_ok s x"
  have "x = r" if "run_id x = run_id r"
    using assms(1) r x(1) that by (auto simp: store_ok_def distinct_map inj_on_def)
  with x(2) assms(3,4) show "row_ok (s\<lparr>runs := update_run (run_id r) (retry_run a) (runs s), workers := W\<rparr>)
      (if run_id x = run_id r then retry_run a x else x)"
    by (auto simp: row_ok_def retry_run_def split: stage.splits)
qed (use assms find_run_Some[OF assms(2)] in \<open>auto simp: store_ok_def\<close>)

lemma worker_update_ok:
  assumes "store_ok s" and "i \<in> workers s" and "f = reconcile_run \<and> C = insert i (contents s) \<or>
    f = fail_run d \<and> C = contents s \<or> f = id \<and> C = contents s"
  shows "store_ok (s\<lparr>runs := update_run i f (runs s), contents := C, workers := workers s - {i}\<rparr>)"
proof (rule update_keeps_ok[OF assms(1), where f = f and i = i])
  fix x assume x: "x \<in> set (rt_rows (runs s))" "row_ok s x"
  have "run_stage x = CLAIMED" if "run_id x = i" using row_ok_worker[OF x(2)] that assms(2) by simp
  with x(2) assms(3) show "row_ok (s\<lparr>runs := update_run i f (runs s), contents := C,
      workers := workers s - {i}\<rparr>) (if run_id x = i then f x else x)"
    by (auto simp: row_ok_def reconcile_run_def fail_run_def split: stage.splits)
qed (use assms in \<open>auto simp: store_ok_def keeps_def reconcile_run_def fail_run_def\<close>)

lemma report_keeps_ok:
  assumes "store_ok s" and "i \<in> set (map run_id (rt_rows (runs s)))"
  shows "store_ok (s\<lparr>artifacts := gput (i, kind) f (artifacts s),
    runs := update_run i report_run (runs s)\<rparr>)"
proof (rule update_keeps_ok[OF assms(1), where f = report_run and i = i])
  fix x assume "row_ok s x"
  then show "row_ok (s\<lparr>artifacts := gput (i, kind) f (artifacts s),
      runs := update_run i report_run (runs s)\<rparr>) (if run_id x = i then report_run x else x)"
    by (auto simp: row_ok_def report_run_def split: stage.splits)
qed (use assms in \<open>auto simp: store_ok_def dom_update\<close>)

lemma RegisterReport_cases:
  assumes "RegisterReport info c i kind path s = (s', e)"
  shows "s' = s \<or> (i \<in> set (map run_id (rt_rows (runs s))) \<and> (\<exists>f. s' =
    s\<lparr>artifacts := gput (i, kind) f (artifacts s), runs := update_run i report_run (runs s)\<rparr>))"
proof (cases "info path")
  case (Inl a)
  with assms show ?thesis by (simp add: RegisterReport_def)
next
  case (Inr f)
  with assms show ?thesis
    unfolding RegisterReport_def Let_def
    by (cases c) (simp_all del: set_map split: if_splits; blast)+
qed

lemma update_run_id [simp]: "update_run i id t = t"
  by (simp add: update_run_def map_idI)

lemma step_keeps_ok:
  assumes "step s s'" and "store_ok s"
  shows "store_ok s'"
  using assms(1)
proof cases
  case (claimed c name fp selected m config retry t i)
  from claimed(2) show ?thesis
  proof (cases rule: claimRun_cases)
    case same
    then show ?thesis by blast
  next
    case insert
    with claimed(1) insert_keeps_ok[OF assms(2) insert(1,2)] show ?thesis by auto
  next
    case (retry r)
    with claimed(1) retry_keeps_ok[OF assms(2) retry(1,2)] show ?thesis by auto
  qed
next
  case (existing c name fp selected m config retry t i)
  from existing(2) show ?thesis
    by (cases rule: claimRun_cases) (use existing assms(2) in auto)
next
  case (not_claimed c name fp selected m config retry t e)
  from not_claimed(2) show ?thesis
  proof (cases rule: claimRun_cases)
    case same
    then show ?thesis using not_claimed(1) assms(2) by simp
  next
    case insert
    with not_claimed(1) insert_keeps_ok[OF assms(2) insert(1,2), of "workers s"] show ?thesis by auto
  next
    case (retry r)
    with not_claimed(1) retry_keeps_ok[OF assms(2) retry(1,2), of "workers s"] show ?thesis by auto
  qed
next
  case (persisted i)
  with worker_update_ok[OF assms(2) persisted(2), of reconcile_run "insert i (contents s)"]
  show ?thesis by simp
next
  case (persisted_unseen i cause)
  with worker_update_ok[OF assms(2) persisted_unseen(2), of reconcile_run "insert i (contents s)"]
  show ?thesis by simp
next
  case (failed i cause)
  show ?thesis
  proof (cases rule: markRunFailed_cases[of i cause "runs s"])
    case none
    with failed worker_update_ok[OF assms(2) failed(2), of id "contents s"] show ?thesis by simp
  next
    case (fail d)
    with failed worker_update_ok[OF assms(2) failed(2), of "fail_run d" "contents s" d] show ?thesis by simp
  qed
next
  case (died i)
  with worker_update_ok[OF assms(2) died(2), of id "contents s"] show ?thesis by simp
next
  case (reported info c i kind path e)
  from RegisterReport_cases[OF reported] show ?thesis
    using assms(2) report_keeps_ok by blast
qed

lemma reachable_ok: "reachable s \<Longrightarrow> store_ok s"
proof (induction rule: reachable.induct)
  case start
  show ?case by (simp add: store_ok_def empty_store_def)
next
  case (later s s')
  then show ?case by (blast intro: step_keeps_ok)
qed

section \<open>Phases\<close>

text \<open>
  The specification: each fingerprint has a phase of its own. A run that is claimed is \<open>Busy\<close> when
  a live process works on it and \<open>Abandoned\<close> otherwise.
\<close>

datatype phase = Absent | Busy | Abandoned | Broken | Done | Published

inductive phase_step :: "phase \<Rightarrow> phase \<Rightarrow> bool" where
  "phase_step Absent Busy"
| "phase_step Absent Abandoned"
| "phase_step Broken Busy"
| "phase_step Broken Abandoned"
| "phase_step Busy Done"
| "phase_step Busy Broken"
| "phase_step Busy Abandoned"
| "phase_step Done Published"

inductive_simps phase_step_simps [simp]:
  "phase_step Absent p" "phase_step Busy p" "phase_step Abandoned p" "phase_step Broken p"
  "phase_step Done p" "phase_step Published p"

definition row_phase :: "int set \<Rightarrow> run_row \<Rightarrow> phase" where
  "row_phase W r =
     (case run_stage r of CLAIMED \<Rightarrow> if run_id r \<in> W then Busy else Abandoned
      | FAILED \<Rightarrow> Broken | RECONCILED \<Rightarrow> Done | REPORTED \<Rightarrow> Published)"

definition phase_of :: "store \<Rightarrow> string \<Rightarrow> phase" where
  "phase_of s fp = (case find_run fp (runs s) of None \<Rightarrow> Absent | Some r \<Rightarrow> row_phase (workers s) r)"

definition simulated :: "(string \<Rightarrow> phase) \<Rightarrow> (string \<Rightarrow> phase) \<Rightarrow> bool" where
  "simulated a b \<longleftrightarrow> a = b \<or> (\<exists>fp. b = a(fp := b fp) \<and> phase_step (a fp) (b fp))"

lemma run_found:
  assumes "store_ok s" and "r \<in> set (rt_rows (runs s))"
  shows "find_run (run_fingerprint r) (runs s) = Some r"
    and "find_run fp (runs s) = Some x \<Longrightarrow> run_id x = run_id r \<Longrightarrow> x = r \<and> fp = run_fingerprint r"
proof -
  show "find_run (run_fingerprint r) (runs s) = Some r"
    using find_run_unique[OF _ assms(2)] assms(1) by (simp add: store_ok_def)
  assume x: "find_run fp (runs s) = Some x" "run_id x = run_id r"
  then have "x = r"
    using find_run_Some[OF x(1)] assms by (auto simp: store_ok_def distinct_map inj_on_def)
  with find_run_Some[OF x(1)] show "x = r \<and> fp = run_fingerprint r" by blast
qed

text \<open>An update of one row, and of the work on it, changes at most the phase of its fingerprint.\<close>

lemma phase_of_update:
  assumes "store_ok s" and "r \<in> set (rt_rows (runs s))" and "keeps f"
    and "\<And>j. j \<noteq> run_id r \<Longrightarrow> j \<in> W \<longleftrightarrow> j \<in> workers s"
    and "runs s' = update_run (run_id r) f (runs s)" and "workers s' = W"
  shows "phase_of s' = (phase_of s)(run_fingerprint r := row_phase W (f r))"
proof
  fix fp
  note r = run_found[OF assms(1,2)]
  show "phase_of s' fp = ((phase_of s)(run_fingerprint r := row_phase W (f r))) fp"
  proof (cases "find_run fp (runs s)")
    case None
    then have "fp \<noteq> run_fingerprint r" using r(1) by auto
    with None show ?thesis by (simp add: phase_of_def assms(5) find_update_run[OF assms(3)])
  next
    case (Some x)
    show ?thesis
    proof (cases "run_id x = run_id r")
      case True
      with r(2)[OF Some] Some show ?thesis
        by (simp add: phase_of_def assms(5,6) find_update_run[OF assms(3)])
    next
      case False
      then have "fp \<noteq> run_fingerprint r" using Some r(1) by auto
      with False Some assms(4)[of "run_id x"] assms(6) show ?thesis
        by (simp add: phase_of_def assms(5) find_update_run[OF assms(3)] row_phase_def)
    qed
  qed
qed

lemma simulated_update:
  assumes "store_ok s" and "r \<in> set (rt_rows (runs s))" and "keeps f"
    and "\<And>j. j \<noteq> run_id r \<Longrightarrow> j \<in> workers s' \<longleftrightarrow> j \<in> workers s"
    and "runs s' = update_run (run_id r) f (runs s)"
    and "row_phase (workers s') (f r) = row_phase (workers s) r \<or>
      phase_step (row_phase (workers s) r) (row_phase (workers s') (f r))"
  shows "simulated (phase_of s) (phase_of s')"
proof -
  have old: "phase_of s (run_fingerprint r) = row_phase (workers s) r"
    using find_run_unique[OF _ assms(2)] assms(1) by (simp add: phase_of_def store_ok_def)
  have new: "phase_of s' = (phase_of s)(run_fingerprint r := row_phase (workers s') (f r))"
    using phase_of_update[OF assms(1-3) assms(4) assms(5) refl] .
  from assms(6) show ?thesis
  proof
    assume "row_phase (workers s') (f r) = row_phase (workers s) r"
    with new old show ?thesis unfolding simulated_def by (simp add: fun_upd_idem)
  next
    assume "phase_step (row_phase (workers s) r) (row_phase (workers s') (f r))"
    with new old show ?thesis
      unfolding simulated_def by (intro disjI2 exI[of _ "run_fingerprint r"]) simp
  qed
qed

lemma simulated_insert:
  assumes "store_ok s" and "find_run fp (runs s) = None"
    and "runs s' = insert_run (new_run (rt_next (runs s)) name fp selected m config) (runs s)"
    and "workers s' = workers s \<or> workers s' = insert (rt_next (runs s)) (workers s)"
  shows "simulated (phase_of s) (phase_of s')"
proof -
  have other: "phase_of s' fp' = phase_of s fp'" if "fp' \<noteq> fp" for fp'
  proof (cases "find_run fp' (runs s)")
    case None
    with that show ?thesis by (simp add: phase_of_def assms(3) find_insert_run new_run_def)
  next
    case (Some x)
    then have "run_id x \<noteq> rt_next (runs s)"
      using find_run_Some[OF Some] assms(1) by (auto simp: store_ok_def list_all_iff)
    with Some assms(4) show ?thesis
      by (auto simp: phase_of_def assms(3) find_insert_run row_phase_def split: stage.splits)
  qed
  then have "phase_of s' = (phase_of s)(fp := phase_of s' fp)" by auto
  moreover have "phase_step (phase_of s fp) (phase_of s' fp)"
    using assms(2) by (simp add: phase_of_def assms(3) find_insert_run new_run_def row_phase_def)
  ultimately show ?thesis unfolding simulated_def by blast
qed

lemma simulated_refl [simp]: "simulated a a"
  by (simp add: simulated_def)

lemma simulated_retry:
  assumes "store_ok s" and "find_run fp (runs s) = Some r" and "run_stage r = FAILED"
    and "runs s' = update_run (run_id r) (retry_run a) (runs s)"
    and "workers s' = workers s \<or> workers s' = insert (run_id r) (workers s)"
  shows "simulated (phase_of s) (phase_of s')"
  using find_run_Some[OF assms(2)] assms(3,5)
  by (intro simulated_update[OF assms(1) _ keeps_operations(1) _ assms(4)])
    (auto simp: row_phase_def retry_run_def)

lemma simulated_worker:
  assumes "store_ok s" and "i \<in> workers s" and "f = reconcile_run \<or> f = fail_run d \<or> f = id"
    and "runs s' = update_run i f (runs s)" and "workers s' = workers s - {i}"
  shows "simulated (phase_of s) (phase_of s')"
proof -
  obtain r where r: "r \<in> set (rt_rows (runs s))" "run_id r = i"
    using assms(1,2) by (auto simp: store_ok_def)
  have "row_ok s r" using assms(1) r(1) by (simp add: store_ok_def list_all_iff)
  with r(2) assms(2) have claimed: "run_stage r = CLAIMED" using row_ok_worker by blast
  have "keeps f" using assms(3) by (auto simp: keeps_def reconcile_run_def fail_run_def)
  then show ?thesis
  proof (rule simulated_update[OF assms(1) r(1)])
    show "j \<in> workers s' \<longleftrightarrow> j \<in> workers s" if "j \<noteq> run_id r" for j
      using that r(2) assms(5) by simp
    show "runs s' = update_run (run_id r) f (runs s)" using assms(4) r(2) by simp
    have "row_phase (workers s) r = Busy" using claimed r(2) assms(2) by (simp add: row_phase_def)
    moreover have out: "run_id r \<notin> workers s'" using assms(5) r(2) by simp
    from assms(3) have "phase_step Busy (row_phase (workers s') (f r))"
      by (elim disjE) (simp_all add: row_phase_def reconcile_run_def fail_run_def claimed out)
    ultimately show "row_phase (workers s') (f r) = row_phase (workers s) r \<or>
        phase_step (row_phase (workers s) r) (row_phase (workers s') (f r))" by simp
  qed
qed

lemma simulated_claim:
  assumes "store_ok s" and "claimRun c name fp selected m config retry (runs s) = (t, res)"
    and "runs s' = t"
    and "workers s' = (case res of Inr (i, False) \<Rightarrow> insert i (workers s) | _ \<Rightarrow> workers s)"
  shows "simulated (phase_of s) (phase_of s')"
  using assms(2)
proof (cases rule: claimRun_cases)
  case same
  then have "workers s' = workers s" using assms(4) by (auto split: sum.splits prod.splits bool.splits)
  with same(1) assms(3) have "phase_of s' = phase_of s"
    by (intro ext) (simp add: phase_of_def split: option.split)
  then show ?thesis by simp
next
  case insert
  then have "workers s' = workers s \<or> workers s' = Set.insert (rt_next (runs s)) (workers s)"
    using assms(4) by (auto split: sum.splits)
  with simulated_insert[OF assms(1) insert(1)] insert(3) assms(3) show ?thesis by blast
next
  case (retry r)
  then have "workers s' = workers s \<or> workers s' = Set.insert (run_id r) (workers s)"
    using assms(4) by (auto split: sum.splits)
  with simulated_retry[OF assms(1) retry(1,2)] retry(3) assms(3) show ?thesis by blast
qed

lemma step_simulated:
  assumes "store_ok s" and "step s s'"
  shows "simulated (phase_of s) (phase_of s')"
proof -
  note ok = assms(1)
  from assms(2) show ?thesis
  proof cases
    case (claimed c name fp selected m config retry t i)
    with simulated_claim[OF ok claimed(2)] show ?thesis by simp
  next
    case (existing c name fp selected m config retry t i)
    with simulated_claim[OF ok existing(2)] show ?thesis by simp
  next
    case (not_claimed c name fp selected m config retry t e)
    with simulated_claim[OF ok not_claimed(2)] show ?thesis by simp
  next
    case (persisted i)
    with simulated_worker[OF ok persisted(2), of reconcile_run] show ?thesis by simp
  next
    case (persisted_unseen i cause)
    with simulated_worker[OF ok persisted_unseen(2), of reconcile_run] show ?thesis by simp
  next
    case (failed i cause)
    show ?thesis
    proof (cases rule: markRunFailed_cases[of i cause "runs s"])
      case none
      with failed simulated_worker[OF ok failed(2), of id] show ?thesis by simp
    next
      case (fail d)
      with failed simulated_worker[OF ok failed(2), of "fail_run d" d] show ?thesis by simp
    qed
  next
    case (died i)
    with simulated_worker[OF ok died(2), of id] show ?thesis by simp
  next
    case (reported info c i kind path e)
    from RegisterReport_cases[OF reported] show ?thesis
    proof (elim disjE conjE exE)
      fix f assume i: "i \<in> set (map run_id (rt_rows (runs s)))" and s': "s' =
        s\<lparr>artifacts := gput (i, kind) f (artifacts s), runs := update_run i report_run (runs s)\<rparr>"
      then obtain r where "r \<in> set (rt_rows (runs s))" "run_id r = i" by auto
      then show ?thesis
        by (intro simulated_update[OF ok, of r report_run])
          (auto simp: s' row_phase_def report_run_def split: stage.splits)
    qed simp
  qed
qed

definition run_identity :: "run_row \<Rightarrow> int \<times> string \<times> string \<times> string \<times> mode \<times> int" where
  "run_identity r = (run_id r, run_name r, run_fingerprint r, run_selected r, run_mode r, run_config r)"

lemma run_identity_update [simp]:
  "keeps f \<Longrightarrow> map run_identity (update_rows i f rs) = map run_identity rs"
  by (auto simp: update_rows_def keeps_def run_identity_def)

lemma step_identities:
  assumes "step s s'"
  shows "\<exists>new. map run_identity (rt_rows (runs s')) = map run_identity (rt_rows (runs s)) @ new"
proof -
  have claim: "\<exists>new. map run_identity (rt_rows t) = map run_identity (rt_rows (runs s)) @ new"
    if "claimRun c name fp selected m config retry (runs s) = (t, res)"
    for c name fp selected m config retry t and res :: "claim_error + int \<times> bool"
    using that by (cases rule: claimRun_cases) (auto simp: insert_run_def)
  have mark: "map run_identity (rt_rows (markRunFailed i cause t)) = map run_identity (rt_rows t)" for i cause t
    by (cases rule: markRunFailed_cases[of i cause t]) simp_all
  from assms show ?thesis
  proof cases
    case (reported info c i kind path e)
    from RegisterReport_cases[OF reported] show ?thesis by auto
  qed (use claim mark in \<open>simp_all; blast\<close>)+
qed

text \<open>
  C37. The store implements the life cycle: whatever the interleaving of processes and of their
  failures, a step changes the phase of at most one fingerprint, and only from absent or broken to
  busy or abandoned, from busy to done, broken or abandoned, and from done to published. No run is
  deleted, and none changes its id, name, fingerprint, settlement, mode or configuration.
\<close>

theorem step_refines_phases:
  assumes "reachable s" and "step s s'"
  shows "simulated (phase_of s) (phase_of s') \<and>
    (\<exists>new. map run_identity (rt_rows (runs s')) = map run_identity (rt_rows (runs s)) @ new)"
  using step_simulated[OF reachable_ok[OF assms(1)] assms(2)] step_identities[OF assms(2)] by blast

lemma ex_step: "step empty_store (empty_store\<lparr>runs := insert_run (new_run 1 n fp sel Strict 1) (runs empty_store),
    workers := {1}\<rparr>)"
proof -
  have "claimRun Committed n fp sel Strict 1 False (runs empty_store) =
      (insert_run (new_run 1 n fp sel Strict 1) (runs empty_store), Inr (1, False))"
    by (simp add: claimRun_def find_run_def end_tx_def empty_store_def)
  from step.claimed[OF this] show ?thesis by (simp add: empty_store_def)
qed

lemma step_refines_phases_witness:
  "\<exists>s'. step empty_store s' \<and> simulated (phase_of empty_store) (phase_of s') \<and>
     phase_of empty_store ''f'' = Absent \<and> phase_of s' ''f'' = Busy"
proof -
  let ?s = "empty_store\<lparr>runs := insert_run (new_run 1 ''n'' ''f'' ''S1'' Strict 1) (runs empty_store),
    workers := {1}\<rparr>"
  have "simulated (phase_of empty_store) (phase_of ?s)"
    using step_refines_phases[OF reachable.start ex_step] by blast
  moreover have "phase_of empty_store ''f'' = Absent" "phase_of ?s ''f'' = Busy"
    by (simp_all add: phase_of_def find_run_def insert_run_def empty_store_def new_run_def row_phase_def)
  ultimately show ?thesis using ex_step by blast
qed

section \<open>Recovery\<close>

lemma steps_reachable: "step\<^sup>*\<^sup>* s s' \<Longrightarrow> reachable s \<Longrightarrow> reachable s'"
  by (induction rule: rtranclp_induct) (auto intro: reachable.later)

lemma abandoned_steps:
  assumes "step\<^sup>*\<^sup>* s s'" and "reachable s" and "phase_of s fp = Abandoned"
  shows "phase_of s' fp = Abandoned"
  using assms
proof (induction rule: rtranclp_induct)
  case (step u v)
  then have "simulated (phase_of u) (phase_of v)" "phase_of u fp = Abandoned"
    using steps_reachable step_simulated reachable_ok by blast+
  then show ?case unfolding simulated_def by (metis fun_upd_apply phase_step_simps(3))
qed simp

lemma abandoned_claim:
  assumes "phase_of s fp = Abandoned"
  shows "claimRun c name fp selected m config retry (runs s) = (runs s, Inl (AlreadyClaimed fp CLAIMED))"
proof -
  obtain r where "find_run fp (runs s) = Some r" "run_stage r = CLAIMED"
    using assms by (auto simp: phase_of_def row_phase_def split: option.splits stage.splits)
  then show ?thesis by (simp add: claimRun_def)
qed

lemma valid_utf8_replicate: "valid_utf8 (replicate n CHR ''a'' @ s) = valid_utf8 s"
  by (induction n) simp_all

definition ex_cause :: string where
  "ex_cause = replicate 3999 CHR ''a'' @ [CHR 0xC3, CHR 0xA9]"

text \<open>An error text that is valid, and whose first 4000 bytes are not.\<close>

lemma ex_cause_cut: "valid_utf8 ex_cause \<and> markRunFailed i ex_cause t = t"
proof -
  have "take 4000 ex_cause = replicate 3999 CHR ''a'' @ [CHR 0xC3]" "4000 < length ex_cause"
    by (simp_all add: ex_cause_def)
  then show ?thesis
    by (simp add: markRunFailed_def valid_utf8_replicate) (simp add: ex_cause_def valid_utf8_replicate utf8_cont_def)
qed

text \<open>
  C39. A run that was claimed and that no process works on any more, because its process died, its
  claim was committed unseen, or its failure could not be recorded, is claimed for ever: no
  sequence of steps changes it, and every later claim of its fingerprint is refused, retry or not.
\<close>

theorem abandoned_runs_stay:
  assumes "reachable s" and "phase_of s fp = Abandoned" and "step\<^sup>*\<^sup>* s s'"
  shows "phase_of s' fp = Abandoned \<and>
    claimRun c name fp selected m config retry (runs s') = (runs s', Inl (AlreadyClaimed fp CLAIMED))"
  using abandoned_steps[OF assms(3,1,2)] abandoned_claim by blast

lemma abandoned_runs_stay_witness:
  "\<exists>s. reachable s \<and> phase_of s ''f'' = Abandoned \<and>
     claimRun Committed ''m'' ''f'' ''S1'' Strict 1 True (runs s) =
       (runs s, Inl (AlreadyClaimed ''f'' CLAIMED))"
proof -
  let ?s = "empty_store\<lparr>runs := insert_run (new_run 1 ''n'' ''f'' ''S1'' Strict 1) (runs empty_store),
    workers := {1}\<rparr>"
  let ?t = "?s\<lparr>runs := markRunFailed 1 ex_cause (runs ?s), workers := workers ?s - {1}\<rparr>"
  have "reachable ?t"
    by (rule reachable.later[OF reachable.later[OF reachable.start ex_step] step.failed]) simp
  moreover have "phase_of ?t ''f'' = Abandoned"
    by (simp add: ex_cause_cut phase_of_def find_run_def insert_run_def empty_store_def new_run_def row_phase_def)
  ultimately show ?thesis using abandoned_runs_stay[of ?t "''f''" ?t] by blast
qed

lemma phase_found:
  assumes "store_ok s" and "phase_of s fp \<noteq> Absent"
  obtains r where "find_run fp (runs s) = Some r" "r \<in> set (rt_rows (runs s))" "run_fingerprint r = fp"
    "row_ok s r" "phase_of s fp = row_phase (workers s) r"
proof -
  obtain r where r: "find_run fp (runs s) = Some r"
    using assms(2) by (auto simp: phase_of_def split: option.splits)
  then show ?thesis
    using that[OF r] find_run_Some[OF r] assms(1)
    by (auto simp: phase_of_def store_ok_def list_all_iff)
qed

lemma done_step:
  assumes "store_ok s" and "phase_of s fp = Done"
  shows "\<exists>s'. step s s' \<and> phase_of s' fp = Published"
proof -
  obtain r where r: "r \<in> set (rt_rows (runs s))" "run_fingerprint r = fp"
    "phase_of s fp = row_phase (workers s) r"
    using phase_found[OF assms(1)] assms(2) by (metis phase.distinct(7))
  let ?f = "\<lparr>info_Path = [], info_SHA256 = [], info_Bytes = 0\<rparr>"
  let ?s = "s\<lparr>artifacts := gput (run_id r, []) ?f (artifacts s),
    runs := update_run (run_id r) report_run (runs s)\<rparr>"
  have "RegisterReport (\<lambda>_. Inr ?f) Committed (run_id r) [] [] s = (?s, None)"
    using r(1) by (simp add: RegisterReport_def Let_def)
  then have "step s ?s" by (rule step.reported)
  moreover have "phase_of ?s = (phase_of s)(run_fingerprint r := row_phase (workers s) (report_run r))"
    by (rule phase_of_update[OF assms(1) r(1)]) simp_all
  moreover have "row_phase (workers s) (report_run r) = Published"
    using assms(2) r(3) by (auto simp: row_phase_def report_run_def split: stage.splits if_splits)
  ultimately show ?thesis using r(2) by (metis fun_upd_same)
qed

lemma busy_step:
  assumes "store_ok s" and "phase_of s fp = Busy"
  shows "\<exists>s'. step s s' \<and> phase_of s' fp = Done"
proof -
  obtain r where r: "r \<in> set (rt_rows (runs s))" "run_fingerprint r = fp"
    "phase_of s fp = row_phase (workers s) r"
    using phase_found[OF assms(1)] assms(2) by (metis phase.distinct(1))
  then have w: "run_id r \<in> workers s"
    using assms(2) by (auto simp: row_phase_def split: stage.splits if_splits)
  let ?s = "s\<lparr>runs := update_run (run_id r) reconcile_run (runs s),
    contents := insert (run_id r) (contents s), workers := workers s - {run_id r}\<rparr>"
  have "step s ?s" using w by (rule step.persisted)
  moreover have "phase_of ?s = (phase_of s)(run_fingerprint r :=
      row_phase (workers s - {run_id r}) (reconcile_run r))"
    by (rule phase_of_update[OF assms(1) r(1)]) simp_all
  moreover have "row_phase (workers s - {run_id r}) (reconcile_run r) = Done"
    by (simp add: row_phase_def reconcile_run_def)
  ultimately show ?thesis using r(2) by (metis fun_upd_same)
qed

lemma broken_step:
  assumes "store_ok s" and "phase_of s fp = Broken"
  shows "\<exists>s'. step s s' \<and> phase_of s' fp = Busy"
proof -
  obtain r where r: "find_run fp (runs s) = Some r" "r \<in> set (rt_rows (runs s))"
    "run_fingerprint r = fp" "phase_of s fp = row_phase (workers s) r"
    using phase_found[OF assms(1)] assms(2) by (metis phase.distinct(5))
  then have failed: "run_stage r = FAILED"
    using assms(2) by (auto simp: row_phase_def split: stage.splits if_splits)
  let ?s = "s\<lparr>runs := update_run (run_id r) (retry_run (run_attempt r)) (runs s),
    workers := insert (run_id r) (workers s)\<rparr>"
  have "claimRun Committed [] fp [] Strict 1 True (runs s) =
      (update_run (run_id r) (retry_run (run_attempt r)) (runs s), Inr (run_id r, False))"
    using r(1) failed by (simp add: claimRun_def end_tx_def)
  then have "step s ?s" by (rule step.claimed)
  moreover have "phase_of ?s = (phase_of s)(run_fingerprint r :=
      row_phase (insert (run_id r) (workers s)) (retry_run (run_attempt r) r))"
    by (rule phase_of_update[OF assms(1) r(2)]) simp_all
  moreover have "row_phase (insert (run_id r) (workers s)) (retry_run (run_attempt r) r) = Busy"
    by (simp add: row_phase_def retry_run_def)
  ultimately show ?thesis using r(3) by (metis fun_upd_same)
qed



text \<open>
  C38. In every reachable store the fingerprints, the names and the ids of the runs are unique, a
  live process works only on a claimed run, a run has committed rows exactly when it is reconciled
  or reported, and status, error and completion agree with the stage; in particular a reported
  strict run has passed. A new claim is never given for a run that a process works on or that has
  committed rows, and a run is said to exist already only when its rows are committed.
\<close>

theorem runs_invariant:
  assumes "reachable s"
  shows "store_ok s \<and>
    (case snd (claimRun c name fp selected m config retry (runs s)) of
       Inr (i, existing) \<Rightarrow>
         if existing then i \<in> contents s else i \<notin> workers s \<and> i \<notin> contents s
     | Inl e \<Rightarrow> True)"
proof
  show ok: "store_ok s" by (rule reachable_ok[OF assms])
  have row: "row_ok s r" if "find_run fp (runs s) = Some r" for r
    using ok find_run_Some[OF that] by (simp add: store_ok_def list_all_iff)
  have "rt_next (runs s) \<notin> set (map run_id (rt_rows (runs s)))"
    using ok by (auto simp: store_ok_def list_all_iff)
  then have "rt_next (runs s) \<notin> workers s" "rt_next (runs s) \<notin> contents s"
    using ok by (auto simp: store_ok_def)
  with row show "case snd (claimRun c name fp selected m config retry (runs s)) of
      Inr (i, existing) \<Rightarrow>
        if existing then i \<in> contents s else i \<notin> workers s \<and> i \<notin> contents s
    | Inl e \<Rightarrow> True"
    by (auto simp: claimRun_def end_tx_def row_ok_def split: option.splits commit_outcome.splits)
qed

lemma runs_invariant_witness:
  "\<exists>s. reachable s \<and> store_ok s \<and> workers s = {1} \<and> map run_stage (rt_rows (runs s)) = [CLAIMED]"
proof -
  let ?s = "empty_store\<lparr>runs := insert_run (new_run 1 ''n'' ''f'' ''S1'' Strict 1) (runs empty_store),
    workers := {1}\<rparr>"
  have r: "reachable ?s" by (rule reachable.later[OF reachable.start ex_step])
  have "map run_stage (rt_rows (runs ?s)) = [CLAIMED]"
    by (simp add: insert_run_def empty_store_def new_run_def)
  with r runs_invariant[OF r] show ?thesis by (intro exI[of _ ?s]) simp
qed

end
