(* ===== verification/Migrate_Store.thy ===== *)
theory Migrate_Store
  imports Runs
begin

text \<open>
  \<open>Migrate\<close> of \<open>internal/store/store.go\<close>. The state of the database is the rows of
  \<open>schema_migrations\<close>, as a map from versions to checksums in insertion order, and everything else,
  which only the SQL of the migrations changes: what an SQL text does to it is a parameter. So are
  the files of the directory, the hash function, and the outcome of each call to the database. The
  advisory lock makes the body of \<open>Migrate\<close> one step of the database.
\<close>

section \<open>Migrating\<close>

record 's schema =
  sch_versions :: "(string, string option) gomap"
  sch_state :: 's

datatype migrate_call =
    AcquireConnection
  | TakeLock
  | CreateVersions
  | AddChecksum
  | FindVersion string
  | FillChecksum string
  | BeginMigration string
  | RecordVersion string

datatype migrate_error =
    GlobFailed io_error
  | NoMigrations
  | MigrationRead io_error
  | MigrationCall migrate_call io_error
  | ChecksumChanged string string string
  | ApplyFailed string io_error
  | MigrationCommit string
  | UnlockFailed io_error
  | LockNotHeld

record 's migrations =
  mig_glob :: "io_error + string list"
  mig_base :: "string \<Rightarrow> string"
  mig_read :: "string \<Rightarrow> io_error + string"
  mig_sha :: "string \<Rightarrow> string"
  mig_exec :: "string \<Rightarrow> 's \<Rightarrow> io_error + 's"
  mig_fails :: "migrate_call \<Rightarrow> io_error option"
  mig_commit :: "string \<Rightarrow> commit_outcome"
  mig_unlock :: "io_error + bool"

text \<open>The transaction of a migration that is not recorded.\<close>

definition new_migration ::
  "'s migrations \<Rightarrow> string \<Rightarrow> string \<Rightarrow> string \<Rightarrow> 's schema \<Rightarrow> 's schema \<times> migrate_error option" where
  "new_migration env version b digest s =
     (case mig_fails env (BeginMigration version) of
        Some e \<Rightarrow> (s, Some (MigrationCall (BeginMigration version) e))
      | None \<Rightarrow>
     (case mig_exec env b (sch_state s) of Inl e \<Rightarrow> (s, Some (ApplyFailed version e))
      | Inr t \<Rightarrow>
     (case mig_fails env (RecordVersion version) of
        Some e \<Rightarrow> (s, Some (MigrationCall (RecordVersion version) e))
      | None \<Rightarrow>
          let s' = \<lparr>sch_versions = gput version (Some digest) (sch_versions s), sch_state = t\<rparr>
          in case mig_commit env version of
               Committed \<Rightarrow> (s', None)
             | RolledBack \<Rightarrow> (s, Some (MigrationCommit version))
             | CommittedUnseen \<Rightarrow> (s', Some (MigrationCommit version)))))"

definition apply_migration ::
  "'s migrations \<Rightarrow> string \<Rightarrow> 's schema \<Rightarrow> 's schema \<times> migrate_error option" where
  "apply_migration env path s =
     (let version = mig_base env path
      in case mig_read env path of Inl e \<Rightarrow> (s, Some (MigrationRead e))
      | Inr b \<Rightarrow>
     (let digest = mig_sha env b
      in case mig_fails env (FindVersion version) of
        Some e \<Rightarrow> (s, Some (MigrationCall (FindVersion version) e))
      | None \<Rightarrow>
     (case map_of (sch_versions s) version of
        None \<Rightarrow> new_migration env version b digest s
      | Some None \<Rightarrow>
          (case mig_fails env (FillChecksum version) of
             Some e \<Rightarrow> (s, Some (MigrationCall (FillChecksum version) e))
           | None \<Rightarrow> (s\<lparr>sch_versions := gput version (Some digest) (sch_versions s)\<rparr>, None))
      | Some (Some recorded) \<Rightarrow>
          if recorded \<noteq> digest then (s, Some (ChecksumChanged version recorded digest))
          else (s, None))))"

text \<open>The calls before the loop, in order; a failure after the lock is taken releases it.\<close>

definition first_failure :: "'s migrations \<Rightarrow> migrate_call list \<Rightarrow> migrate_error option" where
  "first_failure env cs =
     (case find (\<lambda>c. mig_fails env c \<noteq> None) cs of None \<Rightarrow> None
      | Some c \<Rightarrow> map_option (MigrationCall c) (mig_fails env c))"

definition Migrate :: "'s migrations \<Rightarrow> 's schema \<Rightarrow> 's schema \<times> migrate_error option" where
  "Migrate env s =
     (case mig_glob env of Inl e \<Rightarrow> (s, Some (GlobFailed e))
      | Inr files \<Rightarrow>
     (if files = [] then (s, Some NoMigrations)
      else case first_failure env [AcquireConnection, TakeLock, CreateVersions, AddChecksum] of
        Some e \<Rightarrow> (s, Some e)
      | None \<Rightarrow>
     (case loopE (apply_migration env) (sort_by (<) files) s of
        (s', Some e) \<Rightarrow> (s', Some e)
      | (s', None) \<Rightarrow>
          (s', case mig_unlock env of Inl e \<Rightarrow> Some (UnlockFailed e)
               | Inr held \<Rightarrow> if held then None else Some LockNotHeld))))"

section \<open>What a migration run does\<close>

definition run_migration :: "'s migrations \<Rightarrow> string \<Rightarrow> 's \<Rightarrow> io_error + 's" where
  "run_migration env p st = (case mig_read env p of Inl e \<Rightarrow> Inl e | Inr b \<Rightarrow> mig_exec env b st)"

text \<open>A migration that is recorded with the checksum of its file and can be looked up.\<close>

definition recorded :: "'s migrations \<Rightarrow> 's schema \<Rightarrow> string \<Rightarrow> bool" where
  "recorded env s p \<longleftrightarrow>
     mig_fails env (FindVersion (mig_base env p)) = None \<and>
     (\<exists>b. mig_read env p = Inr b \<and> map_of (sch_versions s) (mig_base env p) = Some (Some (mig_sha env b)))"

lemma gkeys_gput: "gkeys (gput k v m) = (if ghas m k then gkeys m else gkeys m @ [k])"
  by (induction m) (auto simp: ghas_def)

lemma apply_migration_cases:
  assumes "apply_migration env p s = (s', e)"
  obtains (known) "ghas (sch_versions s) (mig_base env p)" "sch_state s' = sch_state s"
      "gkeys (sch_versions s') = gkeys (sch_versions s)"
      "\<forall>v. v \<noteq> mig_base env p \<longrightarrow> map_of (sch_versions s') v = map_of (sch_versions s) v"
      "e = None \<longrightarrow> recorded env s' p"
  | (failed) "\<not> ghas (sch_versions s) (mig_base env p)" "s' = s" "e \<noteq> None"
  | (applied) "\<not> ghas (sch_versions s) (mig_base env p)"
      "run_migration env p (sch_state s) = Inr (sch_state s')"
      "gkeys (sch_versions s') = gkeys (sch_versions s) @ [mig_base env p]"
      "\<forall>v. v \<noteq> mig_base env p \<longrightarrow> map_of (sch_versions s') v = map_of (sch_versions s) v"
      "e = None \<longrightarrow> recorded env s' p"
proof (cases "ghas (sch_versions s) (mig_base env p)")
  case True
  with assms show thesis
    by (intro known) (auto simp: apply_migration_def Let_def gkeys_gput recorded_def update_conv' ghas_def
        split: sum.splits option.splits if_splits)
next
  case False
  show thesis
  proof (cases "s' = s \<and> e \<noteq> None")
    case True
    with False show thesis by (intro failed) auto
  next
    case new: False
    from False have "map_of (sch_versions s) (mig_base env p) = None" by (simp add: ghas_def)
    with assms False new show thesis
      by (intro applied) (auto simp: apply_migration_def new_migration_def Let_def gkeys_gput recorded_def
          update_conv' run_migration_def split: sum.splits option.splits commit_outcome.splits)
  qed
qed

lemma recorded_later:
  "recorded env s p \<Longrightarrow> map_of (sch_versions s') (mig_base env p) = map_of (sch_versions s) (mig_base env p) \<Longrightarrow>
     recorded env s' p"
  by (simp add: recorded_def)

lemma apply_all:
  assumes "loopE (apply_migration env) ps s = (s', e)" and "distinct (map (mig_base env) ps)"
    and "new = filter (\<lambda>p. \<not> ghas (sch_versions s) (mig_base env p)) ps"
  shows "\<exists>k \<le> length new.
    foldE (run_migration env) (take k new) (sch_state s) = Inr (sch_state s') \<and>
    gkeys (sch_versions s') = gkeys (sch_versions s) @ map (mig_base env) (take k new) \<and>
    (\<forall>v. v \<notin> mig_base env ` set ps \<longrightarrow> map_of (sch_versions s') v = map_of (sch_versions s) v) \<and>
    (e = None \<longrightarrow> k = length new \<and> (\<forall>p \<in> set ps. recorded env s' p))"
  using assms
proof (induction ps arbitrary: s new)
  case Nil
  then show ?case by simp
next
  case (Cons p ps)
  obtain u d where step: "apply_migration env p s = (u, d)" by (cases "apply_migration env p s")
  from step show ?case
  proof (cases rule: apply_migration_cases)
    case failed
    with Cons.prems step show ?thesis by (intro exI[of _ 0]) auto
  next
    case known
    show ?thesis
    proof (cases d)
      case (Some x)
      with Cons.prems step have "s' = u" "e \<noteq> None" by auto
      with known show ?thesis by (intro exI[of _ 0]) auto
    next
      case None
      have same: "filter (\<lambda>p. \<not> ghas (sch_versions u) (mig_base env p)) ps = new"
        using known(1,3) Cons.prems(3) by (simp add: ghas_keys)
      have rest: "loopE (apply_migration env) ps u = (s', e)" using Cons.prems(1) step None by simp
      obtain k where k: "k \<le> length new"
        "foldE (run_migration env) (take k new) (sch_state u) = Inr (sch_state s')"
        "gkeys (sch_versions s') = gkeys (sch_versions u) @ map (mig_base env) (take k new)"
        "\<forall>v. v \<notin> mig_base env ` set ps \<longrightarrow> map_of (sch_versions s') v = map_of (sch_versions u) v"
        "e = None \<longrightarrow> k = length new \<and> (\<forall>p \<in> set ps. recorded env s' p)"
        using Cons.IH[OF rest _ same[symmetric]] Cons.prems(2) by auto
      have "recorded env s' p"
        using known(5) None k(4) Cons.prems(2) by (intro recorded_later[of env u p s']) auto
      with k known Cons.prems(2) show ?thesis by (intro exI[of _ k]) auto
    qed
  next
    case applied
    have new: "new = p # filter (\<lambda>p. \<not> ghas (sch_versions s) (mig_base env p)) ps"
      using applied(1) Cons.prems(3) by simp
    let ?rest = "filter (\<lambda>p. \<not> ghas (sch_versions s) (mig_base env p)) ps"
    show ?thesis
    proof (cases d)
      case (Some x)
      with Cons.prems step have "s' = u" "e \<noteq> None" by auto
      with applied show ?thesis by (intro exI[of _ 1]) (auto simp: new)
    next
      case None
      have same: "filter (\<lambda>p. \<not> ghas (sch_versions u) (mig_base env p)) ps = ?rest"
      proof (intro filter_cong refl)
        fix q assume "q \<in> set ps"
        then have "mig_base env q \<noteq> mig_base env p" using Cons.prems(2) by (metis distinct.simps(2) image_eqI image_set list.simps(9))
        then show "(\<not> ghas (sch_versions u) (mig_base env q)) = (\<not> ghas (sch_versions s) (mig_base env q))"
          by (simp add: ghas_keys applied(3) del: set_map)
      qed
      have rest: "loopE (apply_migration env) ps u = (s', e)" using Cons.prems(1) step None by simp
      obtain k where k: "k \<le> length ?rest"
        "foldE (run_migration env) (take k ?rest) (sch_state u) = Inr (sch_state s')"
        "gkeys (sch_versions s') = gkeys (sch_versions u) @ map (mig_base env) (take k ?rest)"
        "\<forall>v. v \<notin> mig_base env ` set ps \<longrightarrow> map_of (sch_versions s') v = map_of (sch_versions u) v"
        "e = None \<longrightarrow> k = length ?rest \<and> (\<forall>p \<in> set ps. recorded env s' p)"
        using Cons.IH[OF rest _ same[symmetric]] Cons.prems(2) by auto
      have "recorded env s' p" 
        using applied(5) None k(4) Cons.prems(2) by (intro recorded_later[of env u p s']) auto
      with k applied Cons.prems(2) show ?thesis by (intro exI[of _ "Suc k"]) (auto simp: new)
    qed
  qed
qed

lemma recorded_step: "recorded env s p \<Longrightarrow> apply_migration env p s = (s, None)"
  by (auto simp: apply_migration_def Let_def recorded_def)

lemma recorded_loop: "\<forall>p \<in> set ps. recorded env s p \<Longrightarrow> loopE (apply_migration env) ps s = (s, None)"
  by (induction ps) (simp_all add: recorded_step)

text \<open>
  C36. \<open>Migrate\<close> applies each migration at most once and in the order of the file names: whatever call
  or commit fails, the database has the effect of a prefix of the migrations that were not recorded
  before, and exactly these have been recorded since. When it succeeds all have been applied, the
  recorded checksum of every file is its own, and running it again does nothing.
\<close>

theorem Migrate_applies_once:
  assumes "Migrate env s = (s', e)" and "mig_glob env = Inr files" and "distinct (map (mig_base env) files)"
    and "new = filter (\<lambda>p. \<not> ghas (sch_versions s) (mig_base env p)) (sort_by (<) files)"
  shows "\<exists>k \<le> length new.
    foldE (run_migration env) (take k new) (sch_state s) = Inr (sch_state s') \<and>
    gkeys (sch_versions s') = gkeys (sch_versions s) @ map (mig_base env) (take k new) \<and>
    (e = None \<longrightarrow> k = length new \<and> list_all (recorded env s') files \<and> Migrate env s' = (s', None))"
proof (cases "files = [] \<or> first_failure env [AcquireConnection, TakeLock, CreateVersions, AddChecksum] \<noteq> None")
  case True
  then consider "files = []"
    | x where "files \<noteq> []" "first_failure env [AcquireConnection, TakeLock, CreateVersions, AddChecksum] = Some x"
    by auto
  then have "s' = s \<and> e \<noteq> None" using assms(1,2) by cases (simp_all add: Migrate_def, metis+)
  then show ?thesis by (intro exI[of _ 0]) auto
next
  case False
  let ?ps = "sort_by (<) files"
  have "mset (map (mig_base env) ?ps) = mset (map (mig_base env) files)" by simp
  from mset_eq_imp_distinct_iff[OF this] have files: "set ?ps = set files" "distinct (map (mig_base env) ?ps)"
    using assms(3) by simp_all
  obtain u d where loop: "loopE (apply_migration env) ?ps s = (u, d)"
    by (cases "loopE (apply_migration env) ?ps s")
  have u: "s' = u" "e = None \<Longrightarrow> d = None \<and> mig_unlock env = Inr True"
    using assms(1,2) False loop by (auto simp: Migrate_def split: option.splits sum.splits if_splits)
  obtain k where k: "k \<le> length new" "foldE (run_migration env) (take k new) (sch_state s) = Inr (sch_state u)"
    "gkeys (sch_versions u) = gkeys (sch_versions s) @ map (mig_base env) (take k new)"
    "d = None \<longrightarrow> k = length new \<and> (\<forall>p \<in> set ?ps. recorded env u p)"
    using apply_all[OF loop files(2) assms(4)] by blast
  have "Migrate env u = (u, None)" if "e = None"
    using u(2)[OF that] k(4) False assms(2) recorded_loop[of ?ps env u] by (auto simp: Migrate_def)
  with k u files(1) show ?thesis by (intro exI[of _ k]) (auto simp: list_all_iff)
qed


definition ex_migrations :: "string list migrations" where
  "ex_migrations =
     \<lparr>mig_glob = Inr [''b.sql'', ''a.sql'', ''c.sql''], mig_base = id, mig_read = (\<lambda>p. Inr (''create '' @ p)),
      mig_sha = id, mig_exec = (\<lambda>b st. Inr (st @ [b])), mig_fails = (\<lambda>_. None), mig_commit = (\<lambda>_. Committed),
      mig_unlock = Inr True\<rparr>"

theorem Migrate_applies_once_witness:
  "\<exists>s'. Migrate ex_migrations \<lparr>sch_versions = [(''b.sql'', None)], sch_state = [''create b.sql'']\<rparr> = (s', None) \<and>
     sch_state s' = [''create b.sql'', ''create a.sql'', ''create c.sql''] \<and>
     gkeys (sch_versions s') = [''b.sql'', ''a.sql'', ''c.sql''] \<and> Migrate ex_migrations s' = (s', None)"
proof -
  let ?s = "\<lparr>sch_versions = [(''b.sql'', None)], sch_state = [''create b.sql'']\<rparr>"
  have glob: "mig_glob ex_migrations = Inr [''b.sql'', ''a.sql'', ''c.sql'']" by (simp add: ex_migrations_def)
  have bases: "distinct (map (mig_base ex_migrations) [''b.sql'', ''a.sql'', ''c.sql''])"
    by (simp add: ex_migrations_def)
  have new: "[''a.sql'', ''c.sql''] = filter (\<lambda>p. \<not> ghas (sch_versions ?s) (mig_base ex_migrations p))
      (sort_by (<) [''b.sql'', ''a.sql'', ''c.sql''])"
    by code_simp
  have "snd (Migrate ex_migrations ?s) = None" by code_simp
  then obtain s' where m: "Migrate ex_migrations ?s = (s', None)" by (cases "Migrate ex_migrations ?s") simp
  from Migrate_applies_once[OF m glob bases new] have
    "foldE (run_migration ex_migrations) [''a.sql'', ''c.sql''] (sch_state ?s) = Inr (sch_state s')"
    "gkeys (sch_versions s') = gkeys (sch_versions ?s) @ map (mig_base ex_migrations) [''a.sql'', ''c.sql'']"
    "Migrate ex_migrations s' = (s', None)"
    by auto
  with m show ?thesis by (simp add: run_migration_def ex_migrations_def)
qed

end
