(* ===== verification/Config_Store.thy ===== *)
theory Config_Store
  imports Runs
begin

text \<open>
  Frozen configurations, \<open>internal/store/config.go\<close>: the tables \<open>source_files\<close>, \<open>config_versions\<close>,
  \<open>config_version_files\<close> and \<open>mapping_rules\<close>, and the functions that import a configuration and
  read it back. A table is the list of its rows in insertion order. Every insertion checks the
  constraints and triggers that the migrations give its table and is refused with an error
  otherwise. What the migrations do not say is a parameter, \<open>dbms\<close>: the ids its sequences hand out
  to the rows a transaction inserts, in order, the texts and dates the database accepts, and the
  order of texts under its collation. The triggers on \<open>config_versions\<close> are those of the last
  migration: freezing a version replaces the content hash the program sends by the one that
  \<open>compute_config_sha256\<close> of migration 007 computes from the tables, and the program reads it back.
\<close>

section \<open>Constraints\<close>

datatype db_error =
    NotUnique string
  | CheckViolated string
  | MissingReference string
  | BadValue string
  | VersionFrozen int
  | ScanNull string
  | NoRows string

definition checked :: "(db_error \<times> bool) list \<Rightarrow> 'a \<Rightarrow> db_error + 'a" where
  "checked cs x = (case find (\<lambda>c. \<not> snd c) cs of None \<Rightarrow> Inr x | Some c \<Rightarrow> Inl (fst c))"

lemma checked_Inr [result_simps]: "checked cs x = Inr y \<longleftrightarrow> y = x \<and> list_all snd cs"
proof (cases "find (\<lambda>c. \<not> snd c) cs")
  case None
  then have "list_all snd cs" unfolding find_None_iff list_all_iff by blast
  with None show ?thesis by (auto simp: checked_def)
next
  case (Some c)
  then have "\<not> list_all snd cs" by (auto simp: find_Some_iff list_all_length)
  with Some show ?thesis by (simp add: checked_def)
qed

record dbms =
  accepts_text :: "string \<Rightarrow> bool"
  accepts_date :: "string \<Rightarrow> bool"
  text_less :: "string \<Rightarrow> string \<Rightarrow> bool"
  next_file :: "nat \<Rightarrow> int"
  next_version :: "nat \<Rightarrow> int"
  next_rule :: "nat \<Rightarrow> int"
  next_row :: "nat \<Rightarrow> int"
  next_mapping :: "nat \<Rightarrow> int"
  next_group :: "nat \<Rightarrow> int"

text \<open>The range of an \<open>INTEGER\<close> column, and a nullable text column.\<close>

definition int4 :: "int \<Rightarrow> bool" where
  "int4 i \<longleftrightarrow> - 2147483648 \<le> i \<and> i < 2147483648"

definition accepts_null :: "dbms \<Rightarrow> string option \<Rightarrow> bool" where
  "accepts_null db v = (case v of None \<Rightarrow> True | Some s \<Rightarrow> accepts_text db s)"

text \<open>\<open>COALESCE(c, '')\<close>\<close>

definition coalesce :: "string option \<Rightarrow> string" where
  "coalesce v = (case v of None \<Rightarrow> [] | Some s \<Rightarrow> s)"

section \<open>Tables\<close>

record source_file =
  sf_id :: int
  sf_kind :: string
  sf_path :: string
  sf_sha :: string
  sf_bytes :: int

datatype config_state = DRAFT | FROZEN

record config_version =
  cv_id :: int
  cv_name :: string
  cv_state :: config_state
  cv_sha :: "string option"
  cv_note :: string

record config_file =
  cf_config :: int
  cf_kind :: string
  cf_file :: int

record mapping_rule =
  mr_id :: int
  mr_config :: int
  mr_source :: string
  mr_file :: string
  mr_line :: int
  mr_type :: string
  mr_description :: "string option"
  mr_amount_field :: "string option"
  mr_amount_type :: "string option"
  mr_amount_description :: "string option"
  mr_record_ref :: string
  mr_positive :: "string option"
  mr_negative :: "string option"

record catalog =
  cat_files :: "source_file list"
  cat_versions :: "config_version list"
  cat_config_files :: "config_file list"
  cat_rules :: "mapping_rule list"

definition file_kinds :: "string list" where
  "file_kinds = [''payment'', ''settlement'', ''payment_config'', ''settlement_config'']"

text \<open>The row of a file: the one with its kind and hash, or a new one.\<close>

definition put_file ::
  "dbms \<Rightarrow> int \<Rightarrow> string \<Rightarrow> file_info \<Rightarrow> source_file list \<Rightarrow> db_error + int \<times> source_file list" where
  "put_file db new kind info fs =
     (case find (\<lambda>f. sf_kind f = kind \<and> sf_sha f = info_SHA256 info) fs of
        Some f \<Rightarrow> Inr (sf_id f, fs)
      | None \<Rightarrow>
          checked
            [(NotUnique ''source_files_pkey'', new \<notin> set (map sf_id fs)),
             (CheckViolated ''source_files_source_kind_check'', kind \<in> set file_kinds),
             (CheckViolated ''source_files_byte_size_check'', 0 \<le> info_Bytes info),
             (BadValue ''source_files'', accepts_text db (info_Path info) \<and> accepts_text db (info_SHA256 info))]
            (new, fs @ [\<lparr>sf_id = new, sf_kind = kind, sf_path = info_Path info,
                         sf_sha = info_SHA256 info, sf_bytes = info_Bytes info\<rparr>]))"

definition find_version :: "(config_version \<Rightarrow> bool) \<Rightarrow> catalog \<Rightarrow> config_version option" where
  "find_version P c = find P (cat_versions c)"

definition is_frozen :: "catalog \<Rightarrow> int \<Rightarrow> bool" where
  "is_frozen c i \<longleftrightarrow> list_ex (\<lambda>v. cv_id v = i \<and> cv_state v = FROZEN) (cat_versions c)"

definition insert_version :: "dbms \<Rightarrow> int \<Rightarrow> string \<Rightarrow> string \<Rightarrow> catalog \<Rightarrow> db_error + catalog" where
  "insert_version db new name note c =
     checked
       [(NotUnique ''config_versions_pkey'', new \<notin> set (map cv_id (cat_versions c))),
        (NotUnique ''config_versions_name_key'', name \<notin> set (map cv_name (cat_versions c))),
        (BadValue ''config_versions'', accepts_text db name \<and> accepts_text db note)]
       (c\<lparr>cat_versions := cat_versions c @
            [\<lparr>cv_id = new, cv_name = name, cv_state = DRAFT, cv_sha = None, cv_note = note\<rparr>]\<rparr>)"

text \<open>One round of the loop over the two configuration files.\<close>

definition insert_config_file ::
  "dbms \<Rightarrow> int \<Rightarrow> nat \<times> string \<times> file_info \<Rightarrow> catalog \<Rightarrow> db_error + catalog" where
  "insert_config_file db config item c =
     (case item of (i, kind, info) \<Rightarrow>
     (case put_file db (next_file db i) kind info (cat_files c) of Inl e \<Rightarrow> Inl e
      | Inr (f, fs) \<Rightarrow>
          checked
            [(NotUnique ''config_version_files_pkey'',
                \<not> list_ex (\<lambda>x. cf_config x = config \<and> cf_kind x = kind) (cat_config_files c)),
             (NotUnique ''config_version_files_source_file_id_key'',
                \<not> list_ex (\<lambda>x. cf_config x = config \<and> cf_file x = f) (cat_config_files c)),
             (VersionFrozen config, \<not> is_frozen c config)]
            (c\<lparr>cat_files := fs, cat_config_files := cat_config_files c @
                 [\<lparr>cf_config = config, cf_kind = kind, cf_file = f\<rparr>]\<rparr>)))"

definition stored_rule :: "int \<Rightarrow> int \<Rightarrow> config_rule \<Rightarrow> mapping_rule" where
  "stored_rule i config r =
     \<lparr>mr_id = i, mr_config = config, mr_source = source_string (rule_Source r), mr_file = rule_OriginFile r,
      mr_line = rule_OriginLine r, mr_type = rule_TransactionType r,
      mr_description = nullable (rule_Description r),
      mr_amount_field = nullable (rule_AmountField r),
      mr_amount_type = nullable (rule_AmountType r),
      mr_amount_description = nullable (rule_AmountDescription r),
      mr_record_ref = rule_RecordRef r, mr_positive = nullable (rule_PositiveTarget r),
      mr_negative = nullable (rule_NegativeTarget r)\<rparr>"

definition same_place :: "int \<Rightarrow> config_rule \<Rightarrow> mapping_rule \<Rightarrow> bool" where
  "same_place config r m \<longleftrightarrow>
     mr_config m = config \<and> mr_source m = source_string (rule_Source r) \<and> mr_file m = rule_OriginFile r \<and>
     mr_line m = rule_OriginLine r"

definition insert_rule ::
  "dbms \<Rightarrow> int \<Rightarrow> nat \<times> config_rule \<Rightarrow> catalog \<Rightarrow> db_error + catalog" where
  "insert_rule db config item c =
     (case item of (i, r) \<Rightarrow>
      let m = stored_rule (next_rule db i) config r
      in checked
           [(NotUnique ''mapping_rules_pkey'', mr_id m \<notin> set (map mr_id (cat_rules c))),
            (NotUnique ''mapping_rules_version_origin_uq'', \<not> list_ex (same_place config r) (cat_rules c)),
            (CheckViolated ''mapping_rules_source_check'', mr_source m \<in> set (take 2 file_kinds)),
            (BadValue ''mapping_rules'',
               int4 (mr_line m) \<and> accepts_text db (mr_file m) \<and> accepts_text db (mr_type m) \<and>
               accepts_text db (mr_record_ref m) \<and>
               list_all (accepts_null db) [mr_description m, mr_amount_field m, mr_amount_type m,
                 mr_amount_description m, mr_positive m, mr_negative m]),
            (VersionFrozen config, \<not> is_frozen c config)]
           (c\<lparr>cat_rules := cat_rules c @ [m]\<rparr>))"

text \<open>
  \<open>compute_config_sha256\<close>: the hashes of the version's files, the payment configuration first, and
  the fields of its rules. \<open>ORDER BY mr.source, mr.origin_file, mr.origin_line\<close> compares the paths
  under the collation; the only two sources that the table admits are in the same order under any.
\<close>

definition config_hash_part :: "string \<Rightarrow> string" where
  "config_hash_part v = dec (length v) @ '':'' @ v"

definition config_file_parts :: "catalog \<Rightarrow> int \<Rightarrow> string" where
  "config_file_parts c config =
     (let mine = filter (\<lambda>x. cf_config x = config) (cat_config_files c);
          ordered = filter (\<lambda>x. cf_kind x = ''payment_config'') mine @
                    filter (\<lambda>x. cf_kind x \<noteq> ''payment_config'') mine
      in concat (map (\<lambda>x. concat (map (\<lambda>f. config_hash_part (sf_sha f))
                                   (filter (\<lambda>f. sf_id f = cf_file x) (cat_files c)))) ordered))"

definition sqlRuleLess :: "dbms \<Rightarrow> mapping_rule \<Rightarrow> mapping_rule \<Rightarrow> bool" where
  "sqlRuleLess db a b =
     (if mr_source a \<noteq> mr_source b then mr_source a < mr_source b
      else if mr_file a \<noteq> mr_file b then text_less db (mr_file a) (mr_file b)
      else mr_line a < mr_line b)"

definition sql_rule_parts :: "mapping_rule \<Rightarrow> string" where
  "sql_rule_parts m = concat (map config_hash_part
     [mr_source m, mr_file m, dec_int (mr_line m), mr_type m, coalesce (mr_description m),
      coalesce (mr_amount_field m), coalesce (mr_amount_type m), coalesce (mr_amount_description m),
      mr_record_ref m, coalesce (mr_positive m), coalesce (mr_negative m)])"

definition compute_config_sha256 :: "(string \<Rightarrow> string) \<Rightarrow> dbms \<Rightarrow> catalog \<Rightarrow> int \<Rightarrow> string" where
  "compute_config_sha256 sha db c config =
     sha (config_file_parts c config @ concat (map sql_rule_parts
       (sort_by (sqlRuleLess db) (filter (\<lambda>m. mr_config m = config) (cat_rules c)))))"

text \<open>The trigger \<open>config_versions_canonical_hash\<close>, before an update of a version.\<close>

definition set_canonical_config_hash ::
  "(string \<Rightarrow> string) \<Rightarrow> dbms \<Rightarrow> catalog \<Rightarrow> config_version \<Rightarrow> config_version \<Rightarrow> config_version" where
  "set_canonical_config_hash sha db c old new =
     (if cv_state old = DRAFT \<and> cv_state new = FROZEN
      then new\<lparr>cv_sha := Some (compute_config_sha256 sha db c (cv_id new))\<rparr> else new)"

definition freeze_version ::
  "(string \<Rightarrow> string) \<Rightarrow> dbms \<Rightarrow> int \<Rightarrow> string \<Rightarrow> catalog \<Rightarrow> db_error + catalog" where
  "freeze_version sha db config h c =
     (let upd = (\<lambda>v. if cv_id v = config
                  then set_canonical_config_hash sha db c v (v\<lparr>cv_state := FROZEN, cv_sha := Some h\<rparr>)
                  else v);
          hashes = map cv_sha (map upd (filter (\<lambda>v. cv_id v = config) (cat_versions c)))
      in checked
       [(VersionFrozen config, \<not> is_frozen c config),
        (NotUnique ''config_versions_content_sha256_key'',
           \<not> list_ex (\<lambda>v. cv_id v \<noteq> config \<and> cv_sha v \<in> set hashes) (cat_versions c))]
       (c\<lparr>cat_versions := map upd (cat_versions c)\<rparr>))"

section \<open>Importing and reading configurations\<close>

record frozen_config =
  fc_ID :: int
  fc_Name :: string
  fc_ContentSHA256 :: string

datatype frozen_error =
    NoContentHash
  | VersionDiffers string
  | ContentUnfrozen string
  | VersionState string config_state
  | StoreError db_error
  | VersionCommit

definition scan_version :: "config_version \<Rightarrow> db_error + frozen_config" where
  "scan_version v =
     (case cv_sha v of None \<Rightarrow> Inl (ScanNull ''content_sha256'')
      | Some h \<Rightarrow> Inr \<lparr>fc_ID = cv_id v, fc_Name = cv_name v, fc_ContentSHA256 = h\<rparr>)"

text \<open>The insertions of \<open>EnsureFrozenConfig\<close> for a version that does not exist.\<close>

definition import_version ::
  "(string \<Rightarrow> string) \<Rightarrow> dbms \<Rightarrow> string \<Rightarrow> string \<Rightarrow> string \<Rightarrow> file_info \<Rightarrow> file_info \<Rightarrow> config_rule list \<Rightarrow> catalog \<Rightarrow>
     db_error + catalog" where
  "import_version sha db name note h pf sf rules c =
     (let config = next_version db 0
      in case insert_version db config name note c of Inl e \<Rightarrow> Inl e
      | Inr c \<Rightarrow>
     (case foldE (insert_config_file db config)
             [(0, ''payment_config'', pf), (1, ''settlement_config'', sf)] c of Inl e \<Rightarrow> Inl e
      | Inr c \<Rightarrow>
     (case foldE (insert_rule db config) (enumerate 0 rules) c of Inl e \<Rightarrow> Inl e
      | Inr c \<Rightarrow> freeze_version sha db config h c)))"

text \<open>\<open>SELECT content_sha256\<close> of the version just frozen.\<close>

definition read_hash :: "catalog \<Rightarrow> int \<Rightarrow> db_error + string" where
  "read_hash c config =
     (case find_version (\<lambda>v. cv_id v = config) c of None \<Rightarrow> Inl (NoRows ''config_versions'')
      | Some v \<Rightarrow> (case cv_sha v of None \<Rightarrow> Inl (ScanNull ''content_sha256'') | Some h \<Rightarrow> Inr h))"

definition end_catalog ::
  "commit_outcome \<Rightarrow> catalog \<Rightarrow> catalog \<Rightarrow> frozen_config \<Rightarrow> catalog \<times> (frozen_error + frozen_config)" where
  "end_catalog oc c c' v =
     (case oc of Committed \<Rightarrow> (c', Inr v)
      | RolledBack \<Rightarrow> (c, Inl VersionCommit)
      | CommittedUnseen \<Rightarrow> (c', Inl VersionCommit))"

definition version_name :: "string \<Rightarrow> string \<Rightarrow> string" where
  "version_name name h = (if name = [] then ''config-'' @ take 16 h else name)"

definition EnsureFrozenConfig ::
  "(string \<Rightarrow> string) \<Rightarrow> dbms \<Rightarrow> commit_outcome \<Rightarrow> string \<Rightarrow> string \<Rightarrow> file_info \<Rightarrow> file_info \<Rightarrow>
     config_rule list \<Rightarrow> catalog \<Rightarrow> catalog \<times> (frozen_error + frozen_config)" where
  "EnsureFrozenConfig sha db oc name note pf sf rules c =
     (if info_SHA256 pf = [] \<or> info_SHA256 sf = [] then (c, Inl NoContentHash)
      else
        let h = configHash sha pf sf rules; name = version_name name h
        in case find_version (\<lambda>v. cv_name v = name) c of
          Some v \<Rightarrow>
            (case scan_version v of Inl e \<Rightarrow> (c, Inl (StoreError e))
             | Inr x \<Rightarrow>
                 if cv_state v \<noteq> FROZEN \<or> fc_ContentSHA256 x \<noteq> h then (c, Inl (VersionDiffers name))
                 else end_catalog oc c c x)
        | None \<Rightarrow>
        (case find_version (\<lambda>v. cv_sha v = Some h) c of
          Some v \<Rightarrow>
            (case scan_version v of Inl e \<Rightarrow> (c, Inl (StoreError e))
             | Inr x \<Rightarrow>
                 if cv_state v \<noteq> FROZEN then (c, Inl (ContentUnfrozen h)) else end_catalog oc c c x)
        | None \<Rightarrow>
        (case import_version sha db name note h pf sf rules c of Inl e \<Rightarrow> (c, Inl (StoreError e))
         | Inr c' \<Rightarrow>
        (case read_hash c' (next_version db 0) of Inl e \<Rightarrow> (c, Inl (StoreError e))
         | Inr stored \<Rightarrow>
             end_catalog oc c c' \<lparr>fc_ID = next_version db 0, fc_Name = name, fc_ContentSHA256 = stored\<rparr>))))"

definition LookupConfigVersion :: "catalog \<Rightarrow> string \<Rightarrow> frozen_error + frozen_config" where
  "LookupConfigVersion c name =
     (case find_version (\<lambda>v. cv_name v = name) c of None \<Rightarrow> Inl (StoreError (NoRows ''config_versions''))
      | Some v \<Rightarrow>
     (case scan_version v of Inl e \<Rightarrow> Inl (StoreError e)
      | Inr x \<Rightarrow> if cv_state v \<noteq> FROZEN then Inl (VersionState name (cv_state v)) else Inr x))"

text \<open>
  A text column scanned into a \<open>domain.Source\<close>. \<open>LoadRules\<close> orders by the source and the line.
\<close>

definition source_of :: "string \<Rightarrow> source" where
  "source_of s =
     (if s = ''payment'' then SourcePayment
      else if s = ''settlement'' then SourceSettlement else SourceOther s)"

definition loaded_rule :: "mapping_rule \<Rightarrow> config_rule" where
  "loaded_rule m =
     \<lparr>rule_ID = 0, rule_Source = source_of (mr_source m), rule_OriginFile = mr_file m, rule_OriginLine = mr_line m,
      rule_TransactionType = mr_type m, rule_Description = coalesce (mr_description m),
      rule_AmountField = coalesce (mr_amount_field m), rule_AmountType = coalesce (mr_amount_type m),
      rule_AmountDescription = coalesce (mr_amount_description m), rule_RecordRef = mr_record_ref m,
      rule_PositiveTarget = coalesce (mr_positive m), rule_NegativeTarget = coalesce (mr_negative m)\<rparr>"

definition loadLess :: "config_rule \<Rightarrow> config_rule \<Rightarrow> bool" where
  "loadLess a b =
     (if source_string (rule_Source a) \<noteq> source_string (rule_Source b)
      then source_string (rule_Source a) < source_string (rule_Source b)
      else rule_OriginLine a < rule_OriginLine b)"

definition LoadRules :: "catalog \<Rightarrow> int \<Rightarrow> config_rule list" where
  "LoadRules c config =
     sort_by loadLess (map loaded_rule (filter (\<lambda>m. mr_config m = config) (cat_rules c)))"

end
