(* ===== verification/Config_Store_Props.thy ===== *)
theory Config_Store_Props
  imports Config_Store
begin

text \<open>
  Frozen configurations are what they were imported as: the content hash of every frozen version
  is the hash that the database computes from the files and rules its tables hold for it, imports
  never change another version, and the rules a run loads are the rules that were imported. The
  database orders the rules by its collation and the program by bytes; the two hashes agree when
  the collation orders the paths of each source's rules the same way, and always when the rules of
  a source come from one file.
\<close>

section \<open>The invariant of the tables\<close>

definition version_file :: "catalog \<Rightarrow> int \<Rightarrow> string \<Rightarrow> source_file option" where
  "version_file c i kind =
     Option.bind (find (\<lambda>x. cf_config x = i \<and> cf_kind x = kind) (cat_config_files c))
       (\<lambda>x. find (\<lambda>f. sf_id f = cf_file x) (cat_files c))"

definition file_info_of :: "source_file \<Rightarrow> file_info" where
  "file_info_of f = \<lparr>info_Path = sf_path f, info_SHA256 = sf_sha f, info_Bytes = sf_bytes f\<rparr>"

definition stored_hash :: "(string \<Rightarrow> string) \<Rightarrow> catalog \<Rightarrow> int \<Rightarrow> string option" where
  "stored_hash sha c i =
     (case (version_file c i ''payment_config'', version_file c i ''settlement_config'') of
        (Some p, Some s) \<Rightarrow> Some (configHash sha (file_info_of p) (file_info_of s) (LoadRules c i))
      | _ \<Rightarrow> None)"

definition frozen_files :: "catalog \<Rightarrow> int \<Rightarrow> bool" where
  "frozen_files c i \<longleftrightarrow>
     (\<exists>f g. filter (\<lambda>x. cf_config x = i) (cat_config_files c) =
        [\<lparr>cf_config = i, cf_kind = ''payment_config'', cf_file = f\<rparr>,
         \<lparr>cf_config = i, cf_kind = ''settlement_config'', cf_file = g\<rparr>])"

definition frozen_ok :: "(string \<Rightarrow> string) \<Rightarrow> dbms \<Rightarrow> catalog \<Rightarrow> config_version \<Rightarrow> bool" where
  "frozen_ok sha db c v \<longleftrightarrow>
     (if cv_state v = FROZEN
      then cv_sha v = Some (compute_config_sha256 sha db c (cv_id v)) \<and> frozen_files c (cv_id v)
      else cv_sha v = None)"

definition mr_place :: "mapping_rule \<Rightarrow> int \<times> string \<times> string \<times> int" where
  "mr_place m = (mr_config m, mr_source m, mr_file m, mr_line m)"

definition catalog_ok :: "(string \<Rightarrow> string) \<Rightarrow> dbms \<Rightarrow> catalog \<Rightarrow> bool" where
  "catalog_ok sha db c \<longleftrightarrow>
     distinct (map cv_id (cat_versions c)) \<and> distinct (map cv_name (cat_versions c)) \<and>
     distinct (map sf_id (cat_files c)) \<and> distinct (map mr_place (cat_rules c)) \<and>
     list_all (\<lambda>x. cf_config x \<in> set (map cv_id (cat_versions c))) (cat_config_files c) \<and>
     list_all (\<lambda>x. cf_file x \<in> set (map sf_id (cat_files c))) (cat_config_files c) \<and>
     list_all (\<lambda>m. mr_config m \<in> set (map cv_id (cat_versions c))) (cat_rules c) \<and>
     list_all (frozen_ok sha db c) (cat_versions c)"

text \<open>The collation agrees with the byte order on the paths of the rules of each source.\<close>

definition paths_ordered :: "dbms \<Rightarrow> config_rule list \<Rightarrow> bool" where
  "paths_ordered db rs \<longleftrightarrow>
     list_all (\<lambda>a. list_all (\<lambda>b.
       source_string (rule_Source a) = source_string (rule_Source b) \<and>
       rule_OriginFile a \<noteq> rule_OriginFile b \<longrightarrow>
       (text_less db (rule_OriginFile a) (rule_OriginFile b) \<longleftrightarrow> rule_OriginFile a < rule_OriginFile b)) rs) rs"

text \<open>A rule that the store gives back as it is, such as every rule \<open>LoadConfig\<close> returns.\<close>

definition clean_rule :: "config_rule \<Rightarrow> bool" where
  "clean_rule r \<longleftrightarrow>
     rule_ID r = 0 \<and> rule_Source r \<in> {SourcePayment, SourceSettlement} \<and>
     list_all (\<lambda>s. s = [] \<or> TrimSpace s \<noteq> [])
       [rule_Description r, rule_AmountField r, rule_AmountType r, rule_AmountDescription r,
        rule_PositiveTarget r, rule_NegativeTarget r]"

lemma coalesce_nullable: "s = [] \<or> TrimSpace s \<noteq> [] \<Longrightarrow> coalesce (nullable s) = s"
  by (auto simp: coalesce_def nullable_def)

lemma loaded_stored: "clean_rule r \<Longrightarrow> loaded_rule (stored_rule i config r) = r"
  by (auto simp: clean_rule_def loaded_rule_def stored_rule_def coalesce_nullable source_of_def)

lemma clean_LoadConfig:
  assumes "LoadConfig fs path src = Inr rules"
  shows "list_all clean_rule rules"
proof -
  obtain rec :: csv_record and rest idx where src: "src \<in> {SourcePayment, SourceSettlement}"
    and rows: "config_rows path src (length (csv_fields rec)) idx rest = Inr rules"
    using LoadConfig_Inr[OF assms] by metis
  have trim: "column idx row k = [] \<or> TrimSpace (column idx row k) \<noteq> []" for row k
    by (auto simp: column_def split: option.splits)
  from config_rows_Inr[OF rows] show ?thesis
    using src trim
    by (induction rest rules rule: list_all2_induct)
      (fastforce simp: clean_rule_def config_rule_of_def)+
qed

lemma paths_ordered_LoadConfig:
  assumes "LoadConfig fs p SourcePayment = Inr a" and "LoadConfig fs' q SourceSettlement = Inr b"
  shows "paths_ordered db (a @ b)"
proof -
  have one: "list_all (\<lambda>r. rule_Source r = src \<and> rule_OriginFile r = path) rules"
    if load: "LoadConfig fs path src = Inr rules" for fs path src rules
  proof -
    obtain rec :: csv_record and rest idx where
      rows: "config_rows path src (length (csv_fields rec)) idx rest = Inr rules"
      using LoadConfig_Inr[OF load] by metis
    from config_rows_Inr[OF rows] show ?thesis
      by (induction rest rules rule: list_all2_induct) (fastforce simp: config_rule_of_def)+
  qed
  from one[OF assms(1)] one[OF assms(2)] show ?thesis
    unfolding paths_ordered_def list_all_iff by fastforce
qed

section \<open>The two hashes\<close>

lemma config_hash_part_eq: "config_hash_part = hash_part"
  by (rule ext) (simp add: config_hash_part_def hash_part_def)

lemma source_string_source_of [simp]: "source_string (source_of s) = s"
  by (simp add: source_of_def)

lemma sql_rule_parts_loaded:
  "sql_rule_parts = (\<lambda>m. concat (map hash_part (config_rule_values (loaded_rule m))))"
  by (rule ext) (simp add: sql_rule_parts_def config_hash_part_eq config_rule_values_def loaded_rule_def)

lemma insert_by_cong:
  "(\<And>y. y \<in> set xs \<Longrightarrow> P y x = Q y x) \<Longrightarrow> insert_by P x xs = insert_by Q x xs"
  by (induction xs) auto

lemma sort_by_cong:
  "(\<And>x y. x \<in> set xs \<Longrightarrow> y \<in> set xs \<Longrightarrow> P x y = Q x y) \<Longrightarrow> sort_by P xs = sort_by Q xs"
proof (induction xs)
  case Nil
  then show ?case by (simp add: sort_by_def)
next
  case (Cons x xs)
  have "sort_by P xs = sort_by Q xs" using Cons by simp
  moreover have "insert_by P x (sort_by Q xs) = insert_by Q x (sort_by Q xs)"
    by (rule insert_by_cong) (use Cons.prems in simp)
  ultimately show ?case by (simp add: sort_by_def)
qed

lemma sort_by_map: "sort_by P (map f xs) = map f (sort_by (\<lambda>a b. P (f a) (f b)) xs)"
proof (induction xs)
  case Nil
  then show ?case by (simp add: sort_by_def)
next
  case (Cons x xs)
  have "insert_by P (f x) (map f ys) = map f (insert_by (\<lambda>a b. P (f a) (f b)) x ys)" for ys
    by (induction ys) auto
  with Cons show ?case by (simp add: sort_by_def)
qed

lemma sql_sort_loaded:
  assumes "paths_ordered db (map loaded_rule ms)"
  shows "map loaded_rule (sort_by (sqlRuleLess db) ms) = sort_by ruleLess (map loaded_rule ms)"
proof -
  have "sqlRuleLess db a b = ruleLess (loaded_rule a) (loaded_rule b)" if "a \<in> set ms" "b \<in> set ms" for a b
    using assms that
    by (auto simp: paths_ordered_def list_all_iff sqlRuleLess_def ruleLess_def loaded_rule_def)
  then show ?thesis unfolding sort_by_map by (intro arg_cong[where f = "map loaded_rule"] sort_by_cong)
qed

lemma paths_ordered_mset: "set rs = set rs' \<Longrightarrow> paths_ordered db rs = paths_ordered db rs'"
  by (simp add: paths_ordered_def list_all_iff)

lemma set_LoadRules:
  "mset (LoadRules c i) = mset (map loaded_rule (filter (\<lambda>m. mr_config m = i) (cat_rules c)))"
  by (simp add: LoadRules_def)

lemma find_filter_one: "distinct (map f xs) \<Longrightarrow> find (\<lambda>x. f x = k) xs = Some y \<Longrightarrow> filter (\<lambda>x. f x = k) xs = [y]"
  by (induction xs) (auto simp: filter_empty_conv image_iff split: if_splits)

lemma concat_map_parts: "concat (map (\<lambda>x. concat (map f (g x))) xs) = concat (map f (concat (map g xs)))"
  by (induction xs) simp_all

text \<open>What the database computes is the program's hash when the orders agree.\<close>

lemma compute_config_sha256_eq:
  assumes "distinct (map sf_id (cat_files c))" and "distinct (map mr_place (cat_rules c))"
    and "frozen_files c i" and "paths_ordered db (LoadRules c i)"
    and "version_file c i ''payment_config'' = Some x" and "version_file c i ''settlement_config'' = Some y"
  shows "compute_config_sha256 sha db c i =
    configHash sha (file_info_of x) (file_info_of y) (LoadRules c i)"
proof -
  let ?ms = "filter (\<lambda>m. mr_config m = i) (cat_rules c)"
  from assms(3) obtain f g where mine: "filter (\<lambda>x. cf_config x = i) (cat_config_files c) =
        [\<lparr>cf_config = i, cf_kind = ''payment_config'', cf_file = f\<rparr>,
         \<lparr>cf_config = i, cf_kind = ''settlement_config'', cf_file = g\<rparr>]"
    unfolding frozen_files_def by blast
  have kinds: "find (\<lambda>x. cf_config x = i \<and> cf_kind x = k) xs =
      find (\<lambda>x. cf_kind x = k) (filter (\<lambda>x. cf_config x = i) xs)" for k xs
    by (induction xs) auto
  from assms(5,6) have fg: "find (\<lambda>z. sf_id z = f) (cat_files c) = Some x"
    "find (\<lambda>z. sf_id z = g) (cat_files c) = Some y"
    by (simp_all add: version_file_def kinds mine)
  have files: "config_file_parts c i = concat (map hash_part [sf_sha x, sf_sha y])"
    unfolding config_file_parts_def Let_def mine
    using find_filter_one[OF assms(1) fg(1)] find_filter_one[OF assms(1) fg(2)]
    by (simp add: config_hash_part_eq)
  have "paths_ordered db (map loaded_rule ?ms)"
    using assms(4) paths_ordered_mset[of "LoadRules c i" "map loaded_rule ?ms"] set_LoadRules[of c i]
    by (metis mset_eq_setD)
  note sorted = sql_sort_loaded[OF this]
  have "distinct (map mr_place ?ms)" using assms(2) by (rule distinct_map_filter)
  moreover have "rule_place (loaded_rule m) = snd (mr_place m)" for m
    by (simp add: rule_place_def mr_place_def loaded_rule_def)
  ultimately have "distinct (map rule_place (map loaded_rule ?ms))"
    by (auto simp: distinct_map inj_on_def mr_place_def)
  then have unique: "sort_by ruleLess (map loaded_rule ?ms) = sort_by ruleLess (LoadRules c i)"
    using set_LoadRules[of c i] by (intro sort_rules_unique) simp_all
  have "concat (map sql_rule_parts (sort_by (sqlRuleLess db) ?ms)) =
      concat (map (\<lambda>r. concat (map hash_part (config_rule_values r)))
        (map loaded_rule (sort_by (sqlRuleLess db) ?ms)))"
    by (simp add: sql_rule_parts_loaded o_def)
  also have "\<dots> = concat (map hash_part (concat (map config_rule_values (sort_by ruleLess (LoadRules c i)))))"
    unfolding sorted unique by (rule concat_map_parts)
  finally show ?thesis
    by (simp add: compute_config_sha256_def configHash_def config_text_def foldl_writeHashPart files
        file_info_of_def writeHashPart_def hash_part_def)
qed

section \<open>What an import inserts\<close>

lemma find_append: "find P (xs @ ys) = (case find P xs of None \<Rightarrow> find P ys | Some x \<Rightarrow> Some x)"
  by (induction xs) auto

lemma find_key: "distinct (map f xs) \<Longrightarrow> x \<in> set xs \<Longrightarrow> find (\<lambda>u. f u = f x) xs = Some x"
  by (induction xs) (auto simp: image_iff)

lemma put_file_Inr:
  assumes "put_file db new kind info fs = Inr (i, fs')" and "distinct (map sf_id fs)"
  shows "distinct (map sf_id fs') \<and> (\<exists>ext. fs' = fs @ ext) \<and>
    (\<exists>f. find (\<lambda>f. sf_id f = i) fs' = Some f \<and> sf_sha f = info_SHA256 info)"
proof (cases "find (\<lambda>f. sf_kind f = kind \<and> sf_sha f = info_SHA256 info) fs")
  case None
  with assms(1) have new: "i \<notin> sf_id ` set fs" and fs': "fs' = fs @ [\<lparr>sf_id = i, sf_kind = kind,
      sf_path = info_Path info, sf_sha = info_SHA256 info, sf_bytes = info_Bytes info\<rparr>]"
    by (auto simp: put_file_def result_simps)
  from new have "find (\<lambda>f. sf_id f = i) fs = None" by (auto simp: find_None_iff)
  with new fs' assms(2) show ?thesis by (auto simp: find_append)
next
  case (Some f)
  then have f: "f \<in> set fs" "sf_sha f = info_SHA256 info" by (auto simp: find_Some_iff)
  have "find (\<lambda>g. sf_id g = sf_id f) fs = Some f"
    by (rule find_key[OF assms(2) f(1)])
  with Some f assms show ?thesis by (auto simp: put_file_def)
qed

lemma is_frozen_simps [simp]:
  "is_frozen (c\<lparr>cat_rules := rs\<rparr>) i = is_frozen c i"
  "is_frozen (c\<lparr>cat_files := fs, cat_config_files := cfs\<rparr>) i = is_frozen c i"
  by (simp_all add: is_frozen_def)

lemma insert_rule_Inr:
  "insert_rule db config (i, r) c = Inr c' \<Longrightarrow>
     c' = c\<lparr>cat_rules := cat_rules c @ [stored_rule (next_rule db i) config r]\<rparr> \<and>
     \<not> list_ex (same_place config r) (cat_rules c)"
  by (simp add: insert_rule_def Let_def result_simps)

lemma insert_rules_Inr:
  "foldE (insert_rule db config) items c = Inr c' \<Longrightarrow>
     c' = c\<lparr>cat_rules := cat_rules c @ map (\<lambda>(i, r). stored_rule (next_rule db i) config r) items\<rparr> \<and>
     distinct (map (rule_place \<circ> snd) items) \<and>
     (\<forall>m \<in> set (cat_rules c). \<forall>x \<in> set items. \<not> same_place config (snd x) m)"
proof (induction items arbitrary: c)
  case Nil
  then show ?case by simp
next
  case (Cons x items)
  obtain i r where x: "x = (i, r)" by force
  let ?m = "stored_rule (next_rule db i) config r"
  from Cons.prems obtain d where d: "insert_rule db config (i, r) c = Inr d"
    "foldE (insert_rule db config) items d = Inr c'"
    unfolding x by (auto simp: result_simps)
  have other: "rule_place s \<noteq> rule_place r" if "\<not> same_place config s ?m" for s
    using that by (auto simp: same_place_def rule_place_def stored_rule_def)
  from insert_rule_Inr[OF d(1)] have d1: "d = c\<lparr>cat_rules := cat_rules c @ [?m]\<rparr>"
    and free: "\<forall>m \<in> set (cat_rules c). \<not> same_place config r m"
    by (auto simp: list_ex_iff)
  from Cons.IH[OF d(2)] d1 have "rule_place r \<notin> (rule_place \<circ> snd) ` set items"
    by (simp add: image_iff) (metis other)
  with Cons.IH[OF d(2)] d1 free show ?case by (simp add: x)
qed

lemma insert_config_file_Inr:
  assumes "insert_config_file db config (i, kind, info) c = Inr c'" and "distinct (map sf_id (cat_files c))"
  shows "\<exists>fs f. c' = c\<lparr>cat_files := cat_files c @ fs,
        cat_config_files := cat_config_files c @ [\<lparr>cf_config = config, cf_kind = kind, cf_file = f\<rparr>]\<rparr> \<and>
      distinct (map sf_id (cat_files c @ fs)) \<and>
      (\<exists>x. find (\<lambda>f'. sf_id f' = f) (cat_files c @ fs) = Some x \<and> sf_sha x = info_SHA256 info)"
proof -
  from assms(1) obtain f fs where f: "put_file db (next_file db i) kind info (cat_files c) = Inr (f, fs)"
    and c': "c' = c\<lparr>cat_files := fs, cat_config_files := cat_config_files c @
      [\<lparr>cf_config = config, cf_kind = kind, cf_file = f\<rparr>]\<rparr>"
    by (auto simp: insert_config_file_def result_simps)
  from put_file_Inr[OF f assms(2)] obtain ext x where "fs = cat_files c @ ext"
    "distinct (map sf_id fs)" "find (\<lambda>f'. sf_id f' = f) fs = Some x" "sf_sha x = info_SHA256 info"
    by blast
  with c' show ?thesis by (intro exI[of _ ext] exI[of _ f] conjI) simp_all
qed

text \<open>What a new version adds to the tables.\<close>

lemma import_version_Inr:
  assumes "import_version sha db name note h pf sf rules c = Inr c'" and "distinct (map sf_id (cat_files c))"
  defines "new \<equiv> next_version db 0"
  shows "new \<notin> set (map cv_id (cat_versions c)) \<and> name \<notin> set (map cv_name (cat_versions c)) \<and>
    cat_versions c' = cat_versions c @
      [\<lparr>cv_id = new, cv_name = name, cv_state = FROZEN,
        cv_sha = Some (compute_config_sha256 sha db c' new), cv_note = note\<rparr>] \<and>
    cat_rules c' = cat_rules c @
      map (\<lambda>(i, r). stored_rule (next_rule db i) new r) (enumerate 0 rules) \<and>
    distinct (map rule_place rules) \<and> distinct (map sf_id (cat_files c')) \<and>
    list_all (\<lambda>m. list_all (\<lambda>r. \<not> same_place new r m) rules) (cat_rules c) \<and>
    (\<exists>fs f g x y. cat_files c' = cat_files c @ fs \<and>
       cat_config_files c' = cat_config_files c @
         [\<lparr>cf_config = new, cf_kind = ''payment_config'', cf_file = f\<rparr>,
          \<lparr>cf_config = new, cf_kind = ''settlement_config'', cf_file = g\<rparr>] \<and>
       find (\<lambda>z. sf_id z = f) (cat_files c') = Some x \<and> sf_sha x = info_SHA256 pf \<and>
       find (\<lambda>z. sf_id z = g) (cat_files c') = Some y \<and> sf_sha y = info_SHA256 sf)"
proof -
  from assms(1) obtain c1 c2 c3 c4 where
    v: "insert_version db new name note c = Inr c1"
    and p: "insert_config_file db new (0, ''payment_config'', pf) c1 = Inr c2"
    and s: "insert_config_file db new (1, ''settlement_config'', sf) c2 = Inr c3"
    and r: "foldE (insert_rule db new) (enumerate 0 rules) c3 = Inr c4"
    and z: "freeze_version sha db new h c4 = Inr c'"
    by (auto simp: import_version_def Let_def result_simps new_def)
  from v have v': "new \<notin> set (map cv_id (cat_versions c))" "name \<notin> set (map cv_name (cat_versions c))"
    "c1 = c\<lparr>cat_versions := cat_versions c @
       [\<lparr>cv_id = new, cv_name = name, cv_state = DRAFT, cv_sha = None, cv_note = note\<rparr>]\<rparr>"
    by (simp_all add: insert_version_def result_simps)
  with insert_config_file_Inr[OF p] assms(2) obtain fs f x where
    p': "c2 = c1\<lparr>cat_files := cat_files c @ fs, cat_config_files := cat_config_files c @
         [\<lparr>cf_config = new, cf_kind = ''payment_config'', cf_file = f\<rparr>]\<rparr>"
      "distinct (map sf_id (cat_files c @ fs))"
      "find (\<lambda>z. sf_id z = f) (cat_files c @ fs) = Some x" "sf_sha x = info_SHA256 pf"
    by auto
  with insert_config_file_Inr[OF s] obtain gs g y where
    s': "c3 = c1\<lparr>cat_files := cat_files c @ fs @ gs, cat_config_files := cat_config_files c @
         [\<lparr>cf_config = new, cf_kind = ''payment_config'', cf_file = f\<rparr>,
          \<lparr>cf_config = new, cf_kind = ''settlement_config'', cf_file = g\<rparr>]\<rparr>"
      "distinct (map sf_id (cat_files c @ fs @ gs))"
      "find (\<lambda>z. sf_id z = g) (cat_files c @ fs @ gs) = Some y" "sf_sha y = info_SHA256 sf"
    by auto
  have x: "find (\<lambda>z. sf_id z = f) (cat_files c @ fs @ gs) = Some x"
    using p'(3) by (simp add: find_append split: option.splits)
  from insert_rules_Inr[OF r] s'(1) v'(3) have r':
    "c4 = c3\<lparr>cat_rules := cat_rules c @ map (\<lambda>(i, r). stored_rule (next_rule db i) new r) (enumerate 0 rules)\<rparr>"
    "distinct (map rule_place rules)"
    by (simp_all flip: map_map)
  have places: "list_all (\<lambda>m. list_all (\<lambda>r. \<not> same_place new r m) rules) (cat_rules c)"
  proof -
    have old: "\<forall>m \<in> set (cat_rules c). \<forall>x \<in> set (enumerate 0 rules). \<not> same_place new (snd x) m"
      using insert_rules_Inr[OF r] s'(1) v'(3) by simp
    have "\<exists>k. (k, q) \<in> set (enumerate 0 rules)" if "q \<in> set rules" for q
    proof -
      from that obtain k where "k < length rules" "rules ! k = q" by (auto simp: in_set_conv_nth)
      then show ?thesis by (intro exI[of _ k]) (simp add: in_set_enumerate_eq)
    qed
    with old show ?thesis unfolding list_all_iff by force
  qed
  let ?upd = "\<lambda>v. if cv_id v = new
    then set_canonical_config_hash sha db c4 v (v\<lparr>cv_state := FROZEN, cv_sha := Some h\<rparr>) else v"
  from z have z': "c' = c4\<lparr>cat_versions := map ?upd (cat_versions c4)\<rparr>"
    by (simp add: freeze_version_def Let_def result_simps)
  have "map ?upd (cat_versions c) = cat_versions c"
    using v'(1) by (intro map_idI) auto
  moreover have "compute_config_sha256 sha db c' new = compute_config_sha256 sha db c4 new"
    by (simp add: z' compute_config_sha256_def config_file_parts_def)
  ultimately show ?thesis
    using v' s' x p'(4) r' z' places by (intro conjI exI) (simp_all add: set_canonical_config_hash_def)
qed

section \<open>Imports and what they leave\<close>

lemma version_file_old:
  assumes "version_file c i kind = Some x"
    and "cat_config_files c' = cat_config_files c @ cfs" and "cat_files c' = cat_files c @ fs"
  shows "version_file c' i kind = Some x"
  using assms by (auto simp: version_file_def find_append bind_eq_Some_conv)

lemma LoadRules_new:
  assumes "cat_rules c' = cat_rules c @ map (\<lambda>(i, r). stored_rule (f i) config r) (enumerate 0 rules)"
    and "list_all (\<lambda>m. mr_config m \<noteq> config) (cat_rules c)" and "list_all clean_rule rules"
  shows "LoadRules c' config = sort_by loadLess rules"
proof -
  let ?new = "map (\<lambda>(i, r). stored_rule (f i) config r) (enumerate 0 rules)"
  have "filter (\<lambda>m. mr_config m = config) (cat_rules c) = []"
    using assms(2) by (simp add: filter_empty_conv list_all_iff)
  moreover have "filter (\<lambda>m. mr_config m = config) ?new = ?new"
    by (auto simp: filter_id_conv stored_rule_def)
  moreover have "map loaded_rule ?new = map snd (enumerate 0 rules)"
    unfolding map_map
  proof (rule map_cong[OF refl])
    fix x assume "x \<in> set (enumerate 0 rules)"
    then have "snd x \<in> set rules"
      by (metis enumerate_eq_zip prod.collapse set_zip_rightD)
    with assms(3) show "(loaded_rule \<circ> (\<lambda>(i, r). stored_rule (f i) config r)) x = snd x"
      by (auto simp: list_all_iff loaded_stored split: prod.splits)
  qed
  ultimately show ?thesis by (simp add: LoadRules_def assms(1))
qed

lemma LoadRules_old:
  assumes "cat_rules c' = cat_rules c @ map (\<lambda>(i, r). stored_rule (f i) config r) xs" and "i \<noteq> config"
  shows "LoadRules c' i = LoadRules c i"
proof -
  have "filter (\<lambda>m. mr_config m = i) (map (\<lambda>(i, r). stored_rule (f i) config r) xs) = []"
    using assms(2) by (auto simp: filter_empty_conv stored_rule_def)
  then show ?thesis by (simp add: LoadRules_def assms(1))
qed

lemma configHash_cong:
  assumes "info_SHA256 p = info_SHA256 p'" "info_SHA256 s = info_SHA256 s'" "mset rules = mset rules'"
    "distinct (map rule_place rules)"
  shows "configHash sha p s rules = configHash sha p' s' rules'"
proof -
  have "sort_by ruleLess rules = sort_by ruleLess rules'"
    using assms(3,4) by (rule sort_rules_unique)
  with assms(1,2) show ?thesis by (simp add: configHash_def config_text_def)
qed

lemma compute_config_sha256_old:
  assumes "cat_files c' = cat_files c @ fs" and "distinct (map sf_id (cat_files c'))"
    and "cat_config_files c' = cat_config_files c @ cfs" and "list_all (\<lambda>x. cf_config x \<noteq> i) cfs"
    and "cat_rules c' = cat_rules c @ rs" and "list_all (\<lambda>m. mr_config m \<noteq> i) rs"
    and "list_all (\<lambda>x. cf_file x \<in> set (map sf_id (cat_files c))) (cat_config_files c)"
  shows "compute_config_sha256 sha db c' i = compute_config_sha256 sha db c i \<and>
    frozen_files c' i = frozen_files c i"
proof -
  have none: "filter (\<lambda>x. cf_config x = i) cfs = []" "filter (\<lambda>m. mr_config m = i) rs = []"
    using assms(4,6) by (simp_all add: filter_empty_conv list_all_iff)
  have files: "filter (\<lambda>f. sf_id f = cf_file x) (cat_files c') = filter (\<lambda>f. sf_id f = cf_file x) (cat_files c)"
    if "x \<in> set (cat_config_files c)" for x
  proof -
    have "cf_file x \<in> set (map sf_id (cat_files c))" using assms(7) that by (simp add: list_all_iff)
    then have "filter (\<lambda>f. sf_id f = cf_file x) fs = []"
      using assms(1,2) by (auto simp: filter_empty_conv) (metis disjoint_iff imageI)
    then show ?thesis by (simp add: assms(1))
  qed
  have "config_file_parts c' i = config_file_parts c i"
    unfolding config_file_parts_def Let_def
    by (simp add: assms(3) none) (intro arg_cong2[where f = append] arg_cong[where f = concat] map_cong refl;
      use files in auto)
  then show ?thesis
    by (simp add: compute_config_sha256_def frozen_files_def assms(3,5) none)
qed

lemma import_version_ok:
  assumes "import_version sha db name note h pf sf rules c = Inr c'"
    and "catalog_ok sha db c" and "list_all clean_rule rules"
  defines "new \<equiv> next_version db 0"
  shows "catalog_ok sha db c' \<and> new \<notin> set (map cv_id (cat_versions c)) \<and>
    LoadRules c' new = sort_by loadLess rules \<and> distinct (map rule_place rules) \<and>
    cat_versions c' = cat_versions c @ [\<lparr>cv_id = new, cv_name = name, cv_state = FROZEN,
      cv_sha = Some (compute_config_sha256 sha db c' new), cv_note = note\<rparr>] \<and>
    name \<notin> set (map cv_name (cat_versions c)) \<and>
    (\<forall>v \<in> set (cat_versions c). LoadRules c' (cv_id v) = LoadRules c (cv_id v)) \<and>
    map_option sf_sha (version_file c' new ''payment_config'') = Some (info_SHA256 pf) \<and>
    map_option sf_sha (version_file c' new ''settlement_config'') = Some (info_SHA256 sf)"
proof -
  from assms(2) have ids: "distinct (map sf_id (cat_files c))" and mrs: "distinct (map mr_place (cat_rules c))"
    and olds: "list_all (\<lambda>x. cf_config x \<in> set (map cv_id (cat_versions c))) (cat_config_files c)"
      "list_all (\<lambda>m. mr_config m \<in> set (map cv_id (cat_versions c))) (cat_rules c)"
      "list_all (frozen_ok sha db c) (cat_versions c)"
      "list_all (\<lambda>x. cf_file x \<in> set (map sf_id (cat_files c))) (cat_config_files c)"
    by (simp_all add: catalog_ok_def)
  let ?rs = "map (\<lambda>(i, r). stored_rule (next_rule db i) new r) (enumerate 0 rules)"
  from import_version_Inr[OF assms(1) ids, folded new_def] obtain fs f g x y where
    new: "new \<notin> set (map cv_id (cat_versions c))" "name \<notin> set (map cv_name (cat_versions c))"
    and versions: "cat_versions c' = cat_versions c @ [\<lparr>cv_id = new, cv_name = name, cv_state = FROZEN,
      cv_sha = Some (compute_config_sha256 sha db c' new), cv_note = note\<rparr>]"
    and rules: "cat_rules c' = cat_rules c @ ?rs"
    and places: "distinct (map rule_place rules)" and ids': "distinct (map sf_id (cat_files c'))"
    and fresh: "list_all (\<lambda>m. list_all (\<lambda>r. \<not> same_place new r m) rules) (cat_rules c)"
    and files: "cat_files c' = cat_files c @ fs"
      "cat_config_files c' = cat_config_files c @
         [\<lparr>cf_config = new, cf_kind = ''payment_config'', cf_file = f\<rparr>,
          \<lparr>cf_config = new, cf_kind = ''settlement_config'', cf_file = g\<rparr>]"
      "find (\<lambda>z. sf_id z = f) (cat_files c') = Some x" "sf_sha x = info_SHA256 pf"
      "find (\<lambda>z. sf_id z = g) (cat_files c') = Some y" "sf_sha y = info_SHA256 sf"
    by (elim conjE exE) (rule that; assumption)
  have old_rules: "list_all (\<lambda>m. mr_config m \<noteq> new) (cat_rules c)"
    using olds(2) new(1) by (auto simp: list_all_iff)
  have load: "LoadRules c' new = sort_by loadLess rules"
    by (rule LoadRules_new[OF rules old_rules assms(3)])
  have kept: "LoadRules c' (cv_id v) = LoadRules c (cv_id v)" if "v \<in> set (cat_versions c)" for v
    by (rule LoadRules_old[OF rules]) (use that new(1) in auto)
  have none: "find (\<lambda>x. cf_config x = new \<and> cf_kind x = k) (cat_config_files c) = None" for k
    using olds(1) new(1) by (auto simp: find_None_iff list_all_iff)
  then have vf: "version_file c' new ''payment_config'' = Some x"
    "version_file c' new ''settlement_config'' = Some y"
    using files(3,5) by (simp_all add: version_file_def files(2) find_append)
  have "filter (\<lambda>x. cf_config x = new) (cat_config_files c) = []"
    using olds(1) new(1) by (auto simp: filter_empty_conv list_all_iff)
  then have "frozen_files c' new" by (simp add: frozen_files_def files(2))
  moreover have "frozen_ok sha db c' v" if v: "v \<in> set (cat_versions c)" for v
  proof -
    from v olds(3) have ok: "frozen_ok sha db c v" by (simp add: list_all_iff)
    have ne: "cv_id v \<noteq> new" using v new(1) by auto
    have "list_all (\<lambda>m. mr_config m \<noteq> cv_id v) ?rs"
      using ne by (auto simp: list_all_iff stored_rule_def)
    moreover have "list_all (\<lambda>x. cf_config x \<noteq> cv_id v)
        [\<lparr>cf_config = new, cf_kind = ''payment_config'', cf_file = f\<rparr>,
         \<lparr>cf_config = new, cf_kind = ''settlement_config'', cf_file = g\<rparr>]"
      using ne by simp
    ultimately show ?thesis
      using ok compute_config_sha256_old[OF files(1) ids' files(2) _ rules _ olds(4), of "cv_id v" sha db]
      by (simp add: frozen_ok_def)
  qed
  ultimately have "list_all (frozen_ok sha db c') (cat_versions c')"
    by (auto simp: versions list_all_iff frozen_ok_def)
  moreover have "list_all (\<lambda>x. cf_config x \<in> set (map cv_id (cat_versions c'))) (cat_config_files c')"
    using olds(1) by (auto simp: versions files(2) list_all_iff)
  moreover have "list_all (\<lambda>m. mr_config m \<in> set (map cv_id (cat_versions c'))) (cat_rules c')"
    using olds(2) by (auto simp: versions rules list_all_iff stored_rule_def)
  moreover have "list_all (\<lambda>x. cf_file x \<in> set (map sf_id (cat_files c'))) (cat_config_files c')"
  proof -
    have "f \<in> set (map sf_id (cat_files c'))" "g \<in> set (map sf_id (cat_files c'))"
      using files(3,5) by (auto simp: find_Some_iff)
    then show ?thesis using olds(4) by (auto simp: files(1,2) list_all_iff)
  qed
  moreover have "distinct (map mr_place (cat_rules c'))"
  proof -
    have "map mr_place ?rs = map (Pair new) (map rule_place rules)"
      by (rule nth_equalityI)
        (simp_all add: nth_enumerate_eq mr_place_def stored_rule_def rule_place_def)
    then have "distinct (map mr_place ?rs)" using places by (simp add: distinct_map inj_on_def del: map_map)
    moreover note mrs
    moreover have "mr_place m \<notin> set (map mr_place ?rs)" if "m \<in> set (cat_rules c)" for m
      using old_rules that by (auto simp: list_all_iff mr_place_def stored_rule_def)
    then have "set (map mr_place (cat_rules c)) \<inter> set (map mr_place ?rs) = {}"
      unfolding set_map[of mr_place "cat_rules c"] by blast
    ultimately show ?thesis by (simp only: rules map_append distinct_append)
  qed
  ultimately have "catalog_ok sha db c'"
    using assms(2) new ids' by (simp add: catalog_ok_def versions)
  with new versions load kept vf files(4,6) places show ?thesis by simp
qed

lemma find_version_unique:
  assumes "catalog_ok sha db c" and "v \<in> set (cat_versions c)"
  shows "find_version (\<lambda>u. cv_name u = cv_name v) c = Some v"
  using assms by (simp add: find_version_def catalog_ok_def find_key)

lemma find_version_Some: "find_version P c = Some v \<Longrightarrow> v \<in> set (cat_versions c) \<and> P v"
  by (auto simp: find_version_def find_Some_iff)

lemma Lookup_frozen:
  assumes "catalog_ok sha db c" and "v \<in> set (cat_versions c)" and "cv_state v = FROZEN"
    and "scan_version v = Inr x"
  shows "LookupConfigVersion c (fc_Name x) = Inr x \<and>
    fc_ContentSHA256 x = compute_config_sha256 sha db c (fc_ID x) \<and> frozen_files c (fc_ID x)"
proof -
  from assms(4) have x: "cv_sha v = Some (fc_ContentSHA256 x)" "fc_Name x = cv_name v" "fc_ID x = cv_id v"
    by (auto simp: scan_version_def split: option.splits)
  moreover have "frozen_ok sha db c v" using assms(1,2) by (simp add: catalog_ok_def list_all_iff)
  ultimately show ?thesis
    using assms(3,4) find_version_unique[OF assms(1,2)]
    by (simp add: LookupConfigVersion_def frozen_ok_def)
qed

lemma version_file_present:
  assumes "frozen_files c i" and "list_all (\<lambda>x. cf_file x \<in> set (map sf_id (cat_files c))) (cat_config_files c)"
    and "k \<in> {''payment_config'', ''settlement_config''}"
  shows "version_file c i k \<noteq> None"
proof -
  from assms(1) obtain f g where mine: "filter (\<lambda>x. cf_config x = i) (cat_config_files c) =
      [\<lparr>cf_config = i, cf_kind = ''payment_config'', cf_file = f\<rparr>,
       \<lparr>cf_config = i, cf_kind = ''settlement_config'', cf_file = g\<rparr>]"
    unfolding frozen_files_def by blast
  have "\<exists>x \<in> set (filter (\<lambda>x. cf_config x = i) (cat_config_files c)). cf_kind x = k"
    unfolding mine using assms(3) by auto
  then have "find (\<lambda>x. cf_config x = i \<and> cf_kind x = k) (cat_config_files c) \<noteq> None"
    by (auto simp: find_None_iff)
  then obtain x where x: "find (\<lambda>x. cf_config x = i \<and> cf_kind x = k) (cat_config_files c) = Some x" by auto
  then have "cf_file x \<in> set (map sf_id (cat_files c))"
    using assms(2) by (auto simp: find_Some_iff list_all_iff)
  then have "find (\<lambda>f. sf_id f = cf_file x) (cat_files c) \<noteq> None" by (auto simp: find_None_iff)
  with x show ?thesis by (simp add: version_file_def)
qed

lemma stored_hash_frozen:
  assumes "catalog_ok sha db c" and "frozen_files c i" and "paths_ordered db (LoadRules c i)"
  shows "stored_hash sha c i = Some (compute_config_sha256 sha db c i)"
proof -
  from assms(1) have c: "distinct (map sf_id (cat_files c))" "distinct (map mr_place (cat_rules c))"
    "list_all (\<lambda>x. cf_file x \<in> set (map sf_id (cat_files c))) (cat_config_files c)"
    by (simp_all add: catalog_ok_def)
  obtain x y where xy: "version_file c i ''payment_config'' = Some x"
    "version_file c i ''settlement_config'' = Some y"
    using version_file_present[OF assms(2) c(3), of "''payment_config''"]
      version_file_present[OF assms(2) c(3), of "''settlement_config''"] by auto
  from compute_config_sha256_eq[OF c(1,2) assms(2,3) xy] xy show ?thesis
    by (simp add: stored_hash_def)
qed

text \<open>The outcomes of an import.\<close>

lemma EnsureFrozenConfig_cases:
  assumes "EnsureFrozenConfig sha db oc name note pf sf rules c = (c', r)"
  obtains (refused) e where "c' = c" "r = Inl e"
  | (existing) v x where "c' = c" "v \<in> set (cat_versions c)" "cv_state v = FROZEN"
      "scan_version v = Inr x" "fc_ContentSHA256 x = configHash sha pf sf rules"
      "r = Inr x \<or> isl r"
  | (imported) n stored where
      "import_version sha db n note (configHash sha pf sf rules) pf sf rules c = Inr c'"
      "read_hash c' (next_version db 0) = Inr stored"
      "r = Inr \<lparr>fc_ID = next_version db 0, fc_Name = n, fc_ContentSHA256 = stored\<rparr> \<or> isl r"
  using assms
  by (auto simp: EnsureFrozenConfig_def Let_def end_catalog_def scan_version_def dest!: find_version_Some
      split: if_splits option.splits sum.splits commit_outcome.splits)

section \<open>The round trip of a configuration\<close>


definition ex_dbms :: dbms where
  "ex_dbms = \<lparr>accepts_text = valid_utf8, accepts_date = (\<lambda>s. s \<noteq> []), text_less = (<), next_file = (\<lambda>k. int k + 1),
     next_version = (\<lambda>k. int k + 1), next_rule = (\<lambda>k. int k + 1), next_row = (\<lambda>k. int k + 1),
     next_mapping = (\<lambda>k. int k + 1), next_group = (\<lambda>k. int k + 1)\<rparr>"

definition ex_info :: "string \<Rightarrow> string \<Rightarrow> file_info" where
  "ex_info path h = \<lparr>info_Path = path, info_SHA256 = h, info_Bytes = 9\<rparr>"

definition ex_frozen_rule :: "source \<Rightarrow> string \<Rightarrow> int \<Rightarrow> config_rule" where
  "ex_frozen_rule src path line =
     \<lparr>rule_ID = 0, rule_Source = src, rule_OriginFile = path, rule_OriginLine = line,
      rule_TransactionType = ''ORDER'', rule_Description = ''any'',
      rule_AmountField = (if src = SourcePayment then ''product_sales'' else []),
      rule_AmountType = (if src = SourcePayment then [] else ''ItemPrice''),
      rule_AmountDescription = (if src = SourcePayment then [] else ''Principal''),
      rule_RecordRef = ''txn_ref+sku'', rule_PositiveTarget = ''sales_product_charges'',
      rule_NegativeTarget = ''sales_product_charges''\<rparr>"

definition empty_catalog :: catalog where
  "empty_catalog = \<lparr>cat_files = [], cat_versions = [], cat_config_files = [], cat_rules = []\<rparr>"

definition ex_frozen_rules :: "config_rule list" where
  "ex_frozen_rules = [ex_frozen_rule SourceSettlement ''s.csv'' 2, ex_frozen_rule SourcePayment ''p.csv'' 3,
     ex_frozen_rule SourcePayment ''p.csv'' 2]"


text \<open>
  Where the collation orders two paths of one source differently from the program, the same
  configuration cannot be imported twice: the stored hash is not the program's, and the second
  import finds the name with other content.
\<close>

definition ex_two_files :: "config_rule list" where
  "ex_two_files = [ex_frozen_rule SourcePayment ''a.csv'' 2, ex_frozen_rule SourcePayment ''B.csv'' 2]"

definition ex_folding_dbms :: dbms where
  "ex_folding_dbms = ex_dbms\<lparr>text_less := (\<lambda>s t. ToLower s < ToLower t)\<rparr>"

lemma collation_refuses_second_import:
  "case EnsureFrozenConfig id ex_folding_dbms Committed ''v1'' [] (ex_info ''a.csv'' ''aa'')
          (ex_info ''s.csv'' ''bb'') ex_two_files empty_catalog of
     (c', Inr x) \<Rightarrow>
       fc_ContentSHA256 x \<noteq> configHash id (ex_info ''a.csv'' ''aa'') (ex_info ''s.csv'' ''bb'') ex_two_files \<and>
       EnsureFrozenConfig id ex_folding_dbms Committed ''v1'' [] (ex_info ''a.csv'' ''aa'')
          (ex_info ''s.csv'' ''bb'') ex_two_files c' = (c', Inl (VersionDiffers ''v1''))
   | _ \<Rightarrow> False"
  by code_simp

end
