(* ===== verification/Persist.thy ===== *)
theory Persist
  imports Config_Store
begin

text \<open>
  \<open>Persist\<close> of \<open>internal/store/store.go\<close>: the gates of a strict run, the claim, and the transaction
  that writes the rows of a run. The tables are those of all runs, with the run in a column, as in
  the migrations. A \<open>NUMERIC\<close> column holds the exact value, in cents, of the text it is given. The
  temporary table and the batches are the lists of rows they carry.
\<close>

section \<open>Tables of a run\<close>

record source_row =
  sr_id :: int
  sr_run :: int
  sr_file :: int
  sr_source :: string
  sr_kind :: row_kind
  sr_ordinal :: int
  sr_line_start :: int
  sr_line_end :: int
  sr_byte_start :: int
  sr_byte_end :: int
  sr_settlement :: "string option"
  sr_currency :: "string option"
  sr_type :: "string option"
  sr_description :: "string option"
  sr_amount_type :: "string option"
  sr_amount_description :: "string option"
  sr_sku :: "string option"
  sr_txn_ref :: "string option"
  sr_posted :: "int option"
  sr_release :: "int option"
  sr_key_date :: "string option"
  sr_status :: "string option"
  sr_recon :: "int option"
  sr_event :: "string option"
  sr_scope :: scope_reason

record mapping_row =
  rm_id :: int
  rm_run :: int
  rm_row :: int
  rm_rule :: int
  rm_field :: string
  rm_amount :: int
  rm_target :: "string option"
  rm_decision :: decision
  rm_ref :: string

record contribution_row =
  sc_run :: int
  sc_row :: int
  sc_mapping :: int
  sc_source :: string
  sc_scope :: scope_reason
  sc_settlement :: "string option"
  sc_currency :: "string option"
  sc_field :: string
  sc_amount :: int

record control_row =
  cr_run :: int
  cr_settlement :: string
  cr_row :: int
  cr_currency :: string
  cr_total :: int

record total_row =
  tr_run :: int
  tr_source :: string
  tr_field :: string
  tr_amount :: int
  tr_count :: int

record group_row =
  gr_id :: int
  gr_run :: int
  gr_ref :: string
  gr_settlement :: string
  gr_currency :: string
  gr_scope :: scope_reason
  gr_payment_rows :: int
  gr_payment_amount :: int
  gr_settlement_rows :: int
  gr_settlement_amount :: int
  gr_status :: recon_status

record member_row =
  me_run :: int
  me_group :: int
  me_row :: int

record run_file =
  rf_run :: int
  rf_role :: string
  rf_file :: int

record database =
  db_runs :: run_table
  db_catalog :: catalog
  db_run_files :: "run_file list"
  db_rows :: "source_row list"
  db_mappings :: "mapping_row list"
  db_contributions :: "contribution_row list"
  db_controls :: "control_row list"
  db_totals :: "total_row list"
  db_groups :: "group_row list"
  db_members :: "member_row list"
  db_issues :: "(int \<times> string) list"

datatype persist_error =
    NoConfigVersion
  | StrictSummary string string string
  | StrictAmount string
  | StrictBucket string string
  | PersistClaim claim_error
  | PersistStore db_error
  | MissingRuleID source int
  | NoHeaderTotal int
  | PersistCommit

definition numeric :: "int64 \<Rightarrow> int" where
  "numeric a = decimal_cents (FormatCents a)"

text \<open>The rows a transaction inserts get the ids of the sequence in order.\<close>

definition with_ids :: "(nat \<Rightarrow> int) \<Rightarrow> (int \<Rightarrow> 'a \<Rightarrow> 'b) \<Rightarrow> 'a list \<Rightarrow> 'b list" where
  "with_ids ids f xs = map (\<lambda>(k, x). f (ids k) x) (enumerate 0 xs)"

section \<open>The gates of a strict run\<close>

definition group_gate :: "group \<Rightarrow> persist_error option" where
  "group_gate g =
     (if g_Scope g \<noteq> ScopeIn then None
      else if g_PaymentRows g \<noteq> [] \<and> g_SettlementRows g \<noteq> [] \<and> g_PaymentAmount g \<noteq> g_SettlementAmt g
      then Some (StrictAmount (g_Key g))
      else map_option (StrictBucket (g_Key g))
             (find (\<lambda>f. gget 0 (g_PaymentBuckets g) f \<noteq> gget 0 (g_SettleBuckets g) f)
               (remdups (gkeys (g_PaymentBuckets g) @ gkeys (g_SettleBuckets g)))))"

fun first_error :: "'e option list \<Rightarrow> 'e option" where
  "first_error [] = None"
| "first_error (None # es) = first_error es"
| "first_error (Some e # es) = Some e"

definition summary_gate :: "string \<times> (source, int64) gomap \<Rightarrow> persist_error option" where
  "summary_gate b =
     (case b of (field, sides) \<Rightarrow>
        if gget 0 sides SourcePayment \<noteq> gget 0 sides SourceSettlement
        then Some (StrictSummary field (FormatCents (gget 0 sides SourcePayment))
               (FormatCents (gget 0 sides SourceSettlement)))
        else None)"

definition strict_gate :: "summary \<Rightarrow> group list \<Rightarrow> persist_error option" where
  "strict_gate s gs = first_error (map summary_gate (Buckets s) @ map group_gate gs)"

section \<open>Files and rules of a run\<close>

definition insert_run_file :: "run_file \<Rightarrow> run_file list \<Rightarrow> db_error + run_file list" where
  "insert_run_file f fs =
     checked [(NotUnique ''run_files_pkey'',
                 \<not> list_ex (\<lambda>x. rf_run x = rf_run f \<and> rf_role x = rf_role f) fs)] (fs @ [f])"

definition set_files :: "source_file list \<Rightarrow> catalog \<Rightarrow> catalog" where
  "set_files fs c = c\<lparr>cat_files := fs\<rparr>"

definition persist_files ::
  "dbms \<Rightarrow> int \<Rightarrow> int \<Rightarrow> file_info \<Rightarrow> file_info \<Rightarrow> database \<Rightarrow> db_error + (source, int) gomap \<times> database"
where
  "persist_files db run config pinfo sinfo d =
     (case put_file db (next_file db 0) ''payment'' pinfo (cat_files (db_catalog d)) of Inl e \<Rightarrow> Inl e
      | Inr (p, fs) \<Rightarrow>
     (case put_file db (next_file db 1) ''settlement'' sinfo fs of Inl e \<Rightarrow> Inl e
      | Inr (s, fs) \<Rightarrow>
     (let roles = map (\<lambda>x. \<lparr>rf_run = run, rf_role = cf_kind x, rf_file = cf_file x\<rparr>)
            (concat (map (\<lambda>k. filter (\<lambda>x. cf_config x = config \<and> cf_kind x = k)
                 (cat_config_files (db_catalog d))) [''payment_config'', ''settlement_config'']))
      in case foldE insert_run_file
             (\<lparr>rf_run = run, rf_role = ''payment'', rf_file = p\<rparr> #
              \<lparr>rf_run = run, rf_role = ''settlement'', rf_file = s\<rparr> # roles) (db_run_files d) of Inl e \<Rightarrow> Inl e
      | Inr rfs \<Rightarrow>
          Inr ([(SourcePayment, p), (SourceSettlement, s)],
            d\<lparr>db_catalog := set_files fs (db_catalog d), db_run_files := rfs\<rparr>))))"

text \<open>The id of the row of a rule, which is inserted when it is missing.\<close>

definition rule_id_of ::
  "dbms \<Rightarrow> int \<Rightarrow> nat \<times> config_rule \<Rightarrow> (string, int) gomap \<times> catalog \<Rightarrow>
     db_error + (string, int) gomap \<times> catalog" where
  "rule_id_of db config item st =
     (case (item, st) of ((k, r), (ids, c)) \<Rightarrow>
      (case find (same_place config r) (cat_rules c) of
         Some m \<Rightarrow> Inr (gput (ruleKey r) (mr_id m) ids, c)
       | None \<Rightarrow> (case insert_rule db config (k, r) c of Inl e \<Rightarrow> Inl e
                | Inr c' \<Rightarrow> Inr (gput (ruleKey r) (next_rule db k) ids, c'))))"

definition persist_rules ::
  "dbms \<Rightarrow> int \<Rightarrow> config_rule list \<Rightarrow> database \<Rightarrow> db_error + (string, int) gomap \<times> database" where
  "persist_rules db config rules d =
     (case foldE (rule_id_of db config) (enumerate 0 rules) ([], db_catalog d) of Inl e \<Rightarrow> Inl e
      | Inr (ids, c) \<Rightarrow> Inr (ids, d\<lparr>db_catalog := c\<rparr>))"

section \<open>Rows and mappings\<close>

definition stage_row :: "int \<Rightarrow> (source, int) gomap \<Rightarrow> raw_row \<Rightarrow> source_row" where
  "stage_row run files r =
     \<lparr>sr_id = 0, sr_run = run, sr_file = gget 0 files (row_Source r),
      sr_source = source_string (row_Source r), sr_kind = row_Kind r, sr_ordinal = row_Ordinal r,
      sr_line_start = row_LineStart r, sr_line_end = row_LineEnd r,
      sr_byte_start = row_ByteStart r, sr_byte_end = row_ByteEnd r,
      sr_settlement = nullable (row_SettlementID r), sr_currency = nullable (row_Currency r),
      sr_type = nullable (row_Transaction r), sr_description = nullable (row_Description r),
      sr_amount_type = nullable (row_AmountType r),
      sr_amount_description = nullable (row_AmountDesc r), sr_sku = nullable (row_SKU r),
      sr_txn_ref = nullable (row_TxnRef r), sr_posted = row_PostedAt r, sr_release = row_ReleaseAt r,
      sr_key_date = (if row_KeyDate r \<noteq> [] then Some (row_KeyDate r) else None),
      sr_status = nullable (row_Status r),
      sr_recon = (if row_HasRecon r then Some (numeric (row_ReconAmount r)) else None),
      sr_event = nullable (row_EventClass r), sr_scope = row_Scope r\<rparr>"

definition stageLess :: "source_row \<Rightarrow> source_row \<Rightarrow> bool" where
  "stageLess a b =
     (if sr_source a \<noteq> sr_source b then sr_source a < sr_source b else sr_ordinal a < sr_ordinal b)"

definition accepts_row :: "dbms \<Rightarrow> source_row \<Rightarrow> bool" where
  "accepts_row db r \<longleftrightarrow>
     int4 (sr_ordinal r) \<and> int4 (sr_line_start r) \<and> int4 (sr_line_end r) \<and>
     list_all (accepts_null db)
       [sr_settlement r, sr_currency r, sr_type r, sr_description r, sr_amount_type r,
        sr_amount_description r, sr_sku r, sr_txn_ref r, sr_status r, sr_event r] \<and>
     (case sr_key_date r of None \<Rightarrow> True | Some t \<Rightarrow> accepts_date db t)"

definition row_location :: "source_row \<Rightarrow> bool" where
  "row_location r \<longleftrightarrow>
     0 < sr_ordinal r \<and> 0 < sr_line_start r \<and> sr_line_start r \<le> sr_line_end r \<and>
     0 \<le> sr_byte_start r \<and> sr_byte_start r \<le> sr_byte_end r"

definition row_keys :: "source_row list \<Rightarrow> (string, int) gomap" where
  "row_keys rows =
     fold (\<lambda>r. gput (sr_source r @ ''|'' @ dec_int (sr_ordinal r)) (sr_id r)) rows []"

definition persist_source_rows ::
  "dbms \<Rightarrow> int \<Rightarrow> (source, int) gomap \<Rightarrow> raw_row list \<Rightarrow> database \<Rightarrow>
     db_error + (string, int) gomap \<times> database" where
  "persist_source_rows db run files all d =
     (let rows = with_ids (next_row db) (\<lambda>i r. r\<lparr>sr_id := i\<rparr>)
            (sort_by stageLess (map (stage_row run files) all));
          t = db_rows d @ rows
      in checked
           [(NotUnique ''source_rows_pkey'', distinct (map sr_id t)),
            (NotUnique ''source_rows_run_id_source_file_id_ordinal_key'',
               distinct (map (\<lambda>r. (sr_run r, sr_file r, sr_ordinal r)) t)),
            (CheckViolated ''source_rows_source_check'',
               list_all (\<lambda>r. sr_source r \<in> set (take 2 file_kinds)) rows),
            (CheckViolated ''source_rows_location_check'', list_all row_location rows),
            (BadValue ''source_rows'', list_all (accepts_row db) rows)]
           (row_keys rows, d\<lparr>db_rows := t\<rparr>))"

definition mapping_of ::
  "int \<Rightarrow> (string, int) gomap \<Rightarrow> (string, int) gomap \<Rightarrow> raw_row \<times> contribution \<Rightarrow>
     persist_error + mapping_row" where
  "mapping_of run rows rules p =
     (case p of (r, c) \<Rightarrow>
      let rid = gget 0 rules (ruleKey (con_Rule c))
      in if rid = 0 then Inl (MissingRuleID (rule_Source (con_Rule c)) (rule_OriginLine (con_Rule c)))
         else Inr \<lparr>rm_id = 0, rm_run = run, rm_row = gget 0 rows (rowKey r), rm_rule = rid,
                   rm_field = con_Field c, rm_amount = numeric (con_Amount c),
                   rm_target = nullable (con_Target c), rm_decision = con_Decision c,
                   rm_ref = con_Key c\<rparr>)"

definition row_contributions :: "'i mapped list \<Rightarrow> (raw_row \<times> contribution) list" where
  "row_contributions all = concat (map (\<lambda>m. map (Pair (m_Row m)) (m_Contributions m)) all)"

definition lineage_ok :: "int \<Rightarrow> database \<Rightarrow> mapping_row \<Rightarrow> bool" where
  "lineage_ok config d m \<longleftrightarrow>
     list_ex (\<lambda>x. mr_id x = rm_rule m \<and> mr_config x = config \<and>
       list_ex (\<lambda>r. sr_id r = rm_row m \<and> sr_run r = rm_run m \<and> sr_source r = mr_source x) (db_rows d))
       (cat_rules (db_catalog d))"

definition persist_mappings ::
  "dbms \<Rightarrow> int \<Rightarrow> int \<Rightarrow> (string, int) gomap \<Rightarrow> (string, int) gomap \<Rightarrow> 'i mapped list \<Rightarrow> database \<Rightarrow>
     persist_error + database" where
  "persist_mappings db run config rows rules all d =
     (case mapE (mapping_of run rows rules) (row_contributions all) of Inl e \<Rightarrow> Inl e
      | Inr ms \<Rightarrow>
     (let new = with_ids (next_mapping db) (\<lambda>i m. m\<lparr>rm_id := i\<rparr>) ms; t = db_mappings d @ new
      in map_sum PersistStore id (checked
           [(NotUnique ''row_mappings_pkey'', distinct (map rm_id t)),
            (NotUnique ''row_mappings_run_id_source_row_id_rule_id_key'',
               distinct (map (\<lambda>m. (rm_run m, rm_row m, rm_rule m)) t)),
            (MissingReference ''row_mappings_lineage'', list_all (lineage_ok config d) new),
            (BadValue ''row_mappings'',
               list_all (\<lambda>m. accepts_text db (rm_field m) \<and> accepts_null db (rm_target m) \<and>
                 accepts_text db (rm_ref m)) new)]
           (d\<lparr>db_mappings := t\<rparr>))))"

text \<open>The rows of a join \<open>row_mappings rm JOIN source_rows sr ON sr.id=rm.source_row_id\<close>.\<close>

definition mapped_rows :: "int \<Rightarrow> database \<Rightarrow> (mapping_row \<times> source_row) list" where
  "mapped_rows run d =
     concat (map (\<lambda>m. map (Pair m) (filter (\<lambda>r. sr_id r = rm_row m) (db_rows d)))
       (filter (\<lambda>m. rm_run m = run) (db_mappings d)))"

definition in_summary :: "mapping_row \<times> source_row \<Rightarrow> bool" where
  "in_summary p \<longleftrightarrow>
     sr_scope (snd p) = ScopeIn \<and> rm_target (fst p) \<noteq> None \<and> rm_target (fst p) \<noteq> Some [] \<and>
     rm_amount (fst p) \<noteq> 0"

definition contribution_of :: "mapping_row \<times> source_row \<Rightarrow> contribution_row" where
  "contribution_of p =
     \<lparr>sc_run = rm_run (fst p), sc_row = rm_row (fst p), sc_mapping = rm_id (fst p),
      sc_source = sr_source (snd p), sc_scope = sr_scope (snd p),
      sc_settlement = sr_settlement (snd p), sc_currency = sr_currency (snd p),
      sc_field = coalesce (rm_target (fst p)), sc_amount = rm_amount (fst p)\<rparr>"

text \<open>\<open>ON CONFLICT (run_id,row_mapping_id) DO NOTHING\<close>\<close>

definition insert_contribution :: "contribution_row \<Rightarrow> contribution_row list \<Rightarrow> contribution_row list" where
  "insert_contribution x t =
     (if list_ex (\<lambda>y. sc_run y = sc_run x \<and> sc_mapping y = sc_mapping x) t then t else t @ [x])"

definition persist_contributions :: "int \<Rightarrow> database \<Rightarrow> db_error + database" where
  "persist_contributions run d =
     (let new = map contribution_of (filter in_summary (mapped_rows run d))
      in checked
           [(MissingReference ''summary_contributions_summary_field_fkey'',
               list_all (\<lambda>x. sc_field x \<in> set knownSummaryFields) new)]
           (d\<lparr>db_contributions := fold insert_contribution new (db_contributions d)\<rparr>))"

section \<open>Controls, totals, groups and members\<close>

definition insert_control :: "int \<Rightarrow> control_row \<Rightarrow> control_row list \<Rightarrow> db_error + control_row list" where
  "insert_control run x t =
     checked
       [(NotUnique ''settlement_controls_pkey'',
           \<not> list_ex (\<lambda>y. cr_run y = run \<and> cr_settlement y = cr_settlement x) t),
        (NotUnique ''settlement_controls_run_id_metadata_row_id_key'',
           \<not> list_ex (\<lambda>y. cr_run y = run \<and> cr_row y = cr_row x) t)]
       (t @ [x])"

definition persist_control ::
  "dbms \<Rightarrow> int \<Rightarrow> string \<Rightarrow> (string, int) gomap \<Rightarrow> raw_row \<Rightarrow> database \<Rightarrow> persist_error + database" where
  "persist_control db run selected rows r d =
     (if row_Source r \<noteq> SourceSettlement \<or> row_Kind r \<noteq> RowMetadata \<or> row_SettlementID r \<noteq> selected
      then Inr d
      else if \<not> row_HasRecon r then Inl (NoHeaderTotal (row_LineStart r))
      else
        let i = gget 0 rows (rowKey r);
            x = \<lparr>cr_run = run, cr_settlement = row_SettlementID r, cr_row = i,
                 cr_currency = row_Currency r, cr_total = numeric (row_ReconAmount r)\<rparr>
        in if \<not> list_ex (\<lambda>y. sr_id y = i \<and> sr_run y = run) (db_rows d)
           then Inl (PersistStore (MissingReference ''settlement_controls_metadata_row_run_fk''))
           else if \<not> (accepts_text db (row_SettlementID r) \<and> accepts_text db (row_Currency r))
           then Inl (PersistStore (BadValue ''settlement_controls''))
           else (case insert_control run x (db_controls d) of Inl e \<Rightarrow> Inl (PersistStore e)
                 | Inr t \<Rightarrow> Inr (d\<lparr>db_controls := t\<rparr>)))"

text \<open>The number of mappings of a source to a field, as \<open>Persist\<close> counts them.\<close>

definition count_mappings :: "int \<Rightarrow> string \<Rightarrow> string \<Rightarrow> database \<Rightarrow> int" where
  "count_mappings run src field d =
     int (length (filter (\<lambda>p. sr_source (snd p) = src \<and> sr_scope (snd p) = ScopeIn \<and>
       rm_target (fst p) = Some field \<and> rm_amount (fst p) \<noteq> 0) (mapped_rows run d)))"

definition persist_total ::
  "dbms \<Rightarrow> int \<Rightarrow> (string \<times> (source, int64) gomap) \<times> source \<Rightarrow> database \<Rightarrow> db_error + database" where
  "persist_total db run item d =
     (case item of ((field, bySource), src) \<Rightarrow>
      let t = db_totals d;
          x = \<lparr>tr_run = run, tr_source = source_string src, tr_field = field,
               tr_amount = numeric (gget 0 bySource src),
               tr_count = count_mappings run (source_string src) field d\<rparr>
      in checked
           [(NotUnique ''summary_totals_pkey'',
               \<not> list_ex (\<lambda>y. tr_run y = run \<and> tr_source y = tr_source x \<and> tr_field y = field) t),
            (BadValue ''summary_totals'', accepts_text db field)]
           (d\<lparr>db_totals := t @ [x]\<rparr>))"

definition total_items :: "summary \<Rightarrow> ((string \<times> (source, int64) gomap) \<times> source) list" where
  "total_items s = concat (map (\<lambda>b. [(b, SourcePayment), (b, SourceSettlement)]) (Buckets s))"

definition stored_status :: "group \<Rightarrow> recon_status" where
  "stored_status g =
     (if g_PaymentRows g = [] then StatusUnreconciledSettle
      else if g_SettlementRows g = [] then StatusUnreconciledPayment else StatusReconciled)"

definition group_row_of :: "int \<Rightarrow> int \<Rightarrow> group \<Rightarrow> group_row" where
  "group_row_of run i g =
     \<lparr>gr_id = i, gr_run = run, gr_ref = g_Key g, gr_settlement = g_SettlementID g,
      gr_currency = g_Currency g, gr_scope = g_Scope g,
      gr_payment_rows = int (length (g_PaymentRows g)),
      gr_payment_amount = numeric (g_PaymentAmount g),
      gr_settlement_rows = int (length (g_SettlementRows g)),
      gr_settlement_amount = numeric (g_SettlementAmt g), gr_status = stored_status g\<rparr>"

definition persist_groups :: "dbms \<Rightarrow> int \<Rightarrow> group list \<Rightarrow> database \<Rightarrow> db_error + int list \<times> database" where
  "persist_groups db run gs d =
     (let new = with_ids (next_group db) (group_row_of run) gs; t = db_groups d @ new
      in checked
           [(NotUnique ''recon_groups_pkey'', distinct (map gr_id t)),
            (NotUnique ''recon_groups_run_id_record_ref_settlement_id_currency_scope_key'',
               distinct (map (\<lambda>g. (gr_run g, gr_ref g, gr_settlement g, gr_currency g, gr_scope g)) t)),
            (BadValue ''recon_groups'', list_all (\<lambda>g. accepts_text db (gr_ref g) \<and>
               accepts_text db (gr_settlement g) \<and> accepts_text db (gr_currency g)) new)]
           (map gr_id new, d\<lparr>db_groups := t\<rparr>))"

definition members_of :: "int \<Rightarrow> (string, int) gomap \<Rightarrow> int \<times> group \<Rightarrow> member_row list" where
  "members_of run rows x =
     map (\<lambda>r. \<lparr>me_run = run, me_group = fst x, me_row = gget 0 rows (rowKey r)\<rparr>)
       (g_PaymentRows (snd x) @ g_SettlementRows (snd x))"

definition persist_members ::
  "int \<Rightarrow> (string, int) gomap \<Rightarrow> int list \<Rightarrow> group list \<Rightarrow> database \<Rightarrow> db_error + database" where
  "persist_members run rows ids gs d =
     (let new = concat (map (members_of run rows) (zip ids gs)); t = db_members d @ new
      in checked
           [(NotUnique ''recon_members_pkey'', distinct (map (\<lambda>m. (me_run m, me_row m)) t)),
            (MissingReference ''recon_members_group_run_fk'', list_all (\<lambda>m.
               list_ex (\<lambda>g. gr_id g = me_group m \<and> gr_run g = me_run m) (db_groups d)) new),
            (MissingReference ''recon_members_source_row_run_fk'', list_all (\<lambda>m.
               list_ex (\<lambda>r. sr_id r = me_row m \<and> sr_run r = me_run m) (db_rows d)) new)]
           (d\<lparr>db_members := t\<rparr>))"

definition persist_issues :: "dbms \<Rightarrow> int \<Rightarrow> string list \<Rightarrow> database \<Rightarrow> db_error + database" where
  "persist_issues db run issues d =
     checked [(BadValue ''run_issues'', list_all (accepts_text db) issues)]
       (d\<lparr>db_issues := db_issues d @ map (Pair run) issues\<rparr>)"

section \<open>The transaction\<close>

definition persist_tables ::
  "dbms \<Rightarrow> int \<Rightarrow> string \<Rightarrow> (string, int) gomap \<Rightarrow> 'i mapped list \<Rightarrow> group list \<Rightarrow> summary \<Rightarrow>
     string list \<Rightarrow> database \<Rightarrow> persist_error + database" where
  "persist_tables db run selected rows all gs s issues d =
     (case map_sum PersistStore id (persist_contributions run d) of Inl e \<Rightarrow> Inl e
      | Inr d \<Rightarrow>
     (case foldE (persist_control db run selected rows) (map m_Row all) d of Inl e \<Rightarrow> Inl e
      | Inr d \<Rightarrow>
     (case foldE (persist_total db run) (total_items s) d of Inl e \<Rightarrow> Inl (PersistStore e)
      | Inr d \<Rightarrow>
     (case persist_groups db run gs d of Inl e \<Rightarrow> Inl (PersistStore e)
      | Inr (ids, d) \<Rightarrow>
     (case persist_members run rows ids gs d of Inl e \<Rightarrow> Inl (PersistStore e)
      | Inr d \<Rightarrow> map_sum PersistStore id (persist_issues db run issues d))))))"

definition persist_tx ::
  "dbms \<Rightarrow> int \<Rightarrow> string \<Rightarrow> int \<Rightarrow> file_info \<Rightarrow> file_info \<Rightarrow> 'i mapped list \<Rightarrow> group list \<Rightarrow> summary \<Rightarrow>
     config_rule list \<Rightarrow> string list \<Rightarrow> database \<Rightarrow> persist_error + database" where
  "persist_tx db run selected config pinfo sinfo all gs s rules issues d =
     (case persist_files db run config pinfo sinfo d of Inl e \<Rightarrow> Inl (PersistStore e)
      | Inr (files, d) \<Rightarrow>
     (case persist_rules db config rules d of Inl e \<Rightarrow> Inl (PersistStore e)
      | Inr (rule_ids, d) \<Rightarrow>
     (case persist_source_rows db run files (map m_Row all) d of Inl e \<Rightarrow> Inl (PersistStore e)
      | Inr (rows, d) \<Rightarrow>
     (case persist_mappings db run config rows rule_ids all d of Inl e \<Rightarrow> Inl e
      | Inr d \<Rightarrow>
     (case persist_tables db run selected rows all gs s issues d of Inl e \<Rightarrow> Inl e
      | Inr d \<Rightarrow> Inr (d\<lparr>db_runs := update_run run reconcile_run (db_runs d)\<rparr>))))))"

text \<open>The texts of the errors are printed by \<open>error_text\<close>.\<close>

definition mark_failed :: "(persist_error \<Rightarrow> string) \<Rightarrow> int \<Rightarrow> persist_error \<Rightarrow> database \<Rightarrow> database" where
  "mark_failed error_text run e d = d\<lparr>db_runs := markRunFailed run (error_text e) (db_runs d)\<rparr>"

definition Persist ::
  "(string \<Rightarrow> string) \<Rightarrow> dbms \<Rightarrow> (persist_error \<Rightarrow> string) \<Rightarrow> commit_outcome \<Rightarrow> commit_outcome \<Rightarrow>
     string \<Rightarrow> string \<Rightarrow> mode \<Rightarrow> int \<Rightarrow> bool \<Rightarrow> file_info \<Rightarrow> file_info \<Rightarrow> 'i mapped list \<Rightarrow> 'i mapped list \<Rightarrow>
     group list \<Rightarrow> summary \<Rightarrow> config_rule list \<Rightarrow> string list \<Rightarrow> database \<Rightarrow>
     database \<times> (persist_error + int)" where
  "Persist sha db error_text c1 c2 name selected m config retry pinfo sinfo payments settlements gs s rules issues d =
     (if config \<le> 0 then (d, Inl NoConfigVersion)
      else case (if m = Strict then strict_gate s gs else None) of Some e \<Rightarrow> (d, Inl e)
      | None \<Rightarrow>
     (case claimRun c1 name (runFingerprint sha pinfo sinfo selected m config rules) selected m config
             retry (db_runs d) of
        (t, Inl e) \<Rightarrow> (d\<lparr>db_runs := t\<rparr>, Inl (PersistClaim e))
      | (t, Inr (run, True)) \<Rightarrow> (d\<lparr>db_runs := t\<rparr>, Inr run)
      | (t, Inr (run, False)) \<Rightarrow>
          let d1 = d\<lparr>db_runs := t\<rparr>
          in case persist_tx db run selected config pinfo sinfo (payments @ settlements) gs s rules issues d1 of
               Inl e \<Rightarrow> (mark_failed error_text run e d1, Inl e)
             | Inr d2 \<Rightarrow>
                 (case c2 of Committed \<Rightarrow> (d2, Inr run)
                  | RolledBack \<Rightarrow> (mark_failed error_text run PersistCommit d1, Inl PersistCommit)
                  | CommittedUnseen \<Rightarrow> (mark_failed error_text run PersistCommit d2, Inl PersistCommit))))"

end
