(* ===== verification/Verify_Run.thy ===== *)
theory Verify_Run
  imports Persist
begin

text \<open>
  \<open>VerifyRun\<close> of \<open>internal/store/verify.go\<close>: the queries over the tables of a run and the checks of
  their results, in order. A query is written out on the rows: \<open>count(*) FILTER\<close> is the length of
  a filtered list, \<open>GROUP BY\<close> with \<open>SUM\<close> is \<open>group_by\<close>, and \<open>FULL OUTER JOIN\<close> is \<open>full_join\<close>. Of an
  error only the error is returned; no caller uses the partial counts.
\<close>

section \<open>Grouping and joining\<close>

definition group_by :: "('a \<Rightarrow> 'k) \<Rightarrow> ('a \<Rightarrow> int) \<Rightarrow> 'a list \<Rightarrow> ('k \<times> int) list" where
  "group_by key amount xs =
     map (\<lambda>k. (k, \<Sum>x\<leftarrow>filter (\<lambda>x. key x = k) xs. amount x)) (remdups (map key xs))"

text \<open>The pairs of amounts of a full outer join, a missing amount coalesced to 0.\<close>

definition full_join :: "('k \<times> int) list \<Rightarrow> ('k \<times> int) list \<Rightarrow> (int \<times> int) list" where
  "full_join xs ys =
     concat (map (\<lambda>x. case filter (\<lambda>y. fst y = fst x) ys of
         [] \<Rightarrow> [(snd x, 0)] | ms \<Rightarrow> map (\<lambda>y. (snd x, snd y)) ms) xs) @
     map (\<lambda>y. (0, snd y)) (filter (\<lambda>y. fst y \<notin> set (map fst xs)) ys)"

definition count_where :: "('a \<Rightarrow> bool) \<Rightarrow> 'a list \<Rightarrow> int" where
  "count_where P xs = int (length (filter P xs))"

definition differences :: "('k \<times> int) list \<Rightarrow> ('k \<times> int) list \<Rightarrow> int" where
  "differences xs ys = count_where (\<lambda>p. fst p \<noteq> snd p) (full_join xs ys)"

section \<open>The queries\<close>

definition rows_of_run :: "int \<Rightarrow> database \<Rightarrow> source_row list" where
  "rows_of_run run d = filter (\<lambda>r. sr_run r = run) (db_rows d)"

definition member_ids :: "int \<Rightarrow> database \<Rightarrow> int list" where
  "member_ids run d = map me_row (filter (\<lambda>m. me_run m = run) (db_members d))"

definition duplicate_members :: "int \<Rightarrow> database \<Rightarrow> int" where
  "duplicate_members run d =
     (let ids = member_ids run d in count_where (\<lambda>i. count_list ids i \<noteq> 1) (remdups ids))"

definition amount_mismatches :: "int \<Rightarrow> database \<Rightarrow> int" where
  "amount_mismatches run d =
     count_where (\<lambda>g. gr_run g = run \<and> gr_status g = StatusReconciled \<and>
       gr_payment_amount g \<noteq> gr_settlement_amount g) (db_groups d)"

definition bucket_sums :: "int \<Rightarrow> string \<Rightarrow> database \<Rightarrow> ((string \<times> string) \<times> int) list" where
  "bucket_sums run src d =
     group_by (\<lambda>p. (rm_ref (fst p), coalesce (rm_target (fst p)))) (\<lambda>p. rm_amount (fst p))
       (filter (\<lambda>p. sr_source (snd p) = src \<and> sr_scope (snd p) = ScopeIn \<and>
          rm_target (fst p) \<noteq> None \<and> rm_target (fst p) \<noteq> Some []) (mapped_rows run d))"

definition bucket_mismatches :: "int \<Rightarrow> database \<Rightarrow> int" where
  "bucket_mismatches run d =
     differences (bucket_sums run ''payment'' d) (bucket_sums run ''settlement'' d)"

definition summary_mismatches :: "int \<Rightarrow> database \<Rightarrow> int" where
  "summary_mismatches run d =
     differences
       (map (\<lambda>t. ((tr_source t, tr_field t), tr_amount t)) (filter (\<lambda>t. tr_run t = run) (db_totals d)))
       (group_by (\<lambda>c. (sc_source c, sc_field c)) sc_amount
         (filter (\<lambda>c. sc_run c = run) (db_contributions d)))"

definition settlement_activity :: "int \<Rightarrow> string \<Rightarrow> database \<Rightarrow> int" where
  "settlement_activity run settlement d =
     (\<Sum>r\<leftarrow>filter (\<lambda>r. sr_source r = ''settlement'' \<and> sr_kind r = RowTransaction \<and>
         sr_scope r = ScopeIn \<and> sr_settlement r = Some settlement) (rows_of_run run d).
       case sr_recon r of None \<Rightarrow> 0 | Some a \<Rightarrow> a)"

definition header_mismatches :: "int \<Rightarrow> string \<Rightarrow> database \<Rightarrow> int" where
  "header_mismatches run selected d =
     (let cs = filter (\<lambda>c. cr_run c = run \<and> cr_settlement c = selected) (db_controls d)
      in count_where (\<lambda>c. cr_total c \<noteq> settlement_activity run (cr_settlement c) d) cs +
         (if length cs = 1 then 0 else 1))"

section \<open>The verification of a run\<close>

record run_verification =
  rv_RunID :: int
  rv_Mode :: mode
  rv_Stage :: stage
  rv_Status :: verification
  rv_SourceRows :: int
  rv_PaymentRows :: int
  rv_SettlementRows :: int
  rv_MetadataRows :: int
  rv_TransactionRows :: int
  rv_MappingRows :: int
  rv_ContributionRows :: int
  rv_GroupRows :: int
  rv_MemberRows :: int
  rv_IssueRows :: int
  rv_UnmatchedRows :: int
  rv_AmountMismatches :: int
  rv_BucketMismatches :: int
  rv_SummaryMismatches :: int
  rv_HeaderMismatches :: int

datatype run_error =
    RunNotFound int
  | DuplicateMembers int
  | RetainedRows int int
  | NotReported stage
  | NotPassed verification
  | PersistedIssues int
  | AmountOrSummary int int
  | BucketDifferences int
  | HeaderDifferences int
  | MemberCount int int

definition run_counts :: "int \<Rightarrow> run_row \<Rightarrow> database \<Rightarrow> run_verification" where
  "run_counts run r d =
     (let rows = rows_of_run run d;
          transactions = count_where (\<lambda>x. sr_kind x = RowTransaction) rows;
          members = int (length (member_ids run d))
      in \<lparr>rv_RunID = run, rv_Mode = run_mode r, rv_Stage = run_stage r, rv_Status = run_status r,
          rv_SourceRows = int (length rows),
          rv_PaymentRows = count_where (\<lambda>x. sr_source x = ''payment'') rows,
          rv_SettlementRows = count_where (\<lambda>x. sr_source x = ''settlement'') rows,
          rv_MetadataRows = count_where (\<lambda>x. sr_kind x = RowMetadata) rows,
          rv_TransactionRows = transactions,
          rv_MappingRows = count_where (\<lambda>m. rm_run m = run) (db_mappings d),
          rv_ContributionRows = count_where (\<lambda>c. sc_run c = run) (db_contributions d),
          rv_GroupRows = count_where (\<lambda>g. gr_run g = run) (db_groups d),
          rv_MemberRows = members,
          rv_IssueRows = count_where (\<lambda>x. fst x = run) (db_issues d),
          rv_UnmatchedRows = (if members \<le> transactions then transactions - members else 0),
          rv_AmountMismatches = amount_mismatches run d,
          rv_BucketMismatches = bucket_mismatches run d,
          rv_SummaryMismatches = summary_mismatches run d,
          rv_HeaderMismatches = header_mismatches run (run_selected r) d\<rparr>)"

definition check_run :: "int \<Rightarrow> run_verification \<Rightarrow> run_error option" where
  "check_run expected v =
     (if 0 < expected \<and> rv_SourceRows v \<noteq> expected
      then Some (RetainedRows (rv_SourceRows v) expected)
      else if rv_Stage v \<noteq> REPORTED then Some (NotReported (rv_Stage v))
      else if rv_Mode v = Strict \<and> rv_Status v \<noteq> PASS then Some (NotPassed (rv_Status v))
      else if rv_Mode v = Strict \<and> rv_IssueRows v \<noteq> 0 then Some (PersistedIssues (rv_IssueRows v))
      else if rv_AmountMismatches v \<noteq> 0 \<or> rv_SummaryMismatches v \<noteq> 0
      then Some (AmountOrSummary (rv_AmountMismatches v) (rv_SummaryMismatches v))
      else if rv_Mode v = Strict \<and> rv_BucketMismatches v \<noteq> 0
      then Some (BucketDifferences (rv_BucketMismatches v))
      else if rv_HeaderMismatches v \<noteq> 0 then Some (HeaderDifferences (rv_HeaderMismatches v))
      else if rv_MemberRows v \<noteq> rv_TransactionRows v
      then Some (MemberCount (rv_MemberRows v) (rv_TransactionRows v))
      else None)"

definition VerifyRun :: "database \<Rightarrow> int \<Rightarrow> int \<Rightarrow> run_error + run_verification" where
  "VerifyRun d run expected =
     (case find (\<lambda>r. run_id r = run) (rt_rows (db_runs d)) of None \<Rightarrow> Inl (RunNotFound run)
      | Some r \<Rightarrow>
          if duplicate_members run d \<noteq> 0 then Inl (DuplicateMembers (duplicate_members run d))
          else let v = run_counts run r d
               in case check_run expected v of Some e \<Rightarrow> Inl e | None \<Rightarrow> Inr v)"

section \<open>Explaining a figure\<close>

text \<open>
  \<open>Explain\<close> of \<open>internal/store/explain.go\<close>: the mappings of a run with their rows and rules; a
  filter applies when its argument is given.
\<close>

record explain_row =
  ex_Source :: string
  ex_PhysicalLine :: int
  ex_Ordinal :: int
  ex_Scope :: scope_reason
  ex_SettlementID :: string
  ex_Currency :: string
  ex_RecordRef :: string
  ex_AmountField :: string
  ex_Amount :: int
  ex_Target :: string
  ex_Decision :: decision
  ex_RuleFile :: string
  ex_RuleLine :: int

definition explain_matches :: "string \<Rightarrow> string \<Rightarrow> int \<Rightarrow> mapping_row \<times> source_row \<Rightarrow> bool" where
  "explain_matches recordRef field physicalLine p \<longleftrightarrow>
     (recordRef = [] \<or> rm_ref (fst p) = recordRef) \<and>
     (field = [] \<or> rm_target (fst p) = Some field) \<and>
     (physicalLine \<le> 0 \<or> sr_line_start (snd p) = physicalLine)"

definition explain_line :: "(mapping_row \<times> source_row) \<times> mapping_rule \<Rightarrow> explain_row" where
  "explain_line x =
     (case x of ((m, r), u) \<Rightarrow>
      \<lparr>ex_Source = sr_source r, ex_PhysicalLine = sr_line_start r, ex_Ordinal = sr_ordinal r,
       ex_Scope = sr_scope r, ex_SettlementID = coalesce (sr_settlement r),
       ex_Currency = coalesce (sr_currency r), ex_RecordRef = rm_ref m, ex_AmountField = rm_field m,
       ex_Amount = rm_amount m, ex_Target = coalesce (rm_target m), ex_Decision = rm_decision m,
       ex_RuleFile = mr_file u, ex_RuleLine = mr_line u\<rparr>)"

definition explainLess ::
  "(mapping_row \<times> source_row) \<times> mapping_rule \<Rightarrow> (mapping_row \<times> source_row) \<times> mapping_rule \<Rightarrow> bool" where
  "explainLess x y =
     (case (x, y) of (((m, r), _), ((n, s), _)) \<Rightarrow>
        if sr_source r \<noteq> sr_source s then sr_source r < sr_source s
        else if sr_line_start r \<noteq> sr_line_start s then sr_line_start r < sr_line_start s
        else rm_id m < rm_id n)"

definition Explain :: "database \<Rightarrow> int \<Rightarrow> string \<Rightarrow> string \<Rightarrow> int \<Rightarrow> explain_row list" where
  "Explain d run recordRef field physicalLine =
     map explain_line (sort_by explainLess
       (concat (map (\<lambda>p. map (Pair p) (filter (\<lambda>u. mr_id u = rm_rule (fst p)) (cat_rules (db_catalog d))))
         (filter (explain_matches recordRef field physicalLine) (mapped_rows run d)))))"

end
