(* ===== verification/Persist_Props.thy ===== *)
theory Persist_Props
  imports Config_Store_Props Verify_Run Summary_Props Group_Props
begin

text \<open>
  What a transaction of \<open>Persist\<close> leaves in the tables, in terms of the rows, contributions, groups
  and buckets it was given.
\<close>

section \<open>Amounts and ids\<close>

lemma numeric_sint [simp]: "numeric a = sint a"
proof -
  let ?n = "nat \<bar>sint a\<bar>"
  have "?n mod 100 < 100" by simp
  from decimal_cents_format(3,4)[OF this, of "?n div 100"] show ?thesis
    unfolding numeric_def FormatCents_eq by (auto simp: Let_def simp flip: of_nat_mult of_nat_add)
qed

lemma nullable_Some [simp]: "nullable s = Some t \<longleftrightarrow> t = s \<and> TrimSpace s \<noteq> []"
  by (auto simp: nullable_def)

lemma nullable_None [simp]: "nullable s = None \<longleftrightarrow> TrimSpace s = []"
  by (simp add: nullable_def)

lemma with_ids_length [simp]: "length (with_ids ids f xs) = length xs"
  by (simp add: with_ids_def)

lemma map_with_ids:
  assumes "\<And>i x. g (f i x) = h x"
  shows "map g (with_ids ids f xs) = map h xs"
proof -
  have "map g (with_ids ids f xs) = map (h \<circ> snd) (enumerate 0 xs)"
    using assms by (simp add: with_ids_def case_prod_beta comp_def)
  also have "\<dots> = map h xs" by (simp flip: map_map)
  finally show ?thesis .
qed

lemma set_with_ids: "y \<in> set (with_ids ids f xs) \<Longrightarrow> \<exists>i x. x \<in> set xs \<and> y = f i x"
  by (auto simp: with_ids_def enumerate_eq_zip dest: set_zip_rightD)

lemma fold_gput_distinct:
  assumes "distinct (map k xs)" and "x \<in> set xs"
  shows "gget z (fold (\<lambda>x. gput (k x) (v x)) xs m) (k x) = v x"
proof -
  have other: "gget z (fold (\<lambda>x. gput (k x) (v x)) xs m) j = gget z m j" if "j \<notin> k ` set xs" for xs m j
    using that by (induction xs arbitrary: m) auto
  from assms show ?thesis by (induction xs arbitrary: m) (auto simp: other)
qed

lemma map_enumerate_nth: "map f (enumerate 0 xs) = map (\<lambda>k. f (k, xs ! k)) [0..<length xs]"
  by (auto simp: enumerate_eq_zip intro!: nth_equalityI)

lemma map_sum_Inr_iff [result_simps]: "map_sum f id r = Inr y \<longleftrightarrow> r = Inr y"
  by (cases r) simp_all

section \<open>Stored rows\<close>

definition row_key :: "source_row \<Rightarrow> string" where
  "row_key x = sr_source x @ ''|'' @ dec_int (sr_ordinal x)"

text \<open>
  What the table of source rows holds for a row: its own id, the id of its file, and every field of
  the row, a blank text as a null and the amount as the exact cents when there is one.
\<close>

definition stored_row :: "int \<Rightarrow> (source, int) gomap \<Rightarrow> (string, int) gomap \<Rightarrow> raw_row \<Rightarrow> source_row" where
  "stored_row run files keys r =
     \<lparr>sr_id = gget 0 keys (rowKey r), sr_run = run, sr_file = gget 0 files (row_Source r),
      sr_source = source_string (row_Source r), sr_kind = row_Kind r, sr_ordinal = row_Ordinal r,
      sr_line_start = row_LineStart r, sr_line_end = row_LineEnd r,
      sr_byte_start = row_ByteStart r, sr_byte_end = row_ByteEnd r,
      sr_settlement = nullable (row_SettlementID r), sr_currency = nullable (row_Currency r),
      sr_type = nullable (row_Transaction r), sr_description = nullable (row_Description r),
      sr_amount_type = nullable (row_AmountType r),
      sr_amount_description = nullable (row_AmountDesc r), sr_sku = nullable (row_SKU r),
      sr_txn_ref = nullable (row_TxnRef r), sr_posted = row_PostedAt r, sr_release = row_ReleaseAt r,
      sr_key_date = (if row_KeyDate r = [] then None else Some (row_KeyDate r)),
      sr_status = nullable (row_Status r),
      sr_recon = (if row_HasRecon r then Some (sint (row_ReconAmount r)) else None),
      sr_event = nullable (row_EventClass r), sr_scope = row_Scope r\<rparr>"

lemma stored_row_stage: "stored_row run files keys r = (stage_row run files r)\<lparr>sr_id := gget 0 keys (rowKey r)\<rparr>"
  by (simp add: stored_row_def stage_row_def)

lemma stored_row_simps [simp]:
  "sr_id (stored_row run files keys r) = gget 0 keys (rowKey r)"
  "sr_run (stored_row run files keys r) = run"
  "sr_source (stored_row run files keys r) = source_string (row_Source r)"
  "sr_kind (stored_row run files keys r) = row_Kind r"
  "sr_ordinal (stored_row run files keys r) = row_Ordinal r"
  "sr_settlement (stored_row run files keys r) = nullable (row_SettlementID r)"
  "sr_recon (stored_row run files keys r) = (if row_HasRecon r then Some (sint (row_ReconAmount r)) else None)"
  "sr_scope (stored_row run files keys r) = row_Scope r"
  by (simp_all add: stored_row_def)

lemma row_key_inject:
  assumes "sr_source x \<in> {''payment'', ''settlement''}" "sr_source y \<in> {''payment'', ''settlement''}"
  shows "row_key x = row_key y \<longleftrightarrow> sr_source x = sr_source y \<and> sr_ordinal x = sr_ordinal y"
  using assms by (auto simp: row_key_def)

lemma persist_source_rows_Inr:
  assumes "persist_source_rows db run files all d = Inr (keys, d')"
    and "\<forall>r \<in> set all. row_Source r \<in> {SourcePayment, SourceSettlement}"
  obtains rows where "d' = d\<lparr>db_rows := db_rows d @ rows\<rparr>"
    "mset rows = mset (map (stored_row run files keys) all)"
    "distinct (map sr_id (db_rows d @ rows))" "list_all (\<lambda>x. sr_run x = run) rows"
proof -
  let ?sorted = "sort_by stageLess (map (stage_row run files) all)"
  let ?rows = "with_ids (next_row db) (\<lambda>i r. r\<lparr>sr_id := i\<rparr>) ?sorted"
  from assms(1) have d': "d' = d\<lparr>db_rows := db_rows d @ ?rows\<rparr>" and keys: "keys = row_keys ?rows"
    and pk: "distinct (map sr_id (db_rows d @ ?rows))"
    and uq: "distinct (map (\<lambda>r. (sr_run r, sr_file r, sr_ordinal r)) (db_rows d @ ?rows))"
    by (simp_all add: persist_source_rows_def Let_def result_simps)
  have stage: "\<exists>i r. r \<in> set all \<and> x = (stage_row run files r)\<lparr>sr_id := i\<rparr>" if "x \<in> set ?rows" for x
    using set_with_ids[OF that] by auto
  have src: "sr_source x \<in> {''payment'', ''settlement''} \<and>
      sr_file x = gget 0 files (if sr_source x = ''payment'' then SourcePayment else SourceSettlement) \<and>
      sr_run x = run" if "x \<in> set ?rows" for x
    using stage[OF that] assms(2) by (auto simp: stage_row_def)
  have "distinct (map row_key ?rows)"
  proof -
    have d1: "distinct ?rows" and inj: "inj_on (\<lambda>r. (sr_run r, sr_file r, sr_ordinal r)) (set ?rows)"
      using uq by (auto simp: distinct_map)
    have "inj_on row_key (set ?rows)"
    proof (rule inj_onI)
      fix x y assume x: "x \<in> set ?rows" and y: "y \<in> set ?rows" and "row_key x = row_key y"
      then have "sr_source x = sr_source y" "sr_ordinal x = sr_ordinal y"
        using row_key_inject[of x y] src by blast+
      with src[OF x] src[OF y] have "(sr_run x, sr_file x, sr_ordinal x) = (sr_run y, sr_file y, sr_ordinal y)"
        by simp
      with inj x y show "x = y" by (blast dest: inj_onD)
    qed
    with d1 show ?thesis by (simp add: distinct_map)
  qed
  then have key: "gget 0 keys (row_key x) = sr_id x" if "x \<in> set ?rows" for x
    using fold_gput_distinct[of row_key ?rows x 0 sr_id "[]"] that
    by (simp add: keys row_keys_def row_key_def)
  let ?g = "\<lambda>s. s\<lparr>sr_id := gget 0 keys (row_key s)\<rparr>"
  have ids: "map (\<lambda>x. x\<lparr>sr_id := 0\<rparr>) ?rows = map (\<lambda>x. x\<lparr>sr_id := 0\<rparr>) ?sorted"
    by (rule map_with_ids) simp
  have "x = ?g (x\<lparr>sr_id := 0\<rparr>)" if "x \<in> set ?rows" for x
    using key[OF that] by (simp add: row_key_def)
  then have "map ?g (map (\<lambda>x. x\<lparr>sr_id := 0\<rparr>) ?rows) = ?rows"
    unfolding map_map by (intro map_idI) (simp only: comp_apply)
  then have "?rows = map ?g (map (\<lambda>x. x\<lparr>sr_id := 0\<rparr>) ?sorted)"
    unfolding ids by (rule sym)
  then have "mset ?rows = mset (map ?g (map (\<lambda>x. x\<lparr>sr_id := 0\<rparr>) ?sorted))"
    by (rule arg_cong)
  also have "\<dots> = mset (map (?g \<circ> (\<lambda>x. x\<lparr>sr_id := 0\<rparr>)) (map (stage_row run files) all))"
    by (simp only: map_map mset_map mset_sort_by multiset.map_comp comp_assoc)
  also have "\<dots> = mset (map (stored_row run files keys) all)"
    by (intro arg_cong[where f = mset])
      (simp add: stored_row_stage row_key_def rowKey_def stage_row_def)
  finally have "mset ?rows = mset (map (stored_row run files keys) all)" .
  moreover have "list_all (\<lambda>x. sr_run x = run) ?rows" using src by (simp add: list_all_iff)
  ultimately show thesis using that d' pk by blast
qed

section \<open>Stored mappings\<close>

lemma filter_key: "distinct (map f xs) \<Longrightarrow> x \<in> set xs \<Longrightarrow> filter (\<lambda>y. f y = f x) xs = [x]"
  by (induction xs) (auto simp: image_iff filter_empty_conv)

lemma length_1_conv: "length xs = 1 \<longleftrightarrow> (\<exists>x. xs = [x])"
  by (cases xs) auto

text \<open>What the queries read of a mapping joined with its row, and of a contribution with its row.\<close>

definition pair_view :: "mapping_row \<times> source_row \<Rightarrow> string \<times> scope_reason \<times> string \<times> string option \<times> int" where
  "pair_view p =
     (sr_source (snd p), sr_scope (snd p), rm_ref (fst p), rm_target (fst p), rm_amount (fst p))"

definition contribution_view ::
  "raw_row \<times> contribution \<Rightarrow> string \<times> scope_reason \<times> string \<times> string option \<times> int" where
  "contribution_view p =
     (source_string (row_Source (fst p)), row_Scope (fst p), con_Key (snd p),
      nullable (con_Target (snd p)), sint (con_Amount (snd p)))"

lemma mapped_rows_cong:
  "db_rows d = db_rows d' \<Longrightarrow> db_mappings d = db_mappings d' \<Longrightarrow> mapped_rows run d = mapped_rows run d'"
  by (simp add: mapped_rows_def)

text \<open>What the table of mappings holds for a contribution to a row, apart from the id.\<close>

definition key_of_rule :: "mapping_rule \<Rightarrow> string" where
  "key_of_rule x = mr_source x @ ''|'' @ mr_file x @ ''|'' @ dec_int (mr_line x)"

definition mapping_stored ::
  "int \<Rightarrow> int \<Rightarrow> (string, int) gomap \<Rightarrow> mapping_rule list \<Rightarrow> raw_row \<times> contribution \<Rightarrow> mapping_row \<Rightarrow> bool" where
  "mapping_stored run config keys rules p m \<longleftrightarrow>
     rm_run m = run \<and> rm_row m = gget 0 keys (rowKey (fst p)) \<and>
     list_ex (\<lambda>x. mr_id x = rm_rule m \<and> mr_config x = config \<and>
       key_of_rule x = source_string (rule_Source (con_Rule (snd p))) @ ''|'' @
         rule_OriginFile (con_Rule (snd p)) @ ''|'' @ dec_int (rule_OriginLine (con_Rule (snd p)))) rules \<and>
     rm_field m = con_Field (snd p) \<and> rm_amount m = sint (con_Amount (snd p)) \<and>
     rm_target m = nullable (con_Target (snd p)) \<and> rm_decision m = con_Decision (snd p) \<and>
     rm_ref m = con_Key (snd p)"

text \<open>The ids the program has found or made for the rules.\<close>

definition rule_ids_ok :: "int \<Rightarrow> (string, int) gomap \<Rightarrow> mapping_rule list \<Rightarrow> bool" where
  "rule_ids_ok config ids rules \<longleftrightarrow>
     (\<forall>k i. map_of ids k = Some i \<longrightarrow>
        (\<exists>x \<in> set rules. mr_id x = i \<and> mr_config x = config \<and> key_of_rule x = k))"

lemma same_place_key: "same_place config r m \<Longrightarrow> mr_config m = config \<and> key_of_rule m = ruleKey r"
  by (simp add: same_place_def key_of_rule_def ruleKey_def)

lemma rule_id_of_ok:
  assumes "rule_id_of db config item (ids, c) = Inr (ids', c')" and "rule_ids_ok config ids (cat_rules c)"
  shows "rule_ids_ok config ids' (cat_rules c') \<and> cat_files c' = cat_files c \<and>
    cat_config_files c' = cat_config_files c"
proof -
  obtain k r where item: "item = (k, r)" by force
  show ?thesis
  proof (cases "find (same_place config r) (cat_rules c)")
    case (Some m)
    then have m: "m \<in> set (cat_rules c)" "same_place config r m" by (auto simp: find_Some_iff)
    have "ids' = gput (ruleKey r) (mr_id m) ids" "c' = c"
      using assms(1) Some by (simp_all add: rule_id_of_def item)
    then show ?thesis
      using assms(2) m(1) same_place_key[OF m(2)] by (auto simp: rule_ids_ok_def update_conv')
  next
    case None
    with assms(1) have ins: "insert_rule db config (k, r) c = Inr c'"
      and ids': "ids' = gput (ruleKey r) (next_rule db k) ids"
      by (auto simp: rule_id_of_def item result_simps)
    let ?m = "stored_rule (next_rule db k) config r"
    have c': "c' = c\<lparr>cat_rules := cat_rules c @ [?m]\<rparr>" using insert_rule_Inr[OF ins] by blast
    have "same_place config r ?m" by (simp add: same_place_def stored_rule_def)
    from same_place_key[OF this] show ?thesis
      using assms(2) by (auto simp: rule_ids_ok_def update_conv' ids' c' stored_rule_def)
  qed
qed

lemma rule_ids_fold:
  "foldE (rule_id_of db config) items st = Inr st' \<Longrightarrow> rule_ids_ok config (fst st) (cat_rules (snd st)) \<Longrightarrow>
     rule_ids_ok config (fst st') (cat_rules (snd st')) \<and> cat_files (snd st') = cat_files (snd st) \<and>
     cat_config_files (snd st') = cat_config_files (snd st)"
proof (induction items arbitrary: st)
  case Nil
  then show ?case by simp
next
  case (Cons x items)
  then obtain u where u: "rule_id_of db config x (fst st, snd st) = Inr (fst u, snd u)"
    "foldE (rule_id_of db config) items u = Inr st'"
    by (auto simp: result_simps)
  from rule_id_of_ok[OF u(1) Cons.prems(2)] Cons.IH[OF u(2)] show ?case by simp
qed

lemma persist_rules_Inr:
  assumes "persist_rules db config rules d = Inr (ids, d')"
  shows "\<exists>c. d' = d\<lparr>db_catalog := c\<rparr> \<and> rule_ids_ok config ids (cat_rules c) \<and>
    cat_files c = cat_files (db_catalog d) \<and> cat_config_files c = cat_config_files (db_catalog d)"
proof -
  from assms obtain c where f: "foldE (rule_id_of db config) (enumerate 0 rules) ([], db_catalog d) = Inr (ids, c)"
    and d': "d' = d\<lparr>db_catalog := c\<rparr>"
    by (auto simp: persist_rules_def result_simps)
  have "rule_ids_ok config [] (cat_rules (db_catalog d))" by (simp add: rule_ids_ok_def)
  with rule_ids_fold[OF f] d' show ?thesis by auto
qed

lemma mapping_of_stored:
  assumes "mapping_of run keys ids p = Inr m" and "rule_ids_ok config ids rules"
  shows "mapping_stored run config keys rules p (m\<lparr>rm_id := i\<rparr>)"
proof -
  obtain r c where p: "p = (r, c)" by force
  from assms(1) have id: "gget 0 ids (ruleKey (con_Rule c)) \<noteq> 0"
    and m: "m = \<lparr>rm_id = 0, rm_run = run, rm_row = gget 0 keys (rowKey r),
       rm_rule = gget 0 ids (ruleKey (con_Rule c)), rm_field = con_Field c, rm_amount = sint (con_Amount c),
       rm_target = nullable (con_Target c), rm_decision = con_Decision c, rm_ref = con_Key c\<rparr>"
    by (auto simp: mapping_of_def p Let_def split: if_splits)
  from id obtain k where "map_of ids (ruleKey (con_Rule c)) = Some k" "rm_rule m = k"
    by (auto simp: m gget_def split: option.splits)
  with assms(2) obtain x where x: "x \<in> set rules" "mr_id x = rm_rule m"
    "mr_config x = config" "key_of_rule x = ruleKey (con_Rule c)"
    unfolding rule_ids_ok_def by blast
  then have "list_ex (\<lambda>x. mr_id x = rm_rule m \<and> mr_config x = config \<and>
      key_of_rule x = ruleKey (con_Rule c)) rules"
    by (auto simp: list_ex_iff)
  then show ?thesis by (simp add: mapping_stored_def p m ruleKey_def)
qed

lemma list_all2_with_ids:
  assumes "list_all2 P xs ys" and "\<And>x y i. P x y \<Longrightarrow> Q x (f i y)"
  shows "list_all2 Q xs (with_ids ids f ys)"
  using assms by (auto simp: list_all2_conv_all_nth with_ids_def nth_enumerate_eq)

lemma concat_map_single: "(\<And>x. x \<in> set xs \<Longrightarrow> f x = [g x]) \<Longrightarrow> concat (map f xs) = map g xs"
  by (induction xs) simp_all

text \<open>The mappings that are posted to the summary, each with its contribution.\<close>

definition posted :: "raw_row \<times> contribution \<Rightarrow> bool" where
  "posted p \<longleftrightarrow> row_Scope (fst p) = ScopeIn \<and> TrimSpace (con_Target (snd p)) \<noteq> [] \<and> con_Amount (snd p) \<noteq> 0"

lemma persist_mappings_Inr:
  assumes "persist_mappings db run config keys ids all d = Inr d'"
    and "distinct (map sr_id (db_rows d))"
    and "\<forall>m \<in> set all. stored_row run files keys (m_Row m) \<in> set (db_rows d)"
    and "list_all (\<lambda>m. rm_run m \<noteq> run) (db_mappings d)"
    and "rule_ids_ok config ids rules"
  obtains new where "d' = d\<lparr>db_mappings := db_mappings d @ new\<rparr>"
    "distinct (map rm_id (db_mappings d @ new))" "list_all (\<lambda>m. rm_run m = run) new"
    "list_all2 (mapping_stored run config keys rules) (row_contributions all) new"
    "mapped_rows run d' = zip new (map (stored_row run files keys \<circ> fst) (row_contributions all))"
proof -
  let ?rows = "\<lambda>m. filter (\<lambda>r. sr_id r = rm_row m) (db_rows d)"
  let ?cs = "row_contributions all"
  from assms(1) obtain ms where ms: "mapE (mapping_of run keys ids) ?cs = Inr ms"
    and d': "d' = d\<lparr>db_mappings := db_mappings d @ with_ids (next_mapping db) (\<lambda>i m. m\<lparr>rm_id := i\<rparr>) ms\<rparr>"
    and pk: "distinct (map rm_id (db_mappings d @ with_ids (next_mapping db) (\<lambda>i m. m\<lparr>rm_id := i\<rparr>) ms))"
    by (auto simp: persist_mappings_def Let_def result_simps simp del: map_append distinct_append)
  let ?new = "with_ids (next_mapping db) (\<lambda>i m. m\<lparr>rm_id := i\<rparr>) ms"
  have new: "list_all2 (mapping_stored run config keys rules) ?cs ?new"
    by (rule list_all2_with_ids[where P = "\<lambda>p m. mapping_of run keys ids p = Inr m"])
      (use ms[unfolded mapE_Inr_iff] mapping_of_stored[OF _ assms(5)] in auto)
  have run: "rm_run m = run" if "m \<in> set ?new" for m
  proof -
    from that obtain k where "k < length ?new" "m = ?new ! k" by (metis in_set_conv_nth)
    with list_all2_nthD2[OF new] show ?thesis by (simp add: mapping_stored_def)
  qed
  have rows: "?rows (?new ! k) = [stored_row run files keys (fst (?cs ! k))]" if k: "k < length ?new" for k
  proof -
    have "k < length ?cs" using k list_all2_lengthD[OF new] by simp
    then have "?cs ! k \<in> set ?cs" by simp
    then have "stored_row run files keys (fst (?cs ! k)) \<in> set (db_rows d)"
      using assms(3) by (auto simp: row_contributions_def)
    moreover have row: "rm_row (?new ! k) = sr_id (stored_row run files keys (fst (?cs ! k)))"
      using list_all2_nthD2[OF new k] by (simp add: mapping_stored_def)
    ultimately show ?thesis unfolding row by (intro filter_key[OF assms(2)])
  qed
  have "filter (\<lambda>m. rm_run m = run) (db_mappings d) = []"
    using assms(4) by (simp add: filter_empty_conv list_all_iff)
  moreover have "filter (\<lambda>m. rm_run m = run) ?new = ?new"
    using run by (simp add: filter_id_conv)
  ultimately have "mapped_rows run d' = concat (map (\<lambda>m. map (Pair m) (?rows m)) ?new)"
    by (simp add: mapped_rows_def d')
  also have "map (\<lambda>m. map (Pair m) (?rows m)) ?new =
      map (\<lambda>k. [(?new ! k, stored_row run files keys (fst (?cs ! k)))]) [0..<length ?new]"
    using rows by (auto intro!: nth_equalityI)
  also have "concat \<dots> = map (\<lambda>k. (?new ! k, stored_row run files keys (fst (?cs ! k)))) [0..<length ?new]"
    by (rule concat_map_single) simp
  also have "\<dots> = zip ?new (map (stored_row run files keys \<circ> fst) ?cs)"
    using list_all2_lengthD[OF new] by (auto intro!: nth_equalityI)
  finally have mapped: "mapped_rows run d' = zip ?new (map (stored_row run files keys \<circ> fst) ?cs)" .
  have "list_all (\<lambda>m. rm_run m = run) ?new" using run by (simp add: list_all_iff)
  with that[OF d' pk _ new mapped] show thesis by blast
qed

text \<open>What follows for the joins: the views the queries read, and the posted contributions.\<close>

lemma zip_stored:
  assumes "list_all2 (mapping_stored run config keys rules) cs new"
  shows "map pair_view (zip new (map (stored_row run files keys \<circ> fst) cs)) = map contribution_view cs"
    and "map fst (zip new (map (stored_row run files keys \<circ> fst) cs)) = new"
    and "filter in_summary (zip new (map (stored_row run files keys \<circ> fst) cs)) =
      map (\<lambda>(p, m). (m, stored_row run files keys (fst p))) (filter (posted \<circ> fst) (zip cs new))"
  using assms
proof (induction rule: list_all2_induct)
  case (Cons p cs m new)
  have "nullable (con_Target (snd p)) \<noteq> Some []" by (auto simp: nullable_def)
  moreover have "sint (con_Amount (snd p)) = 0 \<longleftrightarrow> con_Amount (snd p) = 0"
    using sint_eqD[of "con_Amount (snd p)" 0] by auto
  ultimately have "in_summary (m, stored_row run files keys (fst p)) \<longleftrightarrow> posted p"
    using Cons(1) by (auto simp: in_summary_def posted_def mapping_stored_def)
  moreover have "pair_view (m, stored_row run files keys (fst p)) = contribution_view p"
    using Cons(1) by (simp add: pair_view_def contribution_view_def mapping_stored_def)
  ultimately show "map pair_view (zip (m # new) (map (stored_row run files keys \<circ> fst) (p # cs))) =
      map contribution_view (p # cs)"
    and "map fst (zip (m # new) (map (stored_row run files keys \<circ> fst) (p # cs))) = m # new"
    and "filter in_summary (zip (m # new) (map (stored_row run files keys \<circ> fst) (p # cs))) =
      map (\<lambda>(p, m). (m, stored_row run files keys (fst p))) (filter (posted \<circ> fst) (zip (p # cs) (m # new)))"
    using Cons(3-) by (simp_all add: o_def)
qed simp_all

section \<open>The other tables\<close>

lemma fold_insert_contribution:
  assumes "distinct (map (\<lambda>x. (sc_run x, sc_mapping x)) xs)"
    and "\<forall>x \<in> set xs. \<forall>y \<in> set t. (sc_run y, sc_mapping y) \<noteq> (sc_run x, sc_mapping x)"
  shows "fold insert_contribution xs t = t @ xs"
  using assms
proof (induction xs arbitrary: t)
  case Nil
  then show ?case by simp
next
  case (Cons x xs)
  then have "insert_contribution x t = t @ [x]"
    by (auto simp: insert_contribution_def list_ex_iff)
  moreover have "fold insert_contribution xs (t @ [x]) = (t @ [x]) @ xs"
    by (rule Cons.IH) (use Cons.prems in \<open>auto simp: image_iff\<close>)
  ultimately show ?case by simp
qed

lemma persist_contributions_Inr:
  assumes "persist_contributions run d = Inr d'"
    and "list_all (\<lambda>c. sc_run c \<noteq> run) (db_contributions d)"
    and "distinct (map (rm_id \<circ> fst) (mapped_rows run d))"
  shows "d' = d\<lparr>db_contributions := db_contributions d @
    map contribution_of (filter in_summary (mapped_rows run d))\<rparr>"
proof -
  let ?ps = "filter in_summary (mapped_rows run d)"
  have run: "rm_run (fst p) = run" if "p \<in> set (mapped_rows run d)" for p
    using that by (auto simp: mapped_rows_def)
  have "distinct (map (rm_id \<circ> fst) ?ps)" using assms(3) by (rule distinct_map_filter)
  then have "distinct (map (\<lambda>p. (rm_run (fst p), rm_id (fst p))) ?ps)"
    by (auto simp: distinct_map inj_on_def)
  then have "distinct (map (\<lambda>x. (sc_run x, sc_mapping x)) (map contribution_of ?ps))"
    by (simp add: contribution_of_def comp_def)
  moreover have "\<forall>x \<in> set (map contribution_of ?ps). \<forall>y \<in> set (db_contributions d).
      (sc_run y, sc_mapping y) \<noteq> (sc_run x, sc_mapping x)"
    using assms(2) run by (auto simp: contribution_of_def list_all_iff)
  ultimately have "fold insert_contribution (map contribution_of ?ps) (db_contributions d) =
      db_contributions d @ map contribution_of ?ps"
    by (rule fold_insert_contribution)
  with assms(1) show ?thesis by (simp add: persist_contributions_def Let_def result_simps)
qed

definition is_control :: "string \<Rightarrow> raw_row \<Rightarrow> bool" where
  "is_control selected r \<longleftrightarrow>
     row_Source r = SourceSettlement \<and> row_Kind r = RowMetadata \<and> row_SettlementID r = selected"

definition control_of :: "int \<Rightarrow> (string, int) gomap \<Rightarrow> raw_row \<Rightarrow> control_row" where
  "control_of run keys r =
     \<lparr>cr_run = run, cr_settlement = row_SettlementID r, cr_row = gget 0 keys (rowKey r),
      cr_currency = row_Currency r, cr_total = sint (row_ReconAmount r)\<rparr>"

lemma persist_control_Inr:
  "persist_control db run selected keys r d = Inr d' \<Longrightarrow>
     d' = d\<lparr>db_controls := db_controls d @ (if is_control selected r then [control_of run keys r] else [])\<rparr>"
  by (auto simp: persist_control_def insert_control_def is_control_def control_of_def Let_def result_simps
      split: if_splits)

lemma persist_controls_Inr:
  "foldE (persist_control db run selected keys) rows d = Inr d' \<Longrightarrow>
     d' = d\<lparr>db_controls := db_controls d @ map (control_of run keys) (filter (is_control selected) rows)\<rparr>"
proof (induction rows arbitrary: d)
  case Nil
  then show ?case by simp
next
  case (Cons r rows)
  then obtain u where "persist_control db run selected keys r d = Inr u"
    "foldE (persist_control db run selected keys) rows u = Inr d'"
    by (auto simp: result_simps)
  with persist_control_Inr[of db run selected keys r d u] Cons.IH[of u] show ?case by simp
qed

definition total_of :: "int \<Rightarrow> database \<Rightarrow> (string \<times> (source, int64) gomap) \<times> source \<Rightarrow> total_row" where
  "total_of run d x =
     \<lparr>tr_run = run, tr_source = source_string (snd x), tr_field = fst (fst x),
      tr_amount = sint (gget 0 (snd (fst x)) (snd x)),
      tr_count = count_mappings run (source_string (snd x)) (fst (fst x)) d\<rparr>"

lemma total_of_cong [simp]: "total_of run (d\<lparr>db_totals := t\<rparr>) = total_of run d"
  by (simp add: total_of_def fun_eq_iff count_mappings_def mapped_rows_def)

lemma persist_totals_Inr:
  "foldE (persist_total db run) items d = Inr d' \<Longrightarrow>
     d' = d\<lparr>db_totals := db_totals d @ map (total_of run d) items\<rparr>"
proof (induction items arbitrary: d)
  case Nil
  then show ?case by simp
next
  case (Cons x items)
  then obtain u where u: "persist_total db run x d = Inr u" "foldE (persist_total db run) items u = Inr d'"
    by (auto simp: result_simps)
  from u(1) have "u = d\<lparr>db_totals := db_totals d @ [total_of run d x]\<rparr>"
    by (auto simp: persist_total_def total_of_def Let_def result_simps split: prod.splits)
  with Cons.IH[OF u(2)] show ?case by simp
qed

lemma persist_groups_Inr:
  assumes "persist_groups db run gs d = Inr (ids, d')"
  shows "d' = d\<lparr>db_groups := db_groups d @ with_ids (next_group db) (group_row_of run) gs\<rparr> \<and>
    ids = map gr_id (with_ids (next_group db) (group_row_of run) gs) \<and>
    distinct (map gr_id (db_groups d'))"
  using assms by (simp add: persist_groups_def Let_def result_simps)

lemma persist_members_Inr:
  assumes "persist_members run keys ids gs d = Inr d'"
  shows "d' = d\<lparr>db_members := db_members d @ concat (map (members_of run keys) (zip ids gs))\<rparr> \<and>
    distinct (map (\<lambda>m. (me_run m, me_row m)) (db_members d'))"
  using assms by (simp add: persist_members_def Let_def result_simps)

section \<open>The transaction\<close>

text \<open>No table holds anything of a run.\<close>

definition no_rows :: "int \<Rightarrow> database \<Rightarrow> bool" where
  "no_rows run d \<longleftrightarrow>
     list_all (\<lambda>x. rf_run x \<noteq> run) (db_run_files d) \<and>
     list_all (\<lambda>x. sr_run x \<noteq> run) (db_rows d) \<and> list_all (\<lambda>x. rm_run x \<noteq> run) (db_mappings d) \<and>
     list_all (\<lambda>x. sc_run x \<noteq> run) (db_contributions d) \<and>
     list_all (\<lambda>x. cr_run x \<noteq> run) (db_controls d) \<and> list_all (\<lambda>x. tr_run x \<noteq> run) (db_totals d) \<and>
     list_all (\<lambda>x. gr_run x \<noteq> run) (db_groups d) \<and> list_all (\<lambda>x. me_run x \<noteq> run) (db_members d) \<and>
     list_all (\<lambda>x. fst x \<noteq> run) (db_issues d)"

text \<open>
  What the tables hold of a run after its transaction, table by table, in terms of what \<open>Persist\<close>
  was given. The files: a row for each of the two input files, which is in the table of files with
  its kind and hash, and one for each file of the configuration.
\<close>

definition file_stored :: "string \<Rightarrow> file_info \<Rightarrow> int \<Rightarrow> catalog \<Rightarrow> bool" where
  "file_stored kind info i c \<longleftrightarrow>
     list_ex (\<lambda>x. sf_id x = i \<and> sf_kind x = kind \<and> sf_sha x = info_SHA256 info) (cat_files c)"

definition files_stored ::
  "int \<Rightarrow> int \<Rightarrow> file_info \<Rightarrow> file_info \<Rightarrow> int \<Rightarrow> int \<Rightarrow> database \<Rightarrow> bool" where
  "files_stored run config pinfo sinfo p f d \<longleftrightarrow>
     file_stored ''payment'' pinfo p (db_catalog d) \<and> file_stored ''settlement'' sinfo f (db_catalog d) \<and>
     filter (\<lambda>x. rf_run x = run) (db_run_files d) =
       [\<lparr>rf_run = run, rf_role = ''payment'', rf_file = p\<rparr>, \<lparr>rf_run = run, rf_role = ''settlement'', rf_file = f\<rparr>] @
       concat (map (\<lambda>kind. map (\<lambda>x. \<lparr>rf_run = run, rf_role = kind, rf_file = cf_file x\<rparr>)
         (filter (\<lambda>x. cf_config x = config \<and> cf_kind x = kind) (cat_config_files (db_catalog d))))
         [''payment_config'', ''settlement_config''])"

text \<open>The posted contributions, with the mapping each comes from.\<close>

definition posted_row :: "int \<Rightarrow> (string, int) gomap \<Rightarrow> (raw_row \<times> contribution) \<times> mapping_row \<Rightarrow> contribution_row" where
  "posted_row run keys x =
     (case x of ((r, c), m) \<Rightarrow>
        \<lparr>sc_run = run, sc_row = gget 0 keys (rowKey r), sc_mapping = rm_id m,
         sc_source = source_string (row_Source r), sc_scope = ScopeIn,
         sc_settlement = nullable (row_SettlementID r), sc_currency = nullable (row_Currency r),
         sc_field = con_Target c, sc_amount = sint (con_Amount c)\<rparr>)"

text \<open>The two totals of a bucket, with the number of contributions posted to each.\<close>

definition stored_total ::
  "int \<Rightarrow> (raw_row \<times> contribution) list \<Rightarrow> string \<Rightarrow> (source, int64) gomap \<Rightarrow> source \<Rightarrow> total_row" where
  "stored_total run cs field b src =
     \<lparr>tr_run = run, tr_source = source_string src, tr_field = field, tr_amount = sint (gget 0 b src),
      tr_count = int (length (filter (\<lambda>p. posted p \<and> source_string (row_Source (fst p)) = source_string src \<and>
        con_Target (snd p) = field) cs))\<rparr>"

definition group_stored :: "int \<Rightarrow> group \<Rightarrow> group_row \<Rightarrow> bool" where
  "group_stored run g t \<longleftrightarrow>
     gr_run t = run \<and> gr_ref t = g_Key g \<and> gr_settlement t = g_SettlementID g \<and>
     gr_currency t = g_Currency g \<and> gr_scope t = g_Scope g \<and>
     gr_payment_rows t = int (length (g_PaymentRows g)) \<and> gr_payment_amount t = sint (g_PaymentAmount g) \<and>
     gr_settlement_rows t = int (length (g_SettlementRows g)) \<and>
     gr_settlement_amount t = sint (g_SettlementAmt g) \<and>
     gr_status t = (if g_PaymentRows g = [] then StatusUnreconciledSettle
                    else if g_SettlementRows g = [] then StatusUnreconciledPayment else StatusReconciled)"

text \<open>The members of each group under the id of the row of that very group.\<close>

definition group_members :: "int \<Rightarrow> (string, int) gomap \<Rightarrow> group \<Rightarrow> group_row \<Rightarrow> member_row list" where
  "group_members run keys g t =
     map (\<lambda>r. \<lparr>me_run = run, me_group = gr_id t, me_row = gget 0 keys (rowKey r)\<rparr>)
       (g_PaymentRows g @ g_SettlementRows g)"

definition run_tables ::
  "int \<Rightarrow> string \<Rightarrow> int \<Rightarrow> file_info \<Rightarrow> file_info \<Rightarrow> 'i mapped list \<Rightarrow> group list \<Rightarrow> summary \<Rightarrow>
     string list \<Rightarrow> database \<Rightarrow> bool" where
  "run_tables run selected config pinfo sinfo all gs s issues d \<longleftrightarrow>
     (\<exists>p f keys ms ts.
        files_stored run config pinfo sinfo p f d \<and>
        mset (filter (\<lambda>r. sr_run r = run) (db_rows d)) =
          mset (map (stored_row run [(SourcePayment, p), (SourceSettlement, f)] keys \<circ> m_Row) all) \<and>
        distinct (map sr_id (filter (\<lambda>r. sr_run r = run) (db_rows d))) \<and>
        filter (\<lambda>m. rm_run m = run) (db_mappings d) = ms \<and> distinct (map rm_id ms) \<and>
        list_all2 (mapping_stored run config keys (cat_rules (db_catalog d))) (row_contributions all) ms \<and>
        filter (\<lambda>c. sc_run c = run) (db_contributions d) =
          map (posted_row run keys) (filter (posted \<circ> fst) (zip (row_contributions all) ms)) \<and>
        filter (\<lambda>c. cr_run c = run) (db_controls d) =
          map (control_of run keys) (filter (is_control selected) (map m_Row all)) \<and>
        filter (\<lambda>t. tr_run t = run) (db_totals d) =
          concat (map (\<lambda>(field, b). map (stored_total run (row_contributions all) field b)
            [SourcePayment, SourceSettlement]) (Buckets s)) \<and>
        filter (\<lambda>g. gr_run g = run) (db_groups d) = ts \<and> distinct (map gr_id ts) \<and>
        list_all2 (group_stored run) gs ts \<and>
        filter (\<lambda>m. me_run m = run) (db_members d) = concat (map2 (group_members run keys) gs ts) \<and>
        distinct (map me_row (filter (\<lambda>m. me_run m = run) (db_members d))) \<and>
        filter (\<lambda>x. fst x = run) (db_issues d) = map (Pair run) issues)"

text \<open>What the queries of the verification read of these tables.\<close>

definition run_view ::
  "int \<Rightarrow> string \<Rightarrow> 'i mapped list \<Rightarrow> group list \<Rightarrow> summary \<Rightarrow> string list \<Rightarrow> database \<Rightarrow> bool" where
  "run_view run selected all gs s issues d \<longleftrightarrow>
     (\<exists>files keys cd ids gids.
        mset (rows_of_run run d) = mset (map (stored_row run files keys \<circ> m_Row) all) \<and>
        map pair_view (mapped_rows run d) = map contribution_view (row_contributions all) \<and>
        filter (\<lambda>c. sc_run c = run) (db_contributions d) =
          map contribution_of (filter in_summary (mapped_rows run d)) \<and>
        filter (\<lambda>c. cr_run c = run) (db_controls d) =
          map (control_of run keys) (filter (is_control selected) (map m_Row all)) \<and>
        filter (\<lambda>t. tr_run t = run) (db_totals d) = map (total_of run cd) (total_items s) \<and>
        filter (\<lambda>g. gr_run g = run) (db_groups d) = with_ids gids (group_row_of run) gs \<and>
        length ids = length gs \<and>
        filter (\<lambda>m. me_run m = run) (db_members d) =
          concat (map (members_of run keys) (zip ids gs)) \<and>
        distinct (member_ids run d) \<and>
        filter (\<lambda>x. fst x = run) (db_issues d) = map (Pair run) issues)"

lemma filter_new:
  assumes "list_all (\<lambda>x. f x \<noteq> run) old" and "list_all (\<lambda>x. f x = run) new"
  shows "filter (\<lambda>x. f x = run) (old @ new) = new"
  using assms by (auto simp: list_all_iff filter_empty_conv filter_id_conv)

lemma filter_other:
  "list_all (\<lambda>x. f x = run) new \<Longrightarrow> j \<noteq> run \<Longrightarrow> filter (\<lambda>x. f x = j) (old @ new) = filter (\<lambda>x. f x = j) old"
  by (auto simp: list_all_iff filter_empty_conv)

lemma insert_run_files_Inr: "foldE insert_run_file xs t = Inr t' \<Longrightarrow> t' = t @ xs"
proof (induction xs arbitrary: t)
  case Nil
  then show ?case by simp
next
  case (Cons x xs)
  then obtain u where u: "insert_run_file x t = Inr u" "foldE insert_run_file xs u = Inr t'"
    by (auto simp: result_simps)
  from u(1) have "u = t @ [x]" by (simp add: insert_run_file_def result_simps)
  with Cons.IH[OF u(2)] show ?case by simp
qed

lemma put_file_stored:
  assumes "put_file db new kind info fs = Inr (i, fs')"
  shows "list_ex (\<lambda>x. sf_id x = i \<and> sf_kind x = kind \<and> sf_sha x = info_SHA256 info) fs' \<and> (\<exists>ext. fs' = fs @ ext)"
proof (cases "find (\<lambda>f. sf_kind f = kind \<and> sf_sha f = info_SHA256 info) fs")
  case None
  with assms show ?thesis by (auto simp: put_file_def result_simps)
next
  case (Some x)
  then have "x \<in> set fs" "sf_kind x = kind" "sf_sha x = info_SHA256 info" by (auto simp: find_Some_iff)
  with Some assms show ?thesis by (auto simp: put_file_def list_ex_iff)
qed

lemma persist_files_Inr:
  assumes "persist_files db run config pinfo sinfo d = Inr (files, d')"
  obtains p f new fs where "files = [(SourcePayment, p), (SourceSettlement, f)]"
    "d' = d\<lparr>db_catalog := set_files fs (db_catalog d), db_run_files := db_run_files d @ new\<rparr>"
    "list_all (\<lambda>x. rf_run x = run) new"
    "file_stored ''payment'' pinfo p (set_files fs (db_catalog d))"
    "file_stored ''settlement'' sinfo f (set_files fs (db_catalog d))"
    "new = [\<lparr>rf_run = run, rf_role = ''payment'', rf_file = p\<rparr>, \<lparr>rf_run = run, rf_role = ''settlement'', rf_file = f\<rparr>] @
       concat (map (\<lambda>kind. map (\<lambda>x. \<lparr>rf_run = run, rf_role = kind, rf_file = cf_file x\<rparr>)
         (filter (\<lambda>x. cf_config x = config \<and> cf_kind x = kind) (cat_config_files (db_catalog d))))
         [''payment_config'', ''settlement_config''])"
proof -
  let ?role = "\<lambda>x. \<lparr>rf_run = run, rf_role = cf_kind x, rf_file = cf_file x\<rparr>"
  let ?cfs = "\<lambda>k. filter (\<lambda>x. cf_config x = config \<and> cf_kind x = k) (cat_config_files (db_catalog d))"
  from assms obtain p fs f fs' rfs where
    p: "put_file db (next_file db 0) ''payment'' pinfo (cat_files (db_catalog d)) = Inr (p, fs)" and
    f: "put_file db (next_file db 1) ''settlement'' sinfo fs = Inr (f, fs')" and
    rfs: "foldE insert_run_file
             (\<lparr>rf_run = run, rf_role = ''payment'', rf_file = p\<rparr> #
              \<lparr>rf_run = run, rf_role = ''settlement'', rf_file = f\<rparr> #
              map ?role (concat (map ?cfs [''payment_config'', ''settlement_config'']))) (db_run_files d) = Inr rfs" and
    out: "files = [(SourcePayment, p), (SourceSettlement, f)]"
      "d' = d\<lparr>db_catalog := set_files fs' (db_catalog d), db_run_files := rfs\<rparr>"
    by (auto simp: persist_files_def Let_def result_simps
        simp del: foldE.simps foldE_Cons_Inr list.map(2) map_append concat.simps)
  have roles: "map ?role (?cfs k) = map (\<lambda>x. \<lparr>rf_run = run, rf_role = k, rf_file = cf_file x\<rparr>) (?cfs k)" for k
    by (rule map_cong) auto
  let ?new = "[\<lparr>rf_run = run, rf_role = ''payment'', rf_file = p\<rparr>, \<lparr>rf_run = run, rf_role = ''settlement'', rf_file = f\<rparr>] @
       concat (map (\<lambda>kind. map (\<lambda>x. \<lparr>rf_run = run, rf_role = kind, rf_file = cf_file x\<rparr>) (?cfs kind))
         [''payment_config'', ''settlement_config''])"
  have "rfs = db_run_files d @ ?new"
    using insert_run_files_Inr[OF rfs] by (simp add: roles)
  moreover have "list_all (\<lambda>x. rf_run x = run) ?new" by (auto simp: list_all_iff)
  moreover have "file_stored ''settlement'' sinfo f (set_files fs' (db_catalog d))"
    using put_file_stored[OF f] by (simp add: file_stored_def set_files_def)
  moreover have "file_stored ''payment'' pinfo p (set_files fs' (db_catalog d))"
    using put_file_stored[OF p] put_file_stored[OF f] by (auto simp: file_stored_def set_files_def)
  ultimately show thesis using that[OF out(1), of ?new fs'] out(2) by blast
qed

lemma persist_tables_Inr:
  assumes "persist_tables db run selected keys all gs s issues d = Inr d'"
    and "list_all (\<lambda>c. sc_run c \<noteq> run) (db_contributions d)"
    and "distinct (map (rm_id \<circ> fst) (mapped_rows run d))"
  obtains ids cd where
    "d' = d\<lparr>db_contributions := db_contributions d @ map contribution_of (filter in_summary (mapped_rows run d)),
       db_controls := db_controls d @ map (control_of run keys) (filter (is_control selected) (map m_Row all)),
       db_totals := db_totals d @ map (total_of run cd) (total_items s),
       db_groups := db_groups d @ with_ids (next_group db) (group_row_of run) gs,
       db_members := db_members d @ concat (map (members_of run keys) (zip ids gs)),
       db_issues := db_issues d @ map (Pair run) issues\<rparr>"
    "ids = map gr_id (with_ids (next_group db) (group_row_of run) gs)" "mapped_rows run cd = mapped_rows run d"
    "distinct (map gr_id (db_groups d'))" "distinct (map (\<lambda>m. (me_run m, me_row m)) (db_members d'))"
proof -
  from assms(1) obtain d1 d2 d3 ids d4 d5 where
    1: "persist_contributions run d = Inr d1"
    and 2: "foldE (persist_control db run selected keys) (map m_Row all) d1 = Inr d2"
    and 3: "foldE (persist_total db run) (total_items s) d2 = Inr d3"
    and 4: "persist_groups db run gs d3 = Inr (ids, d4)"
    and 5: "persist_members run keys ids gs d4 = Inr d5"
    and 6: "persist_issues db run issues d5 = Inr d'"
    by (auto simp: persist_tables_def result_simps)
  from 6 have 66: "d' = d5\<lparr>db_issues := db_issues d5 @ map (Pair run) issues\<rparr>"
    by (simp add: persist_issues_def result_simps)
  note 11 = persist_contributions_Inr[OF 1 assms(2,3)] and 22 = persist_controls_Inr[OF 2]
    and 33 = persist_totals_Inr[OF 3] and 44 = persist_groups_Inr[OF 4] and 55 = persist_members_Inr[OF 5]
  show thesis
  proof (rule that[of ids d2])
    show "ids = map gr_id (with_ids (next_group db) (group_row_of run) gs)" using 44 by blast
    show "mapped_rows run d2 = mapped_rows run d"
      by (rule mapped_rows_cong) (simp_all add: 22 11)
    have "db_groups d' = db_groups d4" by (simp add: 66 conjunct1[OF 55])
    then show "distinct (map gr_id (db_groups d'))" using conjunct2[OF conjunct2[OF 44]] by (simp only:)
    have "db_members d' = db_members d5" by (simp add: 66)
    then show "distinct (map (\<lambda>m. (me_run m, me_row m)) (db_members d'))"
      using conjunct2[OF 55] by (simp only:)
  qed (simp add: 66 conjunct1[OF 55] conjunct1[OF 44] 33 22 11)
qed

lemma rows_of_with_ids:
  "list_all (\<lambda>g. gr_run g = run) (with_ids ids (group_row_of run) gs)"
  by (auto simp: list_all_iff group_row_of_def dest!: set_with_ids)

lemma run_of_members: "list_all (\<lambda>m. me_run m = run) (concat (map (members_of run keys) zs))"
  by (auto simp: list_all_iff members_of_def)

text \<open>The rows of all tables that belong to a run.\<close>

definition tables_of ::
  "int \<Rightarrow> database \<Rightarrow> source_row list \<times> mapping_row list \<times> contribution_row list \<times> control_row list \<times>
     total_row list \<times> group_row list \<times> member_row list \<times> (int \<times> string) list \<times> run_file list" where
  "tables_of run d =
     (filter (\<lambda>x. sr_run x = run) (db_rows d), filter (\<lambda>x. rm_run x = run) (db_mappings d),
      filter (\<lambda>x. sc_run x = run) (db_contributions d), filter (\<lambda>x. cr_run x = run) (db_controls d),
      filter (\<lambda>x. tr_run x = run) (db_totals d), filter (\<lambda>x. gr_run x = run) (db_groups d),
      filter (\<lambda>x. me_run x = run) (db_members d), filter (\<lambda>x. fst x = run) (db_issues d),
      filter (\<lambda>x. rf_run x = run) (db_run_files d))"

lemma no_rows_tables: "no_rows run d \<longleftrightarrow> tables_of run d = ([], [], [], [], [], [], [], [], [])"
  by (auto simp: no_rows_def tables_of_def filter_empty_conv list_all_iff)

text \<open>The rows of the totals and of the groups, as the specification gives them.\<close>

lemma counted_pairs:
  assumes "map pair_view ps = map contribution_view cs"
  shows "length (filter (\<lambda>p. sr_source (snd p) = src \<and> sr_scope (snd p) = ScopeIn \<and>
      rm_target (fst p) = Some field \<and> rm_amount (fst p) \<noteq> 0) ps) =
    length (filter (\<lambda>p. posted p \<and> source_string (row_Source (fst p)) = src \<and> con_Target (snd p) = field) cs)"
proof -
  let ?Q = "\<lambda>v. fst v = src \<and> fst (snd v) = ScopeIn \<and> fst (snd (snd (snd v))) = Some field \<and>
    snd (snd (snd (snd v))) \<noteq> 0"
  have "length (filter (?Q \<circ> pair_view) ps) = length (filter (?Q \<circ> contribution_view) cs)"
    using arg_cong[OF assms, of "\<lambda>vs. length (filter ?Q vs)"] by (simp add: filter_map)
  moreover have "sint a = 0 \<longleftrightarrow> a = 0" for a :: int64
    using sint_eqD[of a 0] by auto
  then have "(?Q \<circ> contribution_view) p \<longleftrightarrow>
      posted p \<and> source_string (row_Source (fst p)) = src \<and> con_Target (snd p) = field" for p
    by (auto simp: contribution_view_def posted_def)
  ultimately show ?thesis by (simp add: o_def pair_view_def)
qed

lemma total_of_stored:
  assumes "map pair_view (mapped_rows run cd) = map contribution_view cs"
  shows "map (total_of run cd) (total_items s) =
    concat (map (\<lambda>(field, b). map (stored_total run cs field b) [SourcePayment, SourceSettlement]) (Buckets s))"
proof -
  have "total_of run cd ((field, b), src) = stored_total run cs field b src" for field b src
    unfolding total_of_def stored_total_def count_mappings_def using counted_pairs[OF assms] by simp
  then have "map (total_of run cd) (map (Pair b) [SourcePayment, SourceSettlement]) =
      (\<lambda>(field, b). map (stored_total run cs field b) [SourcePayment, SourceSettlement]) b" for b
    by (cases b) simp
  then show ?thesis by (simp add: total_items_def map_concat o_def)
qed

lemma groups_stored: "list_all2 (group_stored run) gs (with_ids ids (group_row_of run) gs)"
  by (auto simp: list_all2_conv_all_nth with_ids_def nth_enumerate_eq group_stored_def group_row_of_def
      stored_status_def)

lemma members_of_groups:
  "length ts = length gs \<Longrightarrow>
     concat (map (members_of run keys) (zip (map gr_id ts) gs)) = concat (map2 (group_members run keys) gs ts)"
  by (induction ts gs rule: list_induct2) (simp_all add: members_of_def group_members_def)

lemma persist_tx_Inr:
  assumes "persist_tx db run selected config pinfo sinfo all gs s rules issues d = Inr d'"
    and "\<forall>m \<in> set all. row_Source (m_Row m) \<in> {SourcePayment, SourceSettlement}"
    and "no_rows run d"
  shows "run_view run selected all gs s issues d'" (is ?view)
    and "db_runs d' = update_run run reconcile_run (db_runs d)" (is ?runs)
    and "j \<noteq> run \<Longrightarrow> tables_of j d' = tables_of j d"
    and "run_tables run selected config pinfo sinfo all gs s issues d'" (is ?tables)
proof -
  from assms(1) obtain files d1 rids d2 keys d3 d4 d5 where
    1: "persist_files db run config pinfo sinfo d = Inr (files, d1)"
    and 2: "persist_rules db config rules d1 = Inr (rids, d2)"
    and 3: "persist_source_rows db run files (map m_Row all) d2 = Inr (keys, d3)"
    and 4: "persist_mappings db run config keys rids all d3 = Inr d4"
    and 5: "persist_tables db run selected keys all gs s issues d4 = Inr d5"
    and d': "d' = d5\<lparr>db_runs := update_run run reconcile_run (db_runs d5)\<rparr>"
    by (auto simp: persist_tx_def result_simps)
  obtain p f rfs fs where files: "files = [(SourcePayment, p), (SourceSettlement, f)]"
    and d1: "d1 = d\<lparr>db_catalog := set_files fs (db_catalog d), db_run_files := db_run_files d @ rfs\<rparr>"
    and rfs: "list_all (\<lambda>x. rf_run x = run) rfs"
      "file_stored ''payment'' pinfo p (set_files fs (db_catalog d))"
      "file_stored ''settlement'' sinfo f (set_files fs (db_catalog d))"
      "rfs = [\<lparr>rf_run = run, rf_role = ''payment'', rf_file = p\<rparr>, \<lparr>rf_run = run, rf_role = ''settlement'', rf_file = f\<rparr>] @
       concat (map (\<lambda>kind. map (\<lambda>x. \<lparr>rf_run = run, rf_role = kind, rf_file = cf_file x\<rparr>)
         (filter (\<lambda>x. cf_config x = config \<and> cf_kind x = kind) (cat_config_files (db_catalog d))))
         [''payment_config'', ''settlement_config''])"
    by (rule persist_files_Inr[OF 1])
  obtain c where d2c: "d2 = d1\<lparr>db_catalog := c\<rparr>" and rids: "rule_ids_ok config rids (cat_rules c)"
    and c: "cat_files c = cat_files (db_catalog d1)" "cat_config_files c = cat_config_files (db_catalog d1)"
    using persist_rules_Inr[OF 2] by blast
  have d2: "d2 = d\<lparr>db_run_files := db_run_files d @ rfs, db_catalog := c\<rparr>" by (simp add: d2c d1)
  obtain rows where d3: "d3 = d2\<lparr>db_rows := db_rows d2 @ rows\<rparr>"
    and rows: "mset rows = mset (map (stored_row run files keys) (map m_Row all))"
      "distinct (map sr_id (db_rows d2 @ rows))" "list_all (\<lambda>x. sr_run x = run) rows"
    by (rule persist_source_rows_Inr[OF 3]) (use assms(2) in auto)
  have old: "list_all (\<lambda>m. rm_run m \<noteq> run) (db_mappings d3)"
    "list_all (\<lambda>c. sc_run c \<noteq> run) (db_contributions d3)"
    using assms(3) by (simp_all add: no_rows_def d3 d2)
  have "set rows = set (map (stored_row run files keys) (map m_Row all))"
    using rows(1) by (rule mset_eq_setD)
  then have stored: "\<forall>m \<in> set all. stored_row run files keys (m_Row m) \<in> set (db_rows d3)"
    by (auto simp: d3)
  have pk: "distinct (map sr_id (db_rows d3))" using rows(2) by (simp add: d3)
  obtain new where d4: "d4 = d3\<lparr>db_mappings := db_mappings d3 @ new\<rparr>"
    and new: "distinct (map rm_id (db_mappings d3 @ new))" "list_all (\<lambda>m. rm_run m = run) new"
      "list_all2 (mapping_stored run config keys (cat_rules c)) (row_contributions all) new"
    and mapped4: "mapped_rows run d4 = zip new (map (stored_row run files keys \<circ> fst) (row_contributions all))"
    by (rule persist_mappings_Inr[OF 4 pk stored old(1) rids])
  note views = zip_stored[OF new(3), of files, folded mapped4]
  have "distinct (map rm_id (map fst (mapped_rows run d4)))" using new(1) views(2) by simp
  then have ids: "distinct (map (rm_id \<circ> fst) (mapped_rows run d4))" by simp
  have old4: "list_all (\<lambda>c. sc_run c \<noteq> run) (db_contributions d4)" using old(2) by (simp add: d4)
  let ?ts = "with_ids (next_group db) (group_row_of run) gs"
  obtain gids cd where d5: "d5 = d4\<lparr>db_contributions := db_contributions d4 @
         map contribution_of (filter in_summary (mapped_rows run d4)),
       db_controls := db_controls d4 @ map (control_of run keys) (filter (is_control selected) (map m_Row all)),
       db_totals := db_totals d4 @ map (total_of run cd) (total_items s),
       db_groups := db_groups d4 @ ?ts,
       db_members := db_members d4 @ concat (map (members_of run keys) (zip gids gs)),
       db_issues := db_issues d4 @ map (Pair run) issues\<rparr>"
    and gids: "gids = map gr_id ?ts" and cd: "mapped_rows run cd = mapped_rows run d4"
    and gpk: "distinct (map gr_id (db_groups d5))"
    and mem: "distinct (map (\<lambda>m. (me_run m, me_row m)) (db_members d5))"
    by (rule persist_tables_Inr[OF 5 old4 ids])
  have mapped: "mapped_rows run d' = mapped_rows run d4"
    by (rule mapped_rows_cong) (simp_all add: d' d5)
  have run: "rm_run (fst p) = run" if "p \<in> set (mapped_rows run d4)" for p
    using that by (auto simp: mapped_rows_def)
  let ?cs = "map contribution_of (filter in_summary (mapped_rows run d4))"
  let ?cr = "map (control_of run keys) (filter (is_control selected) (map m_Row all))"
  let ?tr = "map (total_of run cd) (total_items s)"
  let ?ms = "concat (map (members_of run keys) (zip gids gs))"
  have e: "db_run_files d' = db_run_files d @ rfs" "db_rows d' = db_rows d @ rows"
    "db_mappings d' = db_mappings d @ new" "db_contributions d' = db_contributions d @ ?cs"
    "db_controls d' = db_controls d @ ?cr" "db_totals d' = db_totals d @ ?tr"
    "db_groups d' = db_groups d @ ?ts" "db_members d' = db_members d @ ?ms"
    "db_issues d' = db_issues d @ map (Pair run) issues"
    by (simp_all add: d' d5 d4 d3 d2)
  have own: "list_all (\<lambda>c. sc_run c = run) ?cs" "list_all (\<lambda>c. cr_run c = run) ?cr"
    "list_all (\<lambda>t. tr_run t = run) ?tr" "list_all (\<lambda>x. fst x = run) (map (Pair run) issues)"
    using run by (auto simp: list_all_iff contribution_of_def control_of_def total_of_def)
  note empty = assms(3)[unfolded no_rows_def] and gown = rows_of_with_ids and mown = run_of_members
  have f0: "filter (\<lambda>x. rf_run x = run) (db_run_files d') = rfs"
    unfolding e by (rule filter_new[OF _ rfs(1)]) (simp only: empty)
  have f1: "filter (\<lambda>r. sr_run r = run) (db_rows d') = rows"
    unfolding e by (rule filter_new[OF _ rows(3)]) (simp only: empty)
  then have f1v: "mset (rows_of_run run d') = mset (map (stored_row run files keys \<circ> m_Row) all)"
    using rows(1) by (simp only: map_map rows_of_run_def)
  have f1m: "filter (\<lambda>m. rm_run m = run) (db_mappings d') = new"
    unfolding e by (rule filter_new[OF _ new(2)]) (simp only: empty)
  have f2: "filter (\<lambda>c. sc_run c = run) (db_contributions d') = ?cs"
    unfolding e by (rule filter_new[OF _ own(1)]) (simp only: empty)
  have f3: "filter (\<lambda>c. cr_run c = run) (db_controls d') = ?cr"
    unfolding e by (rule filter_new[OF _ own(2)]) (simp only: empty)
  have f4: "filter (\<lambda>t. tr_run t = run) (db_totals d') = ?tr"
    unfolding e by (rule filter_new[OF _ own(3)]) (simp only: empty)
  have f5: "filter (\<lambda>g. gr_run g = run) (db_groups d') = ?ts"
    unfolding e by (rule filter_new[OF _ gown]) (simp only: empty)
  have f6: "filter (\<lambda>m. me_run m = run) (db_members d') = ?ms"
    unfolding e by (rule filter_new[OF _ mown]) (simp only: empty)
  have f7: "distinct (member_ids run d')"
  proof -
    have "distinct (map (\<lambda>m. (me_run m, me_row m)) (filter (\<lambda>m. me_run m = run) (db_members d5)))"
      using mem by (rule distinct_map_filter)
    then show ?thesis by (auto simp: member_ids_def d' distinct_map inj_on_def)
  qed
  have f8: "filter (\<lambda>x. fst x = run) (db_issues d') = map (Pair run) issues"
    unfolding e by (rule filter_new[OF _ own(4)]) (simp only: empty)
  have len: "length gids = length gs" by (simp add: gids)
  show ?view
    unfolding run_view_def mapped
    by (rule exI[of _ files], rule exI[of _ keys], rule exI[of _ cd], rule exI[of _ gids],
        rule exI[of _ "next_group db"])
      (intro conjI f1v views(1) f2 f3 f4 f5 len f6 f7 f8)
  show ?runs by (simp add: d' d5 d4 d3 d2)
  show "tables_of j d' = tables_of j d" if j: "j \<noteq> run"
    unfolding tables_of_def e
    by (simp only: filter_other[OF rfs(1) j] filter_other[OF rows(3) j] filter_other[OF new(2) j]
        filter_other[OF own(1) j] filter_other[OF own(2) j] filter_other[OF own(3) j]
        filter_other[OF own(4) j] filter_other[OF gown j] filter_other[OF mown j])
  have cat: "db_catalog d' = c" by (simp add: d' d5 d4 d3 d2)
  have t0: "files_stored run config pinfo sinfo p f d'"
    using f0 rfs(2-4) by (simp add: files_stored_def cat file_stored_def c d1 set_files_def)
  have t2: "map contribution_of (filter in_summary (mapped_rows run d4)) =
      map (posted_row run keys) (filter (posted \<circ> fst) (zip (row_contributions all) new))"
  proof -
    have "contribution_of (m, stored_row run files keys (fst q)) = posted_row run keys (q, m)"
      if "(q, m) \<in> set (filter (posted \<circ> fst) (zip (row_contributions all) new))" for q m
    proof -
      have "mapping_stored run config keys (cat_rules c) q m" "posted q"
        using that new(3) by (auto simp: list_all2_iff)
      then show ?thesis
        by (cases q) (auto simp: contribution_of_def posted_row_def mapping_stored_def posted_def coalesce_def
            nullable_def stored_row_def)
    qed
    then show ?thesis unfolding views(3) by auto
  qed
  have t5: "distinct (map gr_id ?ts)" using gpk by (simp add: d5)
  have t6: "concat (map (members_of run keys) (zip gids gs)) = concat (map2 (group_members run keys) gs ?ts)"
    unfolding gids by (rule members_of_groups) simp
  have t7: "distinct (map me_row (filter (\<lambda>m. me_run m = run) (db_members d')))"
    using f7 by (simp add: member_ids_def)
  have pk': "distinct (map sr_id rows)" using rows(2) by simp
  have mk: "distinct (map rm_id new)" using new(1) by simp
  note totals = total_of_stored[OF views(1)[folded cd]]
  show ?tables
    unfolding run_tables_def cat
    by (rule exI[of _ p], rule exI[of _ f], rule exI[of _ keys], rule exI[of _ new], rule exI[of _ ?ts])
      (intro conjI t0 f1v[unfolded rows_of_run_def files] pk'[folded f1] f1m mk new(3)
        f2[unfolded t2] f3 f4[unfolded totals] f5 t5 groups_stored f6[unfolded t6] t7 f8)
qed

end
