(* ===== verification/Verify_Props.thy ===== *)
theory Verify_Props
  imports Persist_Props
begin

text \<open>
  What \<open>VerifyRun\<close> finds in the tables that \<open>Persist\<close> wrote: each of its queries is reduced to the
  rows, contributions and groups of the run, so that its verdict on a strict run is known from the
  result that was persisted.
\<close>

section \<open>Joins and counts\<close>

lemma count_where_0 [simp]: "count_where P xs = 0 \<longleftrightarrow> (\<forall>x \<in> set xs. \<not> P x)"
  by (simp add: count_where_def filter_empty_conv)

lemma distinct_group_by [simp]: "distinct (gkeys (group_by key amount xs))"
  by (simp add: group_by_def comp_def)

lemma gget_group_by:
  "gget 0 (group_by key amount xs) k = (\<Sum>x\<leftarrow>filter (\<lambda>x. key x = k) xs. amount x)"
proof (cases "k \<in> key ` set xs")
  case True
  then have "map_of (group_by key amount xs) k = Some (\<Sum>x\<leftarrow>filter (\<lambda>x. key x = k) xs. amount x)"
    by (intro map_of_is_SomeI) (auto simp: group_by_def comp_def)
  then show ?thesis by (simp add: gget_def)
next
  case False
  then have "filter (\<lambda>x. key x = k) xs = []" by (auto simp: filter_empty_conv)
  moreover from False have "\<not> ghas (group_by key amount xs) k"
    by (auto simp: ghas_keys group_by_def)
  ultimately show ?thesis by (simp add: gget_missing)
qed

lemma image_keys: "(\<lambda>y. h (fst y)) ` {y \<in> set ys. P (fst y)} = h ` {k \<in> set (map fst ys). P k}"
  by auto

lemma union_keys: "A \<union> {k \<in> B. k \<notin> A} = A \<union> B"
  by blast

lemma set_full_join:
  assumes "distinct (gkeys xs)" and "distinct (gkeys ys)"
  shows "set (full_join xs ys) =
    (\<lambda>k. (gget 0 xs k, gget 0 ys k)) ` (set (gkeys xs) \<union> set (gkeys ys))"
proof -
  have x: "snd x = gget 0 xs (fst x)" if "x \<in> set xs" for x
    using gget_in[OF assms(1), of "fst x" "snd x" 0] that by simp
  have y: "snd y = gget 0 ys (fst y)" if "y \<in> set ys" for y
    using gget_in[OF assms(2), of "fst y" "snd y" 0] that by simp
  let ?F = "\<lambda>x. case filter (\<lambda>y. fst y = fst x) ys of [] \<Rightarrow> [(snd x, 0)]
      | z # zs \<Rightarrow> map (\<lambda>y. (snd x, snd y)) (z # zs)"
  have one: "set (?F x) = {(gget 0 xs (fst x), gget 0 ys (fst x))}" if "x \<in> set xs" for x
  proof (cases "filter (\<lambda>y. fst y = fst x) ys")
    case Nil
    then have "\<not> ghas ys (fst x)" by (auto simp: filter_empty_conv ghas_keys)
    with Nil x[OF that] show ?thesis by (simp add: gget_missing)
  next
    case (Cons z zs)
    have "fst y = fst x \<and> y \<in> set ys" if "y \<in> set (z # zs)" for y
    proof -
      have "y \<in> set (filter (\<lambda>y. fst y = fst x) ys)" using that by (simp only: Cons)
      then show ?thesis by simp
    qed
    then have "snd y = gget 0 ys (fst x)" if "y \<in> set (z # zs)" for y
      using y that by metis
    with Cons x[OF that] show ?thesis by auto
  qed
  have "(\<Union>x\<in>set xs. set (?F x)) = (\<Union>x\<in>set xs. {(gget 0 xs (fst x), gget 0 ys (fst x))})"
    by (rule SUP_cong[OF refl one])
  also have "\<dots> = (\<lambda>k. (gget 0 xs k, gget 0 ys k)) ` set (gkeys xs)" by auto
  finally have left: "(\<Union>x\<in>set xs. set (?F x)) = (\<lambda>k. (gget 0 xs k, gget 0 ys k)) ` set (gkeys xs)" .
  have "set (full_join xs ys) = (\<Union>x\<in>set xs. set (?F x)) \<union>
      (\<lambda>y. (0, snd y)) ` {y \<in> set ys. fst y \<notin> set (gkeys xs)}"
    by (simp only: full_join_def set_append set_concat set_map set_filter image_image)
  also have "(\<lambda>y. (0, snd y)) ` {y \<in> set ys. fst y \<notin> set (gkeys xs)} =
      (\<lambda>y. (gget 0 xs (fst y), gget 0 ys (fst y))) ` {y \<in> set ys. fst y \<notin> set (gkeys xs)}"
    by (rule image_cong[OF refl]) (simp add: y gget_missing ghas_keys)
  also have "\<dots> = (\<lambda>k. (gget 0 xs k, gget 0 ys k)) ` {k \<in> set (gkeys ys). k \<notin> set (gkeys xs)}"
    by (rule image_keys)
  finally show ?thesis unfolding left image_Un[symmetric] union_keys .
qed

lemma differences_zero:
  assumes "distinct (gkeys xs)" and "distinct (gkeys ys)"
  shows "differences xs ys = 0 \<longleftrightarrow> (\<forall>k. gget 0 xs k = gget 0 ys k)"
proof -
  have "differences xs ys = 0 \<longleftrightarrow> (\<forall>k \<in> set (gkeys xs) \<union> set (gkeys ys). gget 0 xs k = gget 0 ys k)"
    by (simp add: differences_def set_full_join[OF assms] ball_Un)
  also have "\<dots> \<longleftrightarrow> (\<forall>k. gget 0 xs k = gget 0 ys k)"
    by (metis UnCI gget_missing ghas_keys)
  finally show ?thesis .
qed

section \<open>Sums over stored mappings\<close>

lemma sum_pair_view:
  assumes "map pair_view xs = map contribution_view ys"
  shows "(\<Sum>p\<leftarrow>filter (\<lambda>p. P (pair_view p)) xs. f (pair_view p)) =
    (\<Sum>q\<leftarrow>filter (\<lambda>q. P (contribution_view q)) ys. f (contribution_view q))"
proof -
  have "map f (filter P (map g zs)) = map (\<lambda>z. f (g z)) (filter (\<lambda>z. P (g z)) zs)" for g :: "'c \<Rightarrow> _" and zs
    by (simp add: filter_map comp_def)
  from this[of pair_view xs] this[of contribution_view ys] assms show ?thesis by metis
qed

lemma sum_row_contributions:
  "(\<Sum>q\<leftarrow>filter Q (row_contributions all). f q) =
     (\<Sum>m\<leftarrow>all. \<Sum>c\<leftarrow>filter (\<lambda>c. Q (m_Row m, c)) (m_Contributions m). f (m_Row m, c))"
  by (induction all) (simp_all add: row_contributions_def filter_map comp_def)

lemma routed_to_sum:
  assumes "t \<noteq> []"
  shows "(\<Sum>c\<leftarrow>filter (\<lambda>c. con_Target c = t) cs. sint (con_Amount c)) =
    (\<Sum>c\<leftarrow>filter routed cs. if con_Target c = t then sint (con_Amount c) else 0)"
  using assms by (induction cs) (auto simp: routed_def)

lemma sum_filter_restrict:
  fixes f :: "'a \<Rightarrow> int"
  assumes "\<And>x. x \<in> set xs \<Longrightarrow> (if P x then f x else 0) = (if Q x then g x else 0)"
  shows "(\<Sum>x\<leftarrow>filter P xs. f x) = (\<Sum>x\<leftarrow>filter Q xs. g x)"
proof -
  have "(\<Sum>x\<leftarrow>xs. if P x then f x else 0) = (\<Sum>x\<leftarrow>xs. if Q x then g x else 0)"
    using assms by (intro arg_cong[where f = sum_list] map_cong) auto
  then show ?thesis by (simp add: sum_list_map_filter')
qed

section \<open>Results a run computes\<close>

definition scoped :: "source \<Rightarrow> 'i mapped \<Rightarrow> bool" where
  "scoped src m \<longleftrightarrow> row_Scope (m_Row m) = ScopeIn \<and> row_Source (m_Row m) = src"

definition scoped_transaction :: "'i mapped \<Rightarrow> bool" where
  "scoped_transaction m \<longleftrightarrow> row_Kind (m_Row m) = RowTransaction \<and> row_Scope (m_Row m) = ScopeIn"

text \<open>
  What the computation of a strict run guarantees of its mapped rows, groups and summary.
\<close>

definition rows_ok :: "string \<Rightarrow> 'i mapped list \<Rightarrow> 'i mapped list \<Rightarrow> bool" where
  "rows_ok sid ps ss \<longleftrightarrow>
     (\<forall>m \<in> set ps. row_Source (m_Row m) = SourcePayment) \<and>
     (\<forall>m \<in> set ss. row_Source (m_Row m) = SourceSettlement \<and> row_HasRecon (m_Row m)) \<and>
     (\<forall>m \<in> set (ps @ ss).
        (\<forall>c \<in> set (m_Contributions m). con_Key c = m_Key m \<and> (con_Target c = [] \<or> TrimSpace (con_Target c) \<noteq> [])) \<and>
        (row_Scope (m_Row m) = ScopeIn \<longrightarrow> row_Kind (m_Row m) = RowTransaction \<and> row_SettlementID (m_Row m) = sid)) \<and>
     TrimSpace sid \<noteq> []"

definition summary_ok :: "'i mapped list \<Rightarrow> summary \<Rightarrow> bool" where
  "summary_ok all s \<longleftrightarrow>
     [] \<notin> set (gkeys (Buckets s)) \<and> distinct (gkeys (Buckets s)) \<and>
     (\<forall>t. t \<noteq> [] \<longrightarrow> (\<forall>src \<in> {SourcePayment, SourceSettlement}.
        sint (bucket s t src) = (\<Sum>m\<leftarrow>filter (scoped src) all. routed_to t m)))"

definition control_ok :: "string \<Rightarrow> 'i mapped list \<Rightarrow> bool" where
  "control_ok sid ss \<longleftrightarrow>
     (\<exists>r. filter (\<lambda>r. row_Kind r = RowMetadata \<and> row_SettlementID r = sid) (map m_Row ss) = [r] \<and>
        sint (row_ReconAmount r) = (\<Sum>m\<leftarrow>filter scoped_transaction ss. sint (row_ReconAmount (m_Row m))))"

section \<open>The summary query\<close>

lemma scoped_targets:
  assumes "\<forall>c \<in> set (m_Contributions m). con_Target c = [] \<or> TrimSpace (con_Target c) \<noteq> []"
    and "t \<noteq> []"
  shows "(\<Sum>c\<leftarrow>filter (\<lambda>c. nullable (con_Target c) = Some t) (m_Contributions m). sint (con_Amount c)) =
    routed_to t m"
proof -
  have "nullable (con_Target c) = Some t \<longleftrightarrow> con_Target c = t" if "c \<in> set (m_Contributions m)" for c
    using assms that by auto
  then have "filter (\<lambda>c. nullable (con_Target c) = Some t) (m_Contributions m) =
      filter (\<lambda>c. con_Target c = t) (m_Contributions m)"
    by (intro filter_cong) auto
  then show ?thesis by (simp add: routed_to_def routed_to_sum[OF assms(2)])
qed

lemma source_string_cases:
  "row_Source r \<in> {SourcePayment, SourceSettlement} \<Longrightarrow> src \<in> {SourcePayment, SourceSettlement} \<Longrightarrow>
     source_string (row_Source r) = source_string src \<longleftrightarrow> row_Source r = src"
  by auto

text \<open>The sum of a source's mappings in scope to a field, of the rows that satisfy a condition.\<close>

lemma stored_target_sum:
  assumes "\<forall>m \<in> set all. row_Source (m_Row m) \<in> {SourcePayment, SourceSettlement} \<and>
      (\<forall>c \<in> set (m_Contributions m). con_Key c = m_Key m \<and> (con_Target c = [] \<or> TrimSpace (con_Target c) \<noteq> []))"
    and "map pair_view ps = map contribution_view (row_contributions all)"
    and "src \<in> {SourcePayment, SourceSettlement}" and "t \<noteq> []"
  shows "(\<Sum>p\<leftarrow>filter (\<lambda>p. sr_source (snd p) = source_string src \<and> sr_scope (snd p) = ScopeIn \<and>
      rm_target (fst p) = Some t \<and> K (rm_ref (fst p))) ps. rm_amount (fst p)) =
    (\<Sum>m\<leftarrow>filter (\<lambda>m. scoped src m \<and> K (m_Key m)) all. routed_to t m)"
proof -
  let ?P = "\<lambda>(a, b, c, d, e). a = source_string src \<and> b = ScopeIn \<and> d = Some t \<and> K c"
  have "(\<Sum>p\<leftarrow>filter (\<lambda>p. ?P (pair_view p)) ps. (snd \<circ> snd \<circ> snd \<circ> snd) (pair_view p)) =
      (\<Sum>q\<leftarrow>filter (\<lambda>q. ?P (contribution_view q)) (row_contributions all).
         (snd \<circ> snd \<circ> snd \<circ> snd) (contribution_view q))"
    by (rule sum_pair_view[OF assms(2)])
  also have "\<dots> = (\<Sum>m\<leftarrow>all. \<Sum>c\<leftarrow>filter (\<lambda>c. ?P (contribution_view (m_Row m, c))) (m_Contributions m).
      sint (con_Amount c))"
    by (simp add: sum_row_contributions contribution_view_def)
  also have "\<dots> = (\<Sum>m\<leftarrow>all. if scoped src m \<and> K (m_Key m) then routed_to t m else 0)"
  proof (intro arg_cong[where f = sum_list] map_cong refl)
    fix m assume m: "m \<in> set all"
    have src: "source_string (row_Source (m_Row m)) = source_string src \<longleftrightarrow> row_Source (m_Row m) = src"
      using assms(1,3) m by (intro source_string_cases) auto
    have "filter (\<lambda>c. ?P (contribution_view (m_Row m, c))) (m_Contributions m) =
        (if scoped src m \<and> K (m_Key m) then filter (\<lambda>c. nullable (con_Target c) = Some t) (m_Contributions m) else [])"
      using assms(1) m src by (auto simp: contribution_view_def scoped_def filter_empty_conv intro!: filter_cong)
    then show "(\<Sum>c\<leftarrow>filter (\<lambda>c. ?P (contribution_view (m_Row m, c))) (m_Contributions m). sint (con_Amount c)) =
        (if scoped src m \<and> K (m_Key m) then routed_to t m else 0)"
      using scoped_targets[of m t] assms(1,4) m by simp
  qed
  finally show ?thesis by (simp add: pair_view_def sum_list_map_filter' conj_ac)
qed

lemma gget_totals:
  "gget 0 (map (\<lambda>t. ((tr_source t, tr_field t), tr_amount t)) (map (total_of run cd) (total_items s))) (x, t) =
     (if x = ''payment'' then sint (bucket s t SourcePayment)
      else if x = ''settlement'' then sint (bucket s t SourceSettlement) else 0)"
proof -
  have "gget 0 (concat (map (\<lambda>b. [((''payment'', fst b), sint (gget 0 (snd b) SourcePayment)),
        ((''settlement'', fst b), sint (gget 0 (snd b) SourceSettlement))]) B)) (x, t) =
      (if x = ''payment'' then sint (gget 0 (gget [] B t) SourcePayment)
       else if x = ''settlement'' then sint (gget 0 (gget [] B t) SourceSettlement) else 0)" for B :: buckets
    by (induction B) (auto simp: gget_def)
  then show ?thesis by (simp add: bucket_def total_items_def total_of_def map_concat comp_def)
qed

lemma distinct_totals:
  assumes "distinct (gkeys B)"
  shows "distinct (concat (map (\<lambda>b. [(''payment'', fst b), (''settlement'', fst b)]) B))"
  using assms by (induction B) auto

lemma contribution_sum:
  assumes "\<forall>m \<in> set all. row_Source (m_Row m) \<in> {SourcePayment, SourceSettlement} \<and>
      (\<forall>c \<in> set (m_Contributions m). con_Key c = m_Key m \<and> (con_Target c = [] \<or> TrimSpace (con_Target c) \<noteq> []))"
    and "map pair_view ps = map contribution_view (row_contributions all)"
    and "src \<in> {SourcePayment, SourceSettlement}" and "t \<noteq> []"
  shows "gget 0 (group_by (\<lambda>c. (sc_source c, sc_field c)) sc_amount (map contribution_of (filter in_summary ps)))
      (source_string src, t) = (\<Sum>m\<leftarrow>filter (scoped src) all. routed_to t m)"
proof -
  have "gget 0 (group_by (\<lambda>c. (sc_source c, sc_field c)) sc_amount (map contribution_of (filter in_summary ps)))
      (source_string src, t) =
    (\<Sum>p\<leftarrow>filter (\<lambda>p. in_summary p \<and> sr_source (snd p) = source_string src \<and> coalesce (rm_target (fst p)) = t) ps.
       rm_amount (fst p))"
    by (simp add: gget_group_by contribution_of_def filter_map comp_def conj_commute)
  also have "\<dots> = (\<Sum>p\<leftarrow>filter (\<lambda>p. sr_source (snd p) = source_string src \<and> sr_scope (snd p) = ScopeIn \<and>
      rm_target (fst p) = Some t \<and> True) ps. rm_amount (fst p))"
    using assms(4) by (intro sum_filter_restrict) (auto simp: in_summary_def coalesce_def split: option.splits)
  also have "\<dots> = (\<Sum>m\<leftarrow>filter (scoped src) all. routed_to t m)"
    using stored_target_sum[OF assms, of "\<lambda>_. True"] by simp
  finally show ?thesis .
qed

lemma contribution_sources:
  assumes "map pair_view ps = map contribution_view (row_contributions all)"
    and "\<forall>m \<in> set all. row_Source (m_Row m) \<in> {SourcePayment, SourceSettlement}"
    and "(x, t) \<in> set (gkeys (group_by (\<lambda>c. (sc_source c, sc_field c)) sc_amount
      (map contribution_of (filter in_summary ps))))"
  shows "x \<in> {''payment'', ''settlement''} \<and> t \<noteq> []"
proof -
  from assms(3) obtain p where p: "p \<in> set ps" "in_summary p" "sr_source (snd p) = x"
    "coalesce (rm_target (fst p)) = t"
    by (auto simp: group_by_def contribution_of_def)
  then have "pair_view p \<in> contribution_view ` set (row_contributions all)"
    by (metis assms(1) image_eqI image_set)
  with assms(2) p(3) have "x \<in> {''payment'', ''settlement''}"
    by (fastforce simp: pair_view_def contribution_view_def row_contributions_def)
  moreover have "t \<noteq> []" using p(2,4) by (auto simp: in_summary_def coalesce_def split: option.splits)
  ultimately show ?thesis by simp
qed

lemma summary_mismatches_0:
  assumes "\<forall>m \<in> set all. row_Source (m_Row m) \<in> {SourcePayment, SourceSettlement} \<and>
      (\<forall>c \<in> set (m_Contributions m). con_Key c = m_Key m \<and> (con_Target c = [] \<or> TrimSpace (con_Target c) \<noteq> []))"
    and "run_view run sid all gs s issues d" and "summary_ok all s"
  shows "summary_mismatches run d = 0"
proof -
  from assms(2) obtain cd where
    views: "map pair_view (mapped_rows run d) = map contribution_view (row_contributions all)"
    and cons: "filter (\<lambda>c. sc_run c = run) (db_contributions d) =
      map contribution_of (filter in_summary (mapped_rows run d))"
    and tots: "filter (\<lambda>t. tr_run t = run) (db_totals d) = map (total_of run cd) (total_items s)"
    unfolding run_view_def by blast
  let ?xs = "map (\<lambda>t. ((tr_source t, tr_field t), tr_amount t)) (map (total_of run cd) (total_items s))"
  let ?ys = "group_by (\<lambda>c. (sc_source c, sc_field c)) sc_amount
      (map contribution_of (filter in_summary (mapped_rows run d)))"
  have fields: "[] \<notin> set (gkeys (Buckets s))" "distinct (gkeys (Buckets s))"
    using assms(3) by (simp_all add: summary_ok_def)
  have src: "\<forall>m \<in> set all. row_Source (m_Row m) \<in> {SourcePayment, SourceSettlement}" using assms(1) by blast
  have "gkeys ?xs = concat (map (\<lambda>b. [(''payment'', fst b), (''settlement'', fst b)]) (Buckets s))"
    by (simp add: total_items_def total_of_def map_concat comp_def)
  then have "distinct (gkeys ?xs)" using distinct_totals[OF fields(2)] by (simp only:)
  moreover have "gget 0 ?xs (x, t) = gget 0 ?ys (x, t)" for x t
  proof (cases "x \<in> {''payment'', ''settlement''} \<and> t \<noteq> []")
    case True
    then have "x = source_string SourcePayment \<or> x = source_string SourceSettlement" by simp
    then obtain src where src: "src \<in> {SourcePayment, SourceSettlement}" "x = source_string src" by blast
    then have "gget 0 ?xs (x, t) = sint (bucket s t src)" unfolding gget_totals by auto
    with contribution_sum[OF assms(1) views src(1), of t] True assms(3) src show ?thesis
      by (auto simp: summary_ok_def)
  next
    case False
    then have "(x, t) \<notin> set (gkeys ?ys)" using contribution_sources[OF views src, of x t] by blast
    then have ys: "gget 0 ?ys (x, t) = 0" by (simp only: gget_missing ghas_keys not_False_eq_True)
    have "bucket s [] u = 0" for u
      using fields(1) by (simp add: bucket_def gget_missing ghas_keys)
    then have "gget 0 ?xs (x, t) = 0" using False unfolding gget_totals by auto
    with ys show ?thesis by (simp only:)
  qed
  ultimately have "differences ?xs ?ys = 0" by (simp add: differences_zero)
  then show ?thesis by (simp only: summary_mismatches_def cons tots)
qed

section \<open>The bucket query\<close>

lemma BuildGroups_select_sum:
  fixes w :: "'i mapped \<Rightarrow> int"
  assumes "BuildGroups ps ss = Inr gs" and "set rs \<subseteq> set (ps @ ss)"
    and "\<And>g r. member_of g r \<Longrightarrow> P g \<longleftrightarrow> Q r"
  shows "(\<Sum>g\<leftarrow>filter P gs. \<Sum>r\<leftarrow>filter (member_of g) rs. w r) =
    (\<Sum>r\<leftarrow>filter (\<lambda>r. row_Kind (m_Row r) = RowTransaction \<and> Q r) rs. w r)"
proof (rule sum_over_members)
  show "distinct (map group_identity (filter P gs))"
    using BuildGroups_identities(1)[OF assms(1)] by (rule distinct_map_filter)
  fix r assume r: "r \<in> set rs" "row_Kind (m_Row r) = RowTransaction"
  have "row_identity r \<in> set (map group_identity gs)"
    unfolding BuildGroups_identities(2)[OF assms(1)] using r assms(2) by blast
  then obtain g where g: "g \<in> set gs" "group_identity g = row_identity r" by auto
  have "P h \<longleftrightarrow> Q r" if "group_identity h = row_identity r" for h
    using that r(2) by (intro assms(3)) (simp add: member_of_identity)
  with g show "row_identity r \<in> set (map group_identity (filter P gs)) \<longleftrightarrow> Q r"
    by (auto simp: image_iff)
qed

lemma group_gate_buckets:
  assumes "group_gate g = None" and "g_Scope g = ScopeIn"
  shows "gget 0 (g_PaymentBuckets g) t = gget 0 (g_SettleBuckets g) t"
proof (cases "t \<in> set (gkeys (g_PaymentBuckets g) @ gkeys (g_SettleBuckets g))")
  case True
  with assms show ?thesis by (auto simp: group_gate_def find_None_iff split: if_splits)
next
  case False
  then show ?thesis by (simp add: gget_missing ghas_keys)
qed

lemma group_gate_amounts:
  "group_gate g = None \<Longrightarrow> g_Scope g = ScopeIn \<Longrightarrow> g_PaymentRows g \<noteq> [] \<Longrightarrow> g_SettlementRows g \<noteq> [] \<Longrightarrow>
     g_PaymentAmount g = g_SettlementAmt g"
  by (auto simp: group_gate_def split: if_splits)

lemma first_error_None: "first_error es = None \<longleftrightarrow> (\<forall>e \<in> set es. e = None)"
  by (induction es rule: first_error.induct) auto

lemma strict_gate_groups: "strict_gate s gs = None \<Longrightarrow> g \<in> set gs \<Longrightarrow> group_gate g = None"
  by (simp add: strict_gate_def first_error_None)

text \<open>What the rows of one source in scope route to a field under a key, group by group.\<close>

lemma scoped_key_sum:
  assumes "BuildGroups ps ss = Inr gs" and "set rs \<subseteq> set (ps @ ss)"
    and "\<forall>m \<in> set rs. row_Source (m_Row m) = src \<and>
      (row_Scope (m_Row m) = ScopeIn \<longrightarrow> row_Kind (m_Row m) = RowTransaction)"
  shows "(\<Sum>m\<leftarrow>filter (\<lambda>m. scoped src m \<and> m_Key m = k) rs. routed_to t m) =
    (\<Sum>g\<leftarrow>filter (\<lambda>g. g_Scope g = ScopeIn \<and> g_Key g = k) gs. \<Sum>r\<leftarrow>filter (member_of g) rs. routed_to t r)"
proof -
  have "(\<Sum>g\<leftarrow>filter (\<lambda>g. g_Scope g = ScopeIn \<and> g_Key g = k) gs. \<Sum>r\<leftarrow>filter (member_of g) rs. routed_to t r) =
      (\<Sum>r\<leftarrow>filter (\<lambda>r. row_Kind (m_Row r) = RowTransaction \<and> row_Scope (m_Row r) = ScopeIn \<and> m_Key r = k) rs.
         routed_to t r)"
    by (rule BuildGroups_select_sum[OF assms(1,2)]) (auto simp: member_of_def)
  also have "\<dots> = (\<Sum>m\<leftarrow>filter (\<lambda>m. scoped src m \<and> m_Key m = k) rs. routed_to t m)"
    using assms(3) by (intro sum_filter_restrict) (auto simp: scoped_def)
  finally show ?thesis by (rule sym)
qed

lemma no_other_source:
  assumes "\<forall>m \<in> set rs. row_Source (m_Row m) \<noteq> src"
  shows "filter (\<lambda>m. scoped src m \<and> P m) rs = []"
  using assms by (auto simp: filter_empty_conv scoped_def)


lemma bucket_sum:
  assumes "\<forall>m \<in> set all. row_Source (m_Row m) \<in> {SourcePayment, SourceSettlement} \<and>
      (\<forall>c \<in> set (m_Contributions m). con_Key c = m_Key m \<and> (con_Target c = [] \<or> TrimSpace (con_Target c) \<noteq> []))"
    and "map pair_view (mapped_rows run d) = map contribution_view (row_contributions all)"
    and "src \<in> {SourcePayment, SourceSettlement}" and "t \<noteq> []"
  shows "gget 0 (bucket_sums run (source_string src) d) (k, t) =
    (\<Sum>m\<leftarrow>filter (\<lambda>m. scoped src m \<and> m_Key m = k) all. routed_to t m)"
proof -
  have "gget 0 (bucket_sums run (source_string src) d) (k, t) =
    (\<Sum>p\<leftarrow>filter (\<lambda>p. sr_source (snd p) = source_string src \<and> sr_scope (snd p) = ScopeIn \<and>
       rm_target (fst p) = Some t \<and> rm_ref (fst p) = k) (mapped_rows run d). rm_amount (fst p))"
    unfolding bucket_sums_def gget_group_by filter_filter
    using assms(4) by (intro sum_filter_restrict) (auto simp: coalesce_def split: option.splits)
  with stored_target_sum[OF assms, of "\<lambda>r. r = k"] show ?thesis by simp
qed

lemma bucket_sums_fields: "(k, []) \<notin> set (gkeys (bucket_sums run x d))"
  by (auto simp: bucket_sums_def group_by_def coalesce_def split: option.splits)

lemma bucket_sums_distinct: "distinct (gkeys (bucket_sums run x d))"
  by (simp add: bucket_sums_def)

text \<open>The sums of both sources under a key agree, since those of every group in scope do.\<close>

lemma scoped_sums_agree:
  assumes "BuildGroups ps ss = Inr gs" and "rows_ok sid ps ss" and "strict_gate s gs = None"
  shows "(\<Sum>m\<leftarrow>filter (\<lambda>m. scoped SourcePayment m \<and> m_Key m = k) (ps @ ss). routed_to t m) =
    (\<Sum>m\<leftarrow>filter (\<lambda>m. scoped SourceSettlement m \<and> m_Key m = k) (ps @ ss). routed_to t m)"
proof -
  let ?gs = "filter (\<lambda>g. g_Scope g = ScopeIn \<and> g_Key g = k) gs"
  have none: "filter (\<lambda>m. scoped SourcePayment m \<and> m_Key m = k) ss = []"
    "filter (\<lambda>m. scoped SourceSettlement m \<and> m_Key m = k) ps = []"
    by (rule no_other_source; use assms(2) in \<open>simp add: rows_ok_def\<close>)+
  have p: "(\<Sum>m\<leftarrow>filter (\<lambda>m. scoped SourcePayment m \<and> m_Key m = k) ps. routed_to t m) =
      (\<Sum>g\<leftarrow>?gs. \<Sum>r\<leftarrow>filter (member_of g) ps. routed_to t r)"
    by (rule scoped_key_sum[OF assms(1)]) (use assms(2) in \<open>auto simp: rows_ok_def\<close>)
  have q: "(\<Sum>m\<leftarrow>filter (\<lambda>m. scoped SourceSettlement m \<and> m_Key m = k) ss. routed_to t m) =
      (\<Sum>g\<leftarrow>?gs. \<Sum>r\<leftarrow>filter (member_of g) ss. routed_to t r)"
    by (rule scoped_key_sum[OF assms(1)]) (use assms(2) in \<open>auto simp: rows_ok_def\<close>)
  have "(\<Sum>r\<leftarrow>filter (member_of g) ps. routed_to t r) = (\<Sum>r\<leftarrow>filter (member_of g) ss. routed_to t r)"
    if "g \<in> set ?gs" for g
  proof -
    from that have g: "g \<in> set gs" "g_Scope g = ScopeIn" by simp_all
    have "group_gate g = None" by (rule strict_gate_groups[OF assms(3) g(1)])
    with g(2) show ?thesis
      using BuildGroups_sums(3,4)[OF assms(1) g(1), of t] group_gate_buckets[of g t] by simp
  qed
  from arg_cong[where f = sum_list, OF map_cong[OF refl this]]
  have "(\<Sum>g\<leftarrow>?gs. \<Sum>r\<leftarrow>filter (member_of g) ps. routed_to t r) =
      (\<Sum>g\<leftarrow>?gs. \<Sum>r\<leftarrow>filter (member_of g) ss. routed_to t r)" .
  with p q none show ?thesis by simp
qed

lemma rows_ok_all:
  assumes "rows_ok sid ps ss"
  shows "\<forall>m \<in> set (ps @ ss). row_Source (m_Row m) \<in> {SourcePayment, SourceSettlement} \<and>
    (\<forall>c \<in> set (m_Contributions m). con_Key c = m_Key m \<and> (con_Target c = [] \<or> TrimSpace (con_Target c) \<noteq> []))"
  using assms by (auto simp: rows_ok_def)

lemma bucket_mismatches_0:
  assumes "BuildGroups ps ss = Inr gs" and "rows_ok sid ps ss" and "strict_gate s gs = None"
    and "map pair_view (mapped_rows run d) = map contribution_view (row_contributions (ps @ ss))"
  shows "bucket_mismatches run d = 0"
proof -
  have "gget 0 (bucket_sums run ''payment'' d) (k, t) = gget 0 (bucket_sums run ''settlement'' d) (k, t)" for k t
  proof (cases "t = []")
    case True
    then show ?thesis using bucket_sums_fields by (simp add: gget_missing ghas_keys)
  next
    case False
    note b = bucket_sum[OF rows_ok_all[OF assms(2)] assms(4) _ False, of _ k]
    show ?thesis
      using b[of SourcePayment] b[of SourceSettlement] scoped_sums_agree[OF assms(1-3), of t k] by simp
  qed
  then show ?thesis
    by (simp add: bucket_mismatches_def differences_zero bucket_sums_distinct split_paired_all)
qed

section \<open>The header query\<close>

lemma sum_mset_cong:
  fixes f :: "'a \<Rightarrow> int"
  assumes "mset xs = mset ys"
  shows "(\<Sum>x\<leftarrow>filter P xs. f x) = (\<Sum>y\<leftarrow>filter P ys. f y)"
proof -
  have "mset (map f (filter P xs)) = mset (map f (filter P ys))" by (simp add: assms)
  then show ?thesis by (metis sum_mset_sum_list)
qed

lemma activity_row:
  assumes "row_Source r = SourcePayment \<or>
      row_Source r = SourceSettlement \<and> row_HasRecon r \<and> (row_Scope r = ScopeIn \<longrightarrow> row_SettlementID r = sid)"
    and "TrimSpace sid \<noteq> []"
  shows "(if sr_source (stored_row run files keys r) = ''settlement'' \<and>
        sr_kind (stored_row run files keys r) = RowTransaction \<and>
        sr_scope (stored_row run files keys r) = ScopeIn \<and>
        sr_settlement (stored_row run files keys r) = Some sid
      then case sr_recon (stored_row run files keys r) of None \<Rightarrow> 0 | Some a \<Rightarrow> a else 0) =
    (if row_Source r = SourceSettlement \<and> row_Kind r = RowTransaction \<and> row_Scope r = ScopeIn
     then sint (row_ReconAmount r) else 0)"
  using assms(1)
proof (elim disjE conjE)
  assume "row_Source r = SourcePayment"
  then show ?thesis by simp
next
  assume r: "row_Source r = SourceSettlement" "row_HasRecon r"
    "row_Scope r = ScopeIn \<longrightarrow> row_SettlementID r = sid"
  show ?thesis
  proof (cases "row_Scope r = ScopeIn")
    case True
    with r(3) have "nullable (row_SettlementID r) = Some sid" using assms(2) by simp
    with r(1,2) True show ?thesis by simp
  next
    case False
    then show ?thesis by simp
  qed
qed

lemma header_mismatches_0:
  assumes "rows_ok sid ps ss" and "control_ok sid ss"
    and "mset (rows_of_run run d) = mset (map (stored_row run files keys \<circ> m_Row) (ps @ ss))"
    and "filter (\<lambda>c. cr_run c = run) (db_controls d) =
      map (control_of run keys) (filter (is_control sid) (map m_Row (ps @ ss)))"
  shows "header_mismatches run sid d = 0"
proof -
  obtain r where r: "filter (\<lambda>r. row_Kind r = RowMetadata \<and> row_SettlementID r = sid) (map m_Row ss) = [r]"
    "sint (row_ReconAmount r) = (\<Sum>m\<leftarrow>filter scoped_transaction ss. sint (row_ReconAmount (m_Row m)))"
    using assms(2) unfolding control_ok_def by blast
  have "filter (is_control sid) (map m_Row ps) = []"
    using assms(1) by (auto simp: rows_ok_def is_control_def filter_empty_conv)
  moreover have "filter (is_control sid) (map m_Row ss) =
      filter (\<lambda>r. row_Kind r = RowMetadata \<and> row_SettlementID r = sid) (map m_Row ss)"
    using assms(1) by (intro filter_cong) (auto simp: rows_ok_def is_control_def)
  ultimately have "filter (\<lambda>c. cr_run c = run) (db_controls d) = [control_of run keys r]"
    using assms(4) r(1) by simp
  moreover have "row_SettlementID r = sid"
    using r(1) by (metis (mono_tags, lifting) filter_eq_ConsD)
  ultimately have cs: "filter (\<lambda>c. cr_run c = run \<and> cr_settlement c = sid) (db_controls d) = [control_of run keys r]"
    using filter_filter[of "\<lambda>c. cr_settlement c = sid" "\<lambda>c. cr_run c = run" "db_controls d"]
    by (simp add: control_of_def)
  let ?P = "\<lambda>r. sr_source r = ''settlement'' \<and> sr_kind r = RowTransaction \<and> sr_scope r = ScopeIn \<and>
      sr_settlement r = Some sid"
  let ?f = "\<lambda>r. case sr_recon r of None \<Rightarrow> 0 | Some a \<Rightarrow> a"
  have "settlement_activity run sid d = (\<Sum>r\<leftarrow>filter ?P (map (stored_row run files keys \<circ> m_Row) (ps @ ss)). ?f r)"
    unfolding settlement_activity_def by (rule sum_mset_cong[OF assms(3)])
  also have "\<dots> = (\<Sum>m\<leftarrow>filter (\<lambda>m. ?P (stored_row run files keys (m_Row m))) (ps @ ss).
      ?f (stored_row run files keys (m_Row m)))"
    by (simp add: filter_map comp_def)
  also have "\<dots> = (\<Sum>m\<leftarrow>filter (\<lambda>m. row_Source (m_Row m) = SourceSettlement \<and> scoped_transaction m) (ps @ ss).
      sint (row_ReconAmount (m_Row m)))"
  proof (rule sum_filter_restrict)
    fix m assume "m \<in> set (ps @ ss)"
    then have "row_Source (m_Row m) = SourcePayment \<or>
        row_Source (m_Row m) = SourceSettlement \<and> row_HasRecon (m_Row m) \<and>
        (row_Scope (m_Row m) = ScopeIn \<longrightarrow> row_SettlementID (m_Row m) = sid)"
      and "TrimSpace sid \<noteq> []"
      using assms(1) unfolding rows_ok_def set_append by blast+
    then show "(if ?P (stored_row run files keys (m_Row m)) then ?f (stored_row run files keys (m_Row m)) else 0) =
        (if row_Source (m_Row m) = SourceSettlement \<and> scoped_transaction m
         then sint (row_ReconAmount (m_Row m)) else 0)"
      unfolding scoped_transaction_def by (rule activity_row)
  qed
  also have "\<dots> = (\<Sum>m\<leftarrow>filter scoped_transaction ss. sint (row_ReconAmount (m_Row m)))"
  proof -
    have "row_Source (m_Row m) \<noteq> SourceSettlement" if "m \<in> set ps" for m
      using assms(1) that by (simp add: rows_ok_def)
    then have "filter (\<lambda>m. row_Source (m_Row m) = SourceSettlement \<and> scoped_transaction m) ps = []"
      unfolding filter_empty_conv by blast
    moreover have "row_Source (m_Row m) = SourceSettlement" if "m \<in> set ss" for m
      using assms(1) that by (simp add: rows_ok_def)
    then have "filter (\<lambda>m. row_Source (m_Row m) = SourceSettlement \<and> scoped_transaction m) ss =
        filter scoped_transaction ss"
      by (intro filter_cong refl) blast
    ultimately show ?thesis by (simp only: filter_append append_Nil)
  qed
  finally have "settlement_activity run sid d = sint (row_ReconAmount r)" using r(2) by simp
  with \<open>row_SettlementID r = sid\<close> show ?thesis
    by (simp add: header_mismatches_def cs Let_def control_of_def)
qed


section \<open>Members and groups\<close>

lemma duplicate_members_0:
  assumes "distinct (member_ids run d)"
  shows "duplicate_members run d = 0"
proof -
  have "count_list xs i = 1" if "distinct xs" "i \<in> set xs" for xs :: "int list" and i
    using that by (induction xs) auto
  with assms show ?thesis by (simp add: duplicate_members_def Let_def)
qed

lemma all_group_rows:
  assumes "BuildGroups ps ss = Inr gs"
  shows "(\<Sum>g\<leftarrow>gs. int (length (g_PaymentRows g) + length (g_SettlementRows g))) =
    int (length (filter (\<lambda>m. row_Kind (m_Row m) = RowTransaction) (ps @ ss)))"
proof -
  have len: "int (length (filter (member_of g) rs)) = (\<Sum>r\<leftarrow>filter (member_of g) rs. 1)" for g and rs :: "'a mapped list"
    by (simp add: sum_list_triv)
  have sum: "(\<Sum>g\<leftarrow>gs. \<Sum>r\<leftarrow>filter (member_of g) rs. 1) =
      int (length (filter (\<lambda>m. row_Kind (m_Row m) = RowTransaction) rs))" if "set rs \<subseteq> set (ps @ ss)" for rs
    using BuildGroups_select_sum[OF assms that, of "\<lambda>_. True" "\<lambda>_. True" "\<lambda>_. 1"] by (simp add: sum_list_triv)
  have "length (g_PaymentRows g) = length (filter (member_of g) ps)"
    "length (g_SettlementRows g) = length (filter (member_of g) ss)" if "g \<in> set gs" for g
    using BuildGroups_rows[OF assms that] by (metis length_map size_mset)+
  then have "(\<Sum>g\<leftarrow>gs. int (length (g_PaymentRows g) + length (g_SettlementRows g))) =
      (\<Sum>g\<leftarrow>gs. (\<Sum>r\<leftarrow>filter (member_of g) ps. 1) + (\<Sum>r\<leftarrow>filter (member_of g) ss. 1))"
    by (intro arg_cong[where f = sum_list] map_cong refl) (simp add: len)
  also have "\<dots> = int (length (filter (\<lambda>m. row_Kind (m_Row m) = RowTransaction) (ps @ ss)))"
    using sum[of ps] sum[of ss] by (simp add: sum_list_addf)
  finally show ?thesis .
qed

lemma int_sum_list: "int (\<Sum>x\<leftarrow>xs. f x) = (\<Sum>x\<leftarrow>xs. int (f x))"
  by (induction xs) simp_all

lemma length_members:
  assumes "filter (\<lambda>m. me_run m = run) (db_members d) = concat (map (members_of run keys) (zip ids gs))"
    and "length ids = length gs"
  shows "int (length (member_ids run d)) = (\<Sum>g\<leftarrow>gs. int (length (g_PaymentRows g) + length (g_SettlementRows g)))"
proof -
  let ?w = "\<lambda>g. length (g_PaymentRows g) + length (g_SettlementRows g)"
  have "length (member_ids run d) = (\<Sum>x\<leftarrow>zip ids gs. ?w (snd x))"
    by (simp add: member_ids_def assms(1) length_concat members_of_def comp_def)
  also have "\<dots> = (\<Sum>g\<leftarrow>map snd (zip ids gs). ?w g)" by (simp only: map_map comp_def)
  also have "\<dots> = (\<Sum>g\<leftarrow>gs. ?w g)" by (simp only: map_snd_zip assms(2))
  finally show ?thesis by (simp only: int_sum_list)
qed

lemma count_transactions:
  assumes "mset (rows_of_run run d) = mset (map (stored_row run files keys \<circ> m_Row) all)"
  shows "count_where (\<lambda>x. sr_kind x = RowTransaction) (rows_of_run run d) =
    int (length (filter (\<lambda>m. row_Kind (m_Row m) = RowTransaction) all))"
proof -
  have "mset (filter (\<lambda>x. sr_kind x = RowTransaction) (rows_of_run run d)) =
      mset (filter (\<lambda>x. sr_kind x = RowTransaction) (map (stored_row run files keys \<circ> m_Row) all))"
    by (simp add: assms)
  from arg_cong[OF this, of size] show ?thesis
    by (simp add: count_where_def filter_map comp_def del: mset_filter)
qed

definition unequal_amounts :: "group \<Rightarrow> bool" where
  "unequal_amounts g \<longleftrightarrow>
     g_PaymentRows g \<noteq> [] \<and> g_SettlementRows g \<noteq> [] \<and> g_PaymentAmount g \<noteq> g_SettlementAmt g"

lemma stored_status_reconciled:
  "stored_status g = StatusReconciled \<longleftrightarrow> g_PaymentRows g \<noteq> [] \<and> g_SettlementRows g \<noteq> []"
  by (simp add: stored_status_def)

lemma amount_mismatches_0:
  assumes "filter (\<lambda>g. gr_run g = run) (db_groups d) = with_ids gids (group_row_of run) gs"
  shows "amount_mismatches run d = 0 \<longleftrightarrow> (\<forall>g \<in> set gs. \<not> unequal_amounts g)"
proof -
  let ?P = "\<lambda>g. gr_status g = StatusReconciled \<and> gr_payment_amount g \<noteq> gr_settlement_amount g"
  have "amount_mismatches run d = 0 \<longleftrightarrow> (\<forall>g \<in> set (with_ids gids (group_row_of run) gs). \<not> ?P g)"
    unfolding amount_mismatches_def count_where_0 by (simp flip: assms) blast
  also have "\<dots> \<longleftrightarrow> True \<notin> set (map ?P (with_ids gids (group_row_of run) gs))" by auto
  also have "map ?P (with_ids gids (group_row_of run) gs) = map unequal_amounts gs"
    by (rule map_with_ids) (auto simp: group_row_of_def unequal_amounts_def stored_status_reconciled dest: sint_eqD)
  finally show ?thesis by auto
qed


section \<open>The verdict\<close>

lemma check_run_None:
  assumes "rv_Mode v = Strict" and "rv_Stage v = REPORTED" and "rv_Status v = PASS"
    and "rv_IssueRows v = 0" and "rv_SummaryMismatches v = 0" and "rv_BucketMismatches v = 0"
    and "rv_HeaderMismatches v = 0" and "rv_MemberRows v = rv_TransactionRows v"
  shows "check_run expected v = None \<longleftrightarrow>
    (expected \<le> 0 \<or> expected = rv_SourceRows v) \<and> rv_AmountMismatches v = 0"
  using assms by (auto simp: check_run_def)

lemma strict_tables_verified:
  assumes tables: "run_view run sid (ps @ ss) gs s [] d" and groups: "BuildGroups ps ss = Inr gs"
    and rows: "rows_ok sid ps ss" and summary: "summary_ok (ps @ ss) s" and control: "control_ok sid ss"
    and gate: "strict_gate s gs = None"
    and row: "find (\<lambda>r. run_id r = run) (rt_rows (db_runs d)) = Some r"
      "run_stage r = REPORTED" "run_mode r = Strict" "run_status r = PASS" "run_selected r = sid"
  shows "(\<exists>v. VerifyRun d run expected = Inr v) \<longleftrightarrow>
    (expected \<le> 0 \<or> expected = int (length (ps @ ss))) \<and> (\<forall>g \<in> set gs. \<not> unequal_amounts g)"
proof -
  obtain files keys cd ids gids where
    t1: "mset (rows_of_run run d) = mset (map (stored_row run files keys \<circ> m_Row) (ps @ ss))" and
    t2: "map pair_view (mapped_rows run d) = map contribution_view (row_contributions (ps @ ss))" and
    t4: "filter (\<lambda>c. cr_run c = run) (db_controls d) =
      map (control_of run keys) (filter (is_control sid) (map m_Row (ps @ ss)))" and
    t6: "filter (\<lambda>g. gr_run g = run) (db_groups d) = with_ids gids (group_row_of run) gs" and
    t7: "length ids = length gs" and
    t8: "filter (\<lambda>m. me_run m = run) (db_members d) = concat (map (members_of run keys) (zip ids gs))" and
    t9: "distinct (member_ids run d)" and
    t10: "filter (\<lambda>x. fst x = run) (db_issues d) = map (Pair run) []"
    using tables unfolding run_view_def by blast
  let ?v = "run_counts run r d"
  have members: "rv_MemberRows ?v = rv_TransactionRows ?v"
    using length_members[OF t8 t7] all_group_rows[OF groups] count_transactions[OF t1]
    by (simp add: run_counts_def Let_def)
  have length: "rv_SourceRows ?v = int (length (ps @ ss))"
    using arg_cong[OF t1, of size] by (simp add: run_counts_def Let_def)
  have "check_run expected ?v = None \<longleftrightarrow>
      (expected \<le> 0 \<or> expected = rv_SourceRows ?v) \<and> rv_AmountMismatches ?v = 0"
  proof (rule check_run_None)
    show "rv_SummaryMismatches ?v = 0"
      using summary_mismatches_0[OF rows_ok_all[OF rows] tables summary] by (simp add: run_counts_def Let_def)
    show "rv_BucketMismatches ?v = 0"
      using bucket_mismatches_0[OF groups rows gate t2] by (simp add: run_counts_def Let_def)
    show "rv_HeaderMismatches ?v = 0"
      using header_mismatches_0[OF rows control t1 t4] by (simp add: run_counts_def Let_def row)
    show "rv_IssueRows ?v = 0" using t10 by (simp add: run_counts_def Let_def count_where_def)
  qed (use row members in \<open>simp_all add: run_counts_def Let_def\<close>)
  moreover have "rv_AmountMismatches ?v = 0 \<longleftrightarrow> (\<forall>g \<in> set gs. \<not> unequal_amounts g)"
    using amount_mismatches_0[OF t6] by (simp add: run_counts_def Let_def)
  moreover have "(\<exists>v. VerifyRun d run expected = Inr v) \<longleftrightarrow> check_run expected ?v = None"
    using row(1) duplicate_members_0[OF t9] by (auto simp: VerifyRun_def Let_def split: option.splits)
  ultimately show ?thesis unfolding length by simp
qed

end
