(* ===== verification/Pipeline.thy ===== *)
theory Pipeline
  imports Report Verify_Run
begin

text \<open>
  \<open>run\<close> of \<open>cmd/recon/main.go\<close>: how a run composes the components. \<open>reconcile_rows\<close> is its
  computation once the rules are known; \<open>run\<close> adds the options, the choice of the rules, the report
  and the database. Outside the program, and so parameters, are the file systems, paths, the
  publishing of workbooks, the hash function and the database system; opening and migrating the
  database is an outcome. Printing and the memory marks change nothing.
\<close>

section \<open>The computation\<close>

datatype run_failure =
    FlagMode string
  | FlagRequired string
  | PathFailure io_error
  | OverwritesInput string
  | DatabaseOpen io_error
  | RunIngest ingest_error
  | NeedsDatabase
  | RunVersion frozen_error
  | IncompleteVersion string
  | RunConfig config_error
  | RunFileInfo io_error
  | RunMap map_error
  | RunGroups group_error
  | SelectedMetadata string nat
  | RunActivity money_error
  | HeaderMismatch string string
  | RunDirectory io_error
  | RunWrite write_error
  | RunVerify verify_error
  | RunPersist persist_error
  | RunRegister report_failure

definition releaseRawMaps :: "'i mapped list \<Rightarrow> 'i mapped list" where
  "releaseRawMaps rows =
     map (\<lambda>m. if row_Kind (m_Row m) = RowMetadata then m
              else m\<lparr>m_Row := (m_Row m)\<lparr>row_Raw := Map.empty, row_Canonical := Map.empty\<rparr>\<rparr>) rows"

definition merge_left :: "string \<times> (source, int64) gomap \<Rightarrow> buckets \<Rightarrow> buckets" where
  "merge_left b out =
     gput (fst b) [(SourcePayment, gget 0 (snd b) SourcePayment),
       (SourceSettlement, gget 0 (snd b) SourceSettlement)] out"

definition merge_right :: "string \<times> (source, int64) gomap \<Rightarrow> buckets \<Rightarrow> buckets" where
  "merge_right b out =
     gput (fst b) (gput SourceSettlement (gget 0 (snd b) SourceSettlement) (gget [] out (fst b))) out"

definition mergeSummary :: "summary \<Rightarrow> summary \<Rightarrow> summary" where
  "mergeSummary a b =
     \<lparr>Buckets = fold merge_right (Buckets b) (fold merge_left (Buckets a) [])\<rparr>"

text \<open>The header of the selected settlement, from its only control row.\<close>

definition selected_control :: "string \<Rightarrow> raw_row list \<Rightarrow> run_failure + int64 \<times> string" where
  "selected_control sid s =
     (let ms = filter (\<lambda>r. row_Kind r = RowMetadata \<and> row_SettlementID r = sid) s
      in if length ms \<noteq> 1 then Inl (SelectedMetadata sid (length ms))
         else Inr (row_ReconAmount (last ms), row_Currency (last ms)))"

definition add_activity :: "raw_row \<Rightarrow> int64 \<Rightarrow> money_error + int64" where
  "add_activity r a =
     (if row_Kind r = RowTransaction \<and> row_Scope r = ScopeIn then Add a (row_ReconAmount r) else Inr a)"

definition check_header :: "string \<Rightarrow> raw_row list \<Rightarrow> run_failure + int64 \<times> string" where
  "check_header sid s =
     (case selected_control sid s of Inl e \<Rightarrow> Inl e
      | Inr (head, currency) \<Rightarrow>
     (case foldE add_activity s 0 of Inl e \<Rightarrow> Inl (RunActivity e)
      | Inr activity \<Rightarrow>
          if head \<noteq> activity then Inl (HeaderMismatch (FormatCents activity) (FormatCents head))
          else Inr (head, currency)))"

record computed =
  co_result :: "issue run_result"
  co_sinfo :: file_info
  co_settlement_rows :: nat

text \<open>From the classified payment rows and the rules of both sources to the result.\<close>

definition reconcile_rows ::
  "input_fs \<Rightarrow> string \<Rightarrow> string \<Rightarrow> mode \<Rightarrow> config_rule list \<Rightarrow> config_rule list \<Rightarrow> raw_row list \<Rightarrow>
     run_failure + computed" where
  "reconcile_rows fs settlements sid m pr sr p =
     (case Map \<lparr>Rules = pr, Mode = m\<rparr> p of Inl e \<Rightarrow> Inl (RunMap e)
      | Inr (pe, psum, pissues) \<Rightarrow>
     (case ParseSettlements fs settlements of Inl e \<Rightarrow> Inl (RunIngest e)
      | Inr (s0, sinfo) \<Rightarrow>
     (let s = Classify s0 sid
      in case Map \<lparr>Rules = sr, Mode = m\<rparr> s of Inl e \<Rightarrow> Inl (RunMap e)
      | Inr (se, ssum, sissues) \<Rightarrow>
     (case BuildGroups (releaseRawMaps pe) se of Inl e \<Rightarrow> Inl (RunGroups e)
      | Inr gs \<Rightarrow>
     (case check_header sid s of Inl e \<Rightarrow> Inl e
      | Inr (head, currency) \<Rightarrow>
          Inr \<lparr>co_result =
                 \<lparr>res_PaymentRows = releaseRawMaps pe, res_SettlementRows = releaseRawMaps se,
                  res_Groups = gs, res_Summary = mergeSummary psum ssum,
                  res_SettlementHeader = head, res_SettlementCurrency = currency,
                  res_Issues = pissues @ sissues\<rparr>,
               co_sinfo = sinfo, co_settlement_rows = length s\<rparr>)))))"

section \<open>A run\<close>

record options =
  opt_payments :: string
  opt_settlements :: string
  opt_payment_config :: string
  opt_settlement_config :: string
  opt_settlement_id :: string
  opt_output :: string
  opt_mode :: string
  opt_database :: bool
  opt_run_name :: string
  opt_config_version :: string
  opt_retry :: bool

record environment =
  env_inputs :: input_fs
  env_configs :: file_system
  env_info :: "string \<Rightarrow> io_error + file_info"
  env_abs :: "string \<Rightarrow> io_error + string"
  env_clean :: "string \<Rightarrow> string"
  env_dir :: "string \<Rightarrow> string"
  env_base :: "string \<Rightarrow> string"
  env_mkdir :: "string \<Rightarrow> io_error option"
  env_open_db :: "io_error option"
  env_publisher :: publisher
  env_issue_text :: "issue \<Rightarrow> string"
  env_error_text :: "persist_error \<Rightarrow> string"
  env_sha :: "string \<Rightarrow> string"
  env_config_db :: dbms
  env_run_db :: dbms
  env_config_commit :: commit_outcome
  env_claim_commit :: commit_outcome
  env_run_commit :: commit_outcome
  env_report_commit :: commit_outcome

record world =
  w_books :: book_files
  w_database :: database
  w_artifacts :: artifacts

fun first_required :: "(string \<times> string) list \<Rightarrow> run_failure option" where
  "first_required [] = None"
| "first_required ((k, v) # kvs) = (if v = [] then Some (FlagRequired k) else first_required kvs)"

definition samePath :: "environment \<Rightarrow> string \<Rightarrow> string \<Rightarrow> io_error + bool" where
  "samePath env a b =
     (case env_abs env a of Inl e \<Rightarrow> Inl e
      | Inr aa \<Rightarrow> (case env_abs env b of Inl e \<Rightarrow> Inl e
                 | Inr bb \<Rightarrow> Inr (env_clean env aa = env_clean env bb)))"

fun check_paths :: "environment \<Rightarrow> string \<Rightarrow> string list \<Rightarrow> run_failure option" where
  "check_paths env out [] = None"
| "check_paths env out (p # ps) =
     (if p = [] then check_paths env out ps
      else case samePath env p out of Inl e \<Rightarrow> Some (PathFailure e)
      | Inr same \<Rightarrow> if same then Some (OverwritesInput p) else check_paths env out ps)"

text \<open>The checks of the options, in the order of the source.\<close>

definition check_options :: "environment \<Rightarrow> options \<Rightarrow> run_failure option" where
  "check_options env opts =
     (if opt_mode opts \<noteq> mode_string Diagnostic \<and> opt_mode opts \<noteq> mode_string Strict
      then Some (FlagMode (opt_mode opts))
      else case first_required [(''payments'', opt_payments opts), (''settlements'', opt_settlements opts),
             (''settlement-id'', opt_settlement_id opts)] of Some e \<Rightarrow> Some e
      | None \<Rightarrow>
     (case (if opt_config_version opts = []
            then first_required [(''payment-config'', opt_payment_config opts),
                   (''settlement-config'', opt_settlement_config opts)] else None) of Some e \<Rightarrow> Some e
      | None \<Rightarrow>
          check_paths env (opt_output opts) [opt_payments opts, opt_settlements opts,
            opt_payment_config opts, opt_settlement_config opts]))"

record rule_choice =
  ru_payment :: "config_rule list"
  ru_settlement :: "config_rule list"
  ru_version :: "frozen_config option"
  ru_files :: "(file_info \<times> file_info) option"

text \<open>The rules of a frozen version, by source.\<close>

definition version_rules :: "options \<Rightarrow> catalog \<Rightarrow> run_failure + rule_choice" where
  "version_rules opts c =
     (if \<not> opt_database opts then Inl NeedsDatabase
      else case LookupConfigVersion c (opt_config_version opts) of Inl e \<Rightarrow> Inl (RunVersion e)
      | Inr v \<Rightarrow>
          let rules = LoadRules c (fc_ID v);
              pr = filter (\<lambda>r. rule_Source r = SourcePayment) rules;
              sr = filter (\<lambda>r. rule_Source r = SourceSettlement) rules
          in if pr = [] \<or> sr = [] then Inl (IncompleteVersion (opt_config_version opts))
             else Inr \<lparr>ru_payment = pr, ru_settlement = sr, ru_version = Some v, ru_files = None\<rparr>)"

text \<open>The rules of two files; with a database they are imported first.\<close>

definition file_rules ::
  "environment \<Rightarrow> options \<Rightarrow> catalog \<Rightarrow> catalog \<times> (run_failure + rule_choice)" where
  "file_rules env opts c =
     (case LoadConfig (env_configs env) (opt_payment_config opts) SourcePayment of
        Inl e \<Rightarrow> (c, Inl (RunConfig e))
      | Inr pr \<Rightarrow>
     (case LoadConfig (env_configs env) (opt_settlement_config opts) SourceSettlement of
        Inl e \<Rightarrow> (c, Inl (RunConfig e))
      | Inr sr \<Rightarrow>
     (case env_info env (opt_payment_config opts) of Inl e \<Rightarrow> (c, Inl (RunFileInfo e))
      | Inr pf \<Rightarrow>
     (case env_info env (opt_settlement_config opts) of Inl e \<Rightarrow> (c, Inl (RunFileInfo e))
      | Inr sf \<Rightarrow>
          if opt_database opts then
            (case EnsureFrozenConfig (env_sha env) (env_config_db env) (env_config_commit env) []
                    ''automatically imported by recon run'' pf sf (pr @ sr) c of
               (c', Inl e) \<Rightarrow> (c', Inl (RunVersion e))
             | (c', Inr v) \<Rightarrow>
                 (c', Inr \<lparr>ru_payment = pr, ru_settlement = sr, ru_version = Some v,
                        ru_files = Some (pf, sf)\<rparr>))
          else (c, Inr \<lparr>ru_payment = pr, ru_settlement = sr, ru_version = None,
                    ru_files = Some (pf, sf)\<rparr>)))))"

definition choose_rules ::
  "environment \<Rightarrow> options \<Rightarrow> catalog \<Rightarrow> catalog \<times> (run_failure + rule_choice)" where
  "choose_rules env opts c =
     (if opt_config_version opts \<noteq> [] then (c, version_rules opts c) else file_rules env opts c)"

text \<open>The properties printed on the sheet of the run.\<close>

definition metadata ::
  "environment \<Rightarrow> options \<Rightarrow> file_info \<Rightarrow> nat \<Rightarrow> rule_choice \<Rightarrow> computed \<Rightarrow> (string, string) gomap" where
  "metadata env opts pinfo payment_rows ru c =
     [(''payments_file'', env_base env (info_Path pinfo)), (''payments_sha256'', info_SHA256 pinfo),
      (''settlements_file'', env_base env (info_Path (co_sinfo c))),
      (''settlements_sha256'', info_SHA256 (co_sinfo c)),
      (''settlement_id'', opt_settlement_id opts), (''mode'', opt_mode opts),
      (''payment_rows'', dec payment_rows), (''settlement_rows'', dec (co_settlement_rows c)),
      (''mapping_issues'', dec (length (res_Issues (co_result c))))] @
     (case ru_version ru of None \<Rightarrow> []
      | Some v \<Rightarrow>
          if 0 < fc_ID v
          then [(''config_version_id'', dec_int (fc_ID v)), (''config_version_name'', fc_Name v),
                (''config_version_sha256'', fc_ContentSHA256 v)] else []) @
     (case ru_files ru of None \<Rightarrow> []
      | Some (pf, sf) \<Rightarrow>
          if info_SHA256 pf \<noteq> []
          then [(''payment_config_file'', env_base env (info_Path pf)),
                (''payment_config_sha256'', info_SHA256 pf),
                (''settlement_config_file'', env_base env (info_Path sf)),
                (''settlement_config_sha256'', info_SHA256 sf)] else [])"

text \<open>The report, and in strict mode its verification.\<close>

definition publish ::
  "environment \<Rightarrow> options \<Rightarrow> mode \<Rightarrow> computed \<Rightarrow> (string, string) gomap \<Rightarrow> book_files \<Rightarrow>
     book_files \<times> run_failure option" where
  "publish env opts m c meta books =
     (let dir = env_dir env (opt_output opts)
      in case (if dir \<noteq> ''.'' then env_mkdir env dir else None) of Some e \<Rightarrow> (books, Some (RunDirectory e))
      | None \<Rightarrow>
     (case Write (env_publisher env) (env_issue_text env) (opt_output opts) (co_result c) meta books of
        (books', Some e) \<Rightarrow> (books', Some (RunWrite e))
      | (books', None) \<Rightarrow>
          if m = Strict then
            (case Verify (open_in books') (opt_output opts) of Some e \<Rightarrow> (books', Some (RunVerify e))
             | None \<Rightarrow> (books', None))
          else (books', None)))"

text \<open>Persisting the result and registering the report.\<close>

definition persist_run ::
  "environment \<Rightarrow> options \<Rightarrow> mode \<Rightarrow> file_info \<Rightarrow> rule_choice \<Rightarrow> computed \<Rightarrow> world \<Rightarrow>
     world \<times> (run_failure + int)" where
  "persist_run env opts m pinfo ru c w =
     (case Persist (env_sha env) (env_run_db env) (env_error_text env) (env_claim_commit env)
             (env_run_commit env) (opt_run_name opts) (opt_settlement_id opts) m
             (case ru_version ru of None \<Rightarrow> 0 | Some v \<Rightarrow> fc_ID v) (opt_retry opts) pinfo (co_sinfo c)
             (res_PaymentRows (co_result c)) (res_SettlementRows (co_result c))
             (res_Groups (co_result c)) (res_Summary (co_result c))
             (ru_payment ru @ ru_settlement ru) (map (env_issue_text env) (res_Issues (co_result c)))
             (w_database w) of
        (d, Inl e) \<Rightarrow> (w\<lparr>w_database := d\<rparr>, Inl (RunPersist e))
      | (d, Inr i) \<Rightarrow>
          (case RegisterReport (env_info env) (env_report_commit env) i ''reconciliation''
                  (opt_output opts)
                  \<lparr>runs = db_runs d, workers = {}, contents = {}, artifacts = w_artifacts w\<rparr> of
             (s, e) \<Rightarrow>
               (w\<lparr>w_database := d\<lparr>db_runs := runs s\<rparr>, w_artifacts := artifacts s\<rparr>,
                case e of Some e \<Rightarrow> Inl (RunRegister e) | None \<Rightarrow> Inr i)))"

definition run_mode_of :: "options \<Rightarrow> mode" where
  "run_mode_of opts = (if opt_mode opts = mode_string Strict then Strict else Diagnostic)"

definition set_catalog :: "catalog \<Rightarrow> world \<Rightarrow> world" where
  "set_catalog c w = w\<lparr>w_database := (w_database w)\<lparr>db_catalog := c\<rparr>\<rparr>"

text \<open>The run returns its result, and the id of the persisted run if there is one.\<close>

definition run :: "environment \<Rightarrow> options \<Rightarrow> world \<Rightarrow> world \<times> (run_failure + computed \<times> int option)" where
  "run env opts w =
     (case check_options env opts of Some e \<Rightarrow> (w, Inl e)
      | None \<Rightarrow>
     (case (if opt_database opts then env_open_db env else None) of Some e \<Rightarrow> (w, Inl (DatabaseOpen e))
      | None \<Rightarrow>
     (case ParsePayments (env_inputs env) (opt_payments opts) of Inl e \<Rightarrow> (w, Inl (RunIngest e))
      | Inr (p0, pinfo) \<Rightarrow>
     (case choose_rules env opts (db_catalog (w_database w)) of
        (cat, Inl e) \<Rightarrow> (set_catalog cat w, Inl e)
      | (cat, Inr ru) \<Rightarrow>
     (let w = set_catalog cat w; m = run_mode_of opts
      in case reconcile_rows (env_inputs env) (opt_settlements opts) (opt_settlement_id opts) m
             (ru_payment ru) (ru_settlement ru) (Classify p0 (opt_settlement_id opts)) of
        Inl e \<Rightarrow> (w, Inl e)
      | Inr c \<Rightarrow>
     (case publish env opts m c (metadata env opts pinfo (length p0) ru c) (w_books w) of
        (books, Some e) \<Rightarrow> (w\<lparr>w_books := books\<rparr>, Inl e)
      | (books, None) \<Rightarrow>
          let w = w\<lparr>w_books := books\<rparr>
          in if opt_database opts then
               (case persist_run env opts m pinfo ru c w of
                  (w', Inl e) \<Rightarrow> (w', Inl e)
                | (w', Inr i) \<Rightarrow> (w', Inr (c, Some i)))
             else (w, Inr (c, None))))))))"

end
