(* ===== verification/Pipeline_Props.thy ===== *)
theory Pipeline_Props
  imports Pipeline Verify_Props Ingest_Props
begin

text \<open>
  What the computation of a strict run establishes of its rows, groups and summary, so that the
  facts on the tables of a run apply to it, and the run as a whole: a run that publishes a report
  is balanced, and \<open>VerifyRun\<close> accepts it exactly when its groups outside the selected settlement
  happen to agree as well.
\<close>

section \<open>Targets of contributions\<close>

lemma known_field_trims: "t \<in> set knownSummaryFields \<Longrightarrow> TrimSpace t \<noteq> []"
proof -
  have "list_all (\<lambda>t. TrimSpace t \<noteq> []) knownSummaryFields" by code_simp
  then show "t \<in> set knownSummaryFields \<Longrightarrow> TrimSpace t \<noteq> []" by (auto simp: list_all_iff)
qed

lemma check_rules_None: "check_rules rs = None \<longleftrightarrow> (\<forall>r \<in> set rs. check_rule r = None)"
  by (induction rs) (auto split: option.splits)

lemma checked_target:
  assumes "check_rules rs = None" and "r \<in> set rs"
  shows "target_of r a = [] \<or> TrimSpace (target_of r a) \<noteq> []"
proof -
  have "known_targets r"
    using assms by (auto simp: check_rules_None check_rule_def unknown_target_None split: if_splits)
  then show ?thesis
    by (auto simp: known_targets_def target_of_def KnownSummaryField_def dest!: known_field_trims)
qed

section \<open>Strictly mapped rows\<close>

definition mapped_ok :: "'i mapped \<Rightarrow> bool" where
  "mapped_ok m \<longleftrightarrow>
     (\<forall>c \<in> set (m_Contributions m). con_Key c = m_Key m \<and> (con_Target c = [] \<or> TrimSpace (con_Target c) \<noteq> []))"

lemma select_rules_subset: "set (select_rules e row) \<subseteq> set (Rules e)"
  using select_rules_mem by blast

lemma mapRow_ok:
  assumes "mapRow e row = (m, None)" and "check_rules (Rules e) = None"
  shows "mapped_ok m"
proof (cases "row_Kind row")
  case RowMetadata
  with assms(1) show ?thesis by (auto simp: mapRow_metadata unmapped_def mapped_ok_def)
next
  case RowTransaction
  have "con_Key c = m_Key m" if "c \<in> set (m_Contributions m)" for c
    using mapRow_one_key[OF assms(1) RowTransaction] that by (auto simp: one_key_def list_all_iff split: if_splits)
  moreover have "con_Target c = [] \<or> TrimSpace (con_Target c) \<noteq> []" if "c \<in> set (m_Contributions m)" for c
  proof -
    have "con_Rule c \<in> set (Rules e)" "con_Target c = target_of (con_Rule c) (con_Amount c)"
      using mapRow_contributions[OF assms(1)] that select_rules_subset[of e row]
      by (auto simp: contribution_ok_target)
    with checked_target[OF assms(2)] show ?thesis by simp
  qed
  ultimately show ?thesis by (simp add: mapped_ok_def)
qed

lemma Map_strict:
  assumes "Map e rows = Inr (out, s, issues)" and "Mode e = Strict"
  shows "map m_Row out = rows" and "\<forall>m \<in> set out. mapped_ok m" and "issues = []"
    and "out = map (\<lambda>row. fst (mapRow e row)) rows"
    and "\<forall>row \<in> set rows. snd (mapRow e row) = None"
proof -
  note M = Map_Inr[OF assms(1)]
  show none: "\<forall>row \<in> set rows. snd (mapRow e row) = None" using M assms(2) by (simp add: list_all_iff)
  show out: "out = map (\<lambda>row. fst (mapRow e row)) rows"
    using M row_output_strict[OF assms(2)] none by auto
  have row: "m_Row (fst (mapRow e row)) = row" for row
    using mapRow_contributions[of e row "fst (mapRow e row)" "snd (mapRow e row)"] by simp
  show "map m_Row out = rows" by (simp add: out comp_def row)
  show "\<forall>m \<in> set out. mapped_ok m"
  proof
    fix m assume "m \<in> set out"
    then obtain row where "row \<in> set rows" "m = fst (mapRow e row)" using out by auto
    with none have "mapRow e row = (m, None)" by (metis prod.collapse)
    then show "mapped_ok m" using M by (blast intro: mapRow_ok)
  qed
  show "issues = []"
    using assms by (auto simp: Map_def split: if_splits option.splits sum.splits dest!: map_steps_strict_issues)
qed

section \<open>Summaries\<close>

definition buckets_ok :: "summary \<Rightarrow> bool" where
  "buckets_ok s \<longleftrightarrow> \<not> ghas (Buckets s) [] \<and> distinct (gkeys (Buckets s))"

lemma add_summary_ok:
  "add_summary p s = Inr s' \<Longrightarrow> routed (snd p) \<Longrightarrow> buckets_ok s \<Longrightarrow> buckets_ok s'"
  by (cases "ghas (Buckets s) (con_Target (snd p))") (auto simp: add_summary_Inr buckets_ok_def routed_def)

lemma Map_buckets:
  assumes "Map e rows = Inr (out, s, issues)"
  shows "buckets_ok s"
proof -
  have "foldE add_summary (concat (map (row_postings e) rows)) \<lparr>Buckets = []\<rparr> = Inr s"
    using Map_Inr[OF assms] by simp
  moreover have "routed (snd p)" if "p \<in> set (concat (map (row_postings e) rows))" for p
    using that by (auto simp: row_postings_def postings_def split: if_splits)
  ultimately show ?thesis
    using add_summary_ok by (elim foldE_invariant[where P = buckets_ok]) (auto simp: buckets_ok_def)
qed

lemma routed_to_all:
  "t \<noteq> [] \<Longrightarrow> routed_to t m = (\<Sum>c\<leftarrow>m_Contributions m. if con_Target c = t then sint (con_Amount c) else 0)"
  unfolding routed_to_def sum_list_map_filter'
  by (intro arg_cong[where f = sum_list] map_cong) (auto simp: routed_def)

lemma Map_scoped_sum:
  assumes "Map e rows = Inr (out, s, issues)" and "Mode e = Strict" and "t \<noteq> []"
  shows "sint (bucket s t src) = (\<Sum>m\<leftarrow>filter (scoped src) out. routed_to t m)"
proof -
  have "foldE add_summary (concat (map (row_postings e) rows)) \<lparr>Buckets = []\<rparr> = Inr s"
    using Map_Inr[OF assms(1)] by simp
  from summary_ledger.run_exact[OF this, of "(t, src)"]
  have "sint (bucket s t src) = (\<Sum>row\<leftarrow>rows. \<Sum>p\<leftarrow>row_postings e row.
      if post_account p = (t, src) then post_cents p else 0)"
    by (simp add: bucket_cents_def bucket_def sum_list_concat_map)
  also have "\<dots> = (\<Sum>row\<leftarrow>rows. if scoped src (fst (mapRow e row)) then routed_to t (fst (mapRow e row)) else 0)"
  proof (intro arg_cong[where f = sum_list] map_cong refl)
    fix row assume "row \<in> set rows"
    then have "snd (mapRow e row) = None" using Map_strict(5)[OF assms(1,2)] by blast
    moreover have "m_Row (fst (mapRow e row)) = row"
      using mapRow_contributions[of e row "fst (mapRow e row)" "snd (mapRow e row)"] by simp
    ultimately show "(\<Sum>p\<leftarrow>row_postings e row. if post_account p = (t, src) then post_cents p else 0) =
        (if scoped src (fst (mapRow e row)) then routed_to t (fst (mapRow e row)) else 0)"
      unfolding row_postings_cents[OF assms(3)] scoped_def routed_to_all[OF assms(3)] by simp
  qed
  finally show ?thesis
    unfolding Map_strict(4)[OF assms(1,2)] by (simp add: sum_list_map_filter' filter_map comp_def)
qed

lemma ghas_Cons [simp]: "ghas (b # B) t \<longleftrightarrow> fst b = t \<or> ghas B t"
  by (cases b) (auto simp: ghas_def)

lemma gget_Cons [simp]: "gget z (b # B) t = (if fst b = t then snd b else gget z B t)"
  by (cases b) (auto simp: gget_def)

lemma merge_step [simp]:
  "ghas (merge_left b out) t \<longleftrightarrow> fst b = t \<or> ghas out t"
  "ghas (merge_right b out) t \<longleftrightarrow> fst b = t \<or> ghas out t"
  "gget [] (merge_left b out) t = (if fst b = t then [(SourcePayment, gget 0 (snd b) SourcePayment),
     (SourceSettlement, gget 0 (snd b) SourceSettlement)] else gget [] out t)"
  "gget [] (merge_right b out) t = (if fst b = t
     then gput SourceSettlement (gget 0 (snd b) SourceSettlement) (gget [] out t) else gget [] out t)"
  "distinct (gkeys out) \<Longrightarrow> distinct (gkeys (merge_left b out))"
  "distinct (gkeys out) \<Longrightarrow> distinct (gkeys (merge_right b out))"
  by (simp_all add: merge_left_def merge_right_def)

lemma fold_merge_left:
  assumes "distinct (gkeys B)"
  shows "gget [] (fold merge_left B out) t =
    (if ghas B t then [(SourcePayment, gget 0 (gget [] B t) SourcePayment),
       (SourceSettlement, gget 0 (gget [] B t) SourceSettlement)] else gget [] out t)"
  using assms by (induction B arbitrary: out) (auto simp: ghas_keys)

lemma fold_merge_right:
  assumes "distinct (gkeys B)"
  shows "gget [] (fold merge_right B out) t =
    (if ghas B t then gput SourceSettlement (gget 0 (gget [] B t) SourceSettlement) (gget [] out t)
     else gget [] out t)"
  using assms by (induction B arbitrary: out) (auto simp: ghas_keys)

lemma merge_keys:
  "ghas (fold merge_left B out) t \<longleftrightarrow> ghas B t \<or> ghas out t"
  "ghas (fold merge_right B out) t \<longleftrightarrow> ghas B t \<or> ghas out t"
  "distinct (gkeys out) \<Longrightarrow> distinct (gkeys (fold merge_left B out))"
  "distinct (gkeys out) \<Longrightarrow> distinct (gkeys (fold merge_right B out))"
  by (induction B arbitrary: out) auto

lemma mergeSummary_ok: "buckets_ok a \<Longrightarrow> buckets_ok b \<Longrightarrow> buckets_ok (mergeSummary a b)"
  by (simp add: buckets_ok_def mergeSummary_def merge_keys)

lemma bucket_mergeSummary:
  assumes "buckets_ok a" and "buckets_ok b"
  shows "bucket (mergeSummary a b) t SourcePayment = bucket a t SourcePayment"
    and "bucket (mergeSummary a b) t SourceSettlement =
      (if ghas (Buckets b) t then bucket b t SourceSettlement else bucket a t SourceSettlement)"
  using assms
  by (auto simp: bucket_def mergeSummary_def buckets_ok_def fold_merge_left fold_merge_right gget_missing)


section \<open>Parsed and classified rows\<close>

definition settlement_source_ok :: "raw_row \<Rightarrow> bool" where
  "settlement_source_ok r \<longleftrightarrow>
     row_Source r = SourceSettlement \<and> row_HasRecon r \<and>
     row_SettlementID r \<noteq> [] \<and> TrimSpace (row_SettlementID r) = row_SettlementID r"

lemma sget_canonical: "TrimSpace (sget (canonical_map canon vals) k) = sget (canonical_map canon vals) k"
  by (auto simp: sget_def canonical_map_code split: option.splits)

lemma settlement_row_source:
  assumes row: "settlement_row headers canon base ordinal rec = Inr row"
    and canon: "canon = map Header headers" "distinct canon"
  shows "settlement_source_ok row"
proof -
  let ?cp = "canonical_map canon (csv_fields rec)"
  from row obtain kind amount posted postedDate where
    fin: "settlement_finish ?cp postedDate (settlement_fields (raw_map headers (csv_fields rec)) ?cp
        kind ordinal base rec amount posted) = Inr row"
    by (auto simp: settlement_row_def Let_def split: option.splits sum.splits prod.splits)
  then have "row_SettlementID row = sget ?cp ''settlement_id''"
    by (auto simp: settlement_finish_def settlement_fields_def split: if_splits sum.splits)
  then have "TrimSpace (row_SettlementID row) = row_SettlementID row" by (simp only: sget_canonical)
  with settlement_row_Inr[OF row canon] show ?thesis by (simp add: settlement_source_ok_def settlement_ok_def)
qed

lemma parsed_settlements_source:
  assumes "ParseSettlements fs path = Inr (rows, info)"
  shows "\<forall>r \<in> set rows. settlement_source_ok r"
proof -
  obtain f headers rest canon out m where
    canon: "canon_headers [] headers = Inr canon" and
    out: "read_rows (settlement_row headers canon (byte_base f)) 1 rest = Inr out" and
    rows: "mapE (settle_currency m) out = Inr rows"
    using assms by (auto simp: ParseSettlements_def split: sum.splits prod.splits)
  have "\<forall>r \<in> set out. settlement_source_ok r"
    using read_rows_mem[OF out] settlement_row_source canon_headers_Inr[OF canon] by metis
  moreover have "settlement_source_ok r'" if "settlement_source_ok r" "settle_currency m r = Inr r'" for r r'
  proof -
    have "r' = r\<lparr>row_Currency := row_Currency r'\<rparr>" using settle_currency_Inr[OF that(2)] by blast
    then have "settlement_source_ok r' = settlement_source_ok (r\<lparr>row_Currency := row_Currency r'\<rparr>)"
      by (rule arg_cong)
    with that(1) show ?thesis by (simp add: settlement_source_ok_def)
  qed
  moreover have "list_all2 (\<lambda>r r'. settle_currency m r = Inr r') out rows"
    using rows by (simp add: mapE_Inr_iff)
  ultimately show ?thesis by (auto simp: list_all2_conv_all_nth all_set_conv_all_nth)
qed

lemma classify_simps [simp]:
  "row_Source (classify_row sid r) = row_Source r" "row_Kind (classify_row sid r) = row_Kind r"
  "row_SettlementID (classify_row sid r) = row_SettlementID r"
  "row_HasRecon (classify_row sid r) = row_HasRecon r"
  "row_ReconAmount (classify_row sid r) = row_ReconAmount r"
  "settlement_source_ok (classify_row sid r) = settlement_source_ok r"
  by (simp_all add: classify_row_def settlement_source_ok_def)

lemma classify_scope:
  "row_Scope (classify_row sid r) = ScopeIn \<Longrightarrow> row_Kind r = RowTransaction \<and> row_SettlementID r = sid"
  by (cases "row_Kind r") (auto simp: classify_row_def split: if_splits)

section \<open>The header of the settlement\<close>

lemma activity_exact:
  "foldE add_activity rows a = Inr b \<Longrightarrow>
     sint b = sint a + (\<Sum>r\<leftarrow>filter (\<lambda>r. row_Kind r = RowTransaction \<and> row_Scope r = ScopeIn) rows.
       sint (row_ReconAmount r))"
proof (induction rows arbitrary: a)
  case Nil
  then show ?case by simp
next
  case (Cons r rows)
  then obtain u where u: "add_activity r a = Inr u" "foldE add_activity rows u = Inr b"
    by (auto simp: result_simps)
  from u(1) have "sint u = sint a + (if row_Kind r = RowTransaction \<and> row_Scope r = ScopeIn
      then sint (row_ReconAmount r) else 0)"
    by (auto simp: add_activity_def Add_Inr_iff split: if_splits)
  with Cons.IH[OF u(2)] show ?case by simp
qed

lemma check_header_ok:
  assumes "check_header sid (map m_Row se) = Inr (head, currency)"
  shows "control_ok sid se"
proof -
  let ?ms = "filter (\<lambda>r. row_Kind r = RowMetadata \<and> row_SettlementID r = sid) (map m_Row se)"
  from assms have one: "length ?ms = 1" and head: "head = row_ReconAmount (last ?ms)"
    by (auto simp: check_header_def selected_control_def Let_def split: if_splits sum.splits)
  from one obtain r where r: "?ms = [r]" by (auto simp only: length_1_conv)
  from assms have "foldE add_activity (map m_Row se) 0 = Inr head"
    by (auto simp: check_header_def split: if_splits sum.splits prod.splits)
  from activity_exact[OF this]
  have "sint head = (\<Sum>m\<leftarrow>filter scoped_transaction se. sint (row_ReconAmount (m_Row m)))"
    by (simp add: filter_map comp_def scoped_transaction_def[abs_def])
  with head have "sint (row_ReconAmount r) = (\<Sum>m\<leftarrow>filter scoped_transaction se. sint (row_ReconAmount (m_Row m)))"
    by (simp only: r last.simps refl if_True)
  with r show ?thesis unfolding control_ok_def by blast
qed

lemma control_id:
  assumes "control_ok sid se" shows "\<exists>m \<in> set se. row_SettlementID (m_Row m) = sid"
proof -
  obtain r where "filter (\<lambda>r. row_Kind r = RowMetadata \<and> row_SettlementID r = sid) (map m_Row se) = [r]"
    using assms unfolding control_ok_def by blast
  from filter_eq_ConsD[OF this] show ?thesis by (metis (no_types, lifting) image_iff in_set_conv_decomp set_map)
qed

section \<open>Released maps\<close>

definition release :: "'i mapped \<Rightarrow> 'i mapped" where
  "release m = (if row_Kind (m_Row m) = RowMetadata then m
     else m\<lparr>m_Row := (m_Row m)\<lparr>row_Raw := Map.empty, row_Canonical := Map.empty\<rparr>\<rparr>)"

lemma releaseRawMaps_map: "releaseRawMaps rows = map release rows"
  by (simp add: releaseRawMaps_def release_def)

lemma release_simps [simp]:
  "m_Contributions (release m) = m_Contributions m" "m_Key (release m) = m_Key m"
  "row_Source (m_Row (release m)) = row_Source (m_Row m)" "row_Kind (m_Row (release m)) = row_Kind (m_Row m)"
  "row_Scope (m_Row (release m)) = row_Scope (m_Row m)"
  "row_SettlementID (m_Row (release m)) = row_SettlementID (m_Row m)"
  "row_HasRecon (m_Row (release m)) = row_HasRecon (m_Row m)"
  "row_ReconAmount (m_Row (release m)) = row_ReconAmount (m_Row m)"
  "stored_row i files keys (m_Row (release m)) = stored_row i files keys (m_Row m)"
  "control_of i keys (m_Row (release m)) = control_of i keys (m_Row m)"
  "is_control sid (m_Row (release m)) = is_control sid (m_Row m)"
  "contribution_view (m_Row (release m), c) = contribution_view (m_Row m, c)"
  "scoped src (release m) = scoped src m" "mapped_ok (release m) = mapped_ok m"
  "routed_to t (release m) = routed_to t m"
  by (auto simp: release_def stored_row_def rowKey_def control_of_def is_control_def
      contribution_view_def scoped_def mapped_ok_def routed_to_def)

lemma run_view_release:
  assumes "run_view i sid (ps @ map release ss) gs s issues d"
  shows "run_view i sid (ps @ ss) gs s issues d"
proof -
  have 1: "map (stored_row i files keys \<circ> m_Row) (ps @ map release ss) =
      map (stored_row i files keys \<circ> m_Row) (ps @ ss)" for files keys
    by simp
  have 2: "map contribution_view (row_contributions (ps @ map release ss)) =
      map contribution_view (row_contributions (ps @ ss))"
    by (simp add: row_contributions_def map_concat comp_def)
  have 3: "map (control_of i keys) (filter (is_control sid) (map m_Row (ps @ map release ss))) =
      map (control_of i keys) (filter (is_control sid) (map m_Row (ps @ ss)))" for keys
    by (simp add: filter_map comp_def)
  show ?thesis using assms unfolding run_view_def 1 2 3 .
qed


section \<open>The computation of a strict run\<close>

text \<open>What a mapped row of a source knows, whatever the settlement.\<close>

lemma scoped_all:
  assumes "Map e (Classify rows sid) = Inr (out, s, issues)" and "Mode e = Strict" and "m \<in> set out"
  shows "mapped_ok m" and "\<exists>r \<in> set rows. m_Row m = classify_row sid r"
proof -
  note M = Map_strict[OF assms(1,2)]
  show "mapped_ok m" using M(2) assms(3) by blast
  have "m_Row m \<in> set (Classify rows sid)"
    using assms(3) unfolding M(1)[symmetric] by simp
  then show "\<exists>r \<in> set rows. m_Row m = classify_row sid r" by (auto simp: Classify_def)
qed

lemma rows_ok_mapped:
  assumes p: "Map pe (Classify p0 sid) = Inr (ps, psum, pi)" "Mode pe = Strict" "\<forall>r \<in> set p0. row_Source r = SourcePayment"
    and s: "Map se (Classify s0 sid) = Inr (ss, ssum, si)" "Mode se = Strict" "\<forall>r \<in> set s0. settlement_source_ok r"
    and id: "TrimSpace sid \<noteq> []"
  shows "rows_ok sid (map release ps) ss"
proof -
  have ps: "row_Source (m_Row m) = SourcePayment \<and> mapped_ok m \<and>
      (row_Scope (m_Row m) = ScopeIn \<longrightarrow> row_Kind (m_Row m) = RowTransaction \<and> row_SettlementID (m_Row m) = sid)"
    if m: "m \<in> set ps" for m
  proof -
    obtain r where "r \<in> set p0" "m_Row m = classify_row sid r" using scoped_all(2)[OF p(1,2) m] by blast
    then show ?thesis using scoped_all(1)[OF p(1,2) m] p(3) by (auto dest: classify_scope)
  qed
  have ss: "row_Source (m_Row m) = SourceSettlement \<and> row_HasRecon (m_Row m) \<and> mapped_ok m \<and>
      (row_Scope (m_Row m) = ScopeIn \<longrightarrow> row_Kind (m_Row m) = RowTransaction \<and> row_SettlementID (m_Row m) = sid)"
    if m: "m \<in> set ss" for m
  proof -
    obtain r where "r \<in> set s0" "m_Row m = classify_row sid r" using scoped_all(2)[OF s(1,2) m] by blast
    then show ?thesis
      using scoped_all(1)[OF s(1,2) m] s(3) by (auto simp: settlement_source_ok_def dest: classify_scope)
  qed
  have "row_Source (m_Row m) = SourcePayment" if "m \<in> set (map release ps)" for m
    using ps that by auto
  moreover have "mapped_ok m \<and>
      (row_Scope (m_Row m) = ScopeIn \<longrightarrow> row_Kind (m_Row m) = RowTransaction \<and> row_SettlementID (m_Row m) = sid)"
    if "m \<in> set (map release ps @ ss)" for m
    using ps ss that by fastforce
  ultimately show ?thesis using ss id unfolding rows_ok_def mapped_ok_def by blast
qed

lemma summary_ok_merged:
  assumes p: "Map pe rows = Inr (ps, psum, pi)" "Mode pe = Strict" "\<forall>m \<in> set ps. row_Source (m_Row m) = SourcePayment"
    and s: "Map se rows' = Inr (ss, ssum, si)" "Mode se = Strict" "\<forall>m \<in> set ss. row_Source (m_Row m) = SourceSettlement"
  shows "summary_ok (map release ps @ ss) (mergeSummary psum ssum)"
proof -
  note ok = Map_buckets[OF p(1)] Map_buckets[OF s(1)]
  have none: "filter (scoped SourceSettlement) ps = []" "filter (scoped SourcePayment) ss = []"
    using no_other_source[of ps SourceSettlement "\<lambda>_. True"] no_other_source[of ss SourcePayment "\<lambda>_. True"] p(3) s(3)
    by simp_all
  have "sint (bucket (mergeSummary psum ssum) t src) = (\<Sum>m\<leftarrow>filter (scoped src) (ps @ ss). routed_to t m)"
    if "t \<noteq> []" and src: "src \<in> {SourcePayment, SourceSettlement}" for t src
  proof (cases "src = SourcePayment")
    case True
    then show ?thesis
      using Map_scoped_sum[OF p(1,2) that(1), of SourcePayment] none bucket_mergeSummary(1)[OF ok, of t] by simp
  next
    case False
    with src have src: "src = SourceSettlement" by simp
    have zero: "sint (bucket psum t SourceSettlement) = 0"
      using Map_scoped_sum[OF p(1,2) that(1), of SourceSettlement] none by simp
    have "bucket ssum t SourceSettlement = 0" if "\<not> ghas (Buckets ssum) t"
      using that by (simp add: bucket_def gget_missing)
    then show ?thesis
      using Map_scoped_sum[OF s(1,2) that(1), of SourceSettlement] none bucket_mergeSummary(2)[OF ok, of t] zero
      by (auto simp: src)
  qed
  moreover have "buckets_ok (mergeSummary psum ssum)" by (rule mergeSummary_ok[OF ok])
  ultimately show ?thesis
    by (auto simp: summary_ok_def buckets_ok_def ghas_keys filter_map comp_def)
qed

lemma reconcile_rows_strict:
  assumes "reconcile_rows fs path sid Strict pr sr (Classify p0 sid) = Inr c"
    and "\<forall>r \<in> set p0. row_Source r = SourcePayment"
  obtains ss where
    "BuildGroups (res_PaymentRows (co_result c)) ss = Inr (res_Groups (co_result c))"
    "res_SettlementRows (co_result c) = map release ss" "res_Issues (co_result c) = []"
    "rows_ok sid (res_PaymentRows (co_result c)) ss"
    "summary_ok (res_PaymentRows (co_result c) @ ss) (res_Summary (co_result c))" "control_ok sid ss"
proof -
  from assms(1) obtain ps psum pi s0 sinfo ss ssum si gs head currency where
    p: "Map \<lparr>Rules = pr, Mode = Strict\<rparr> (Classify p0 sid) = Inr (ps, psum, pi)" and
    s0: "ParseSettlements fs path = Inr (s0, sinfo)" and
    s: "Map \<lparr>Rules = sr, Mode = Strict\<rparr> (Classify s0 sid) = Inr (ss, ssum, si)" and
    gs: "BuildGroups (map release ps) ss = Inr gs" and
    head: "check_header sid (Classify s0 sid) = Inr (head, currency)" and
    c: "co_result c = \<lparr>res_PaymentRows = map release ps, res_SettlementRows = map release ss,
      res_Groups = gs, res_Summary = mergeSummary psum ssum, res_SettlementHeader = head,
      res_SettlementCurrency = currency, res_Issues = pi @ si\<rparr>"
    by (auto simp: reconcile_rows_def Let_def releaseRawMaps_map split: sum.splits prod.splits)
  have mode: "Mode \<lparr>Rules = pr, Mode = Strict\<rparr> = Strict" "Mode \<lparr>Rules = sr, Mode = Strict\<rparr> = Strict" by simp_all
  note P = Map_strict[OF p mode(1)] and S = Map_strict[OF s mode(2)]
  have control: "control_ok sid ss" using check_header_ok[of sid ss] head S(1) by simp
  note s_ok = parsed_settlements_source[OF s0]
  obtain m where "m \<in> set ss" "row_SettlementID (m_Row m) = sid" using control_id[OF control] by blast
  moreover from this scoped_all(2)[OF s mode(2)] obtain r where "r \<in> set s0" "m_Row m = classify_row sid r" by blast
  ultimately have id: "TrimSpace sid \<noteq> []" using s_ok by (auto simp: settlement_source_ok_def)
  have rows: "rows_ok sid (map release ps) ss"
    by (rule rows_ok_mapped[OF p mode(1) assms(2) s mode(2) s_ok id])
  have "\<forall>m \<in> set ps. row_Source (m_Row m) = SourcePayment" "\<forall>m \<in> set ss. row_Source (m_Row m) = SourceSettlement"
    using rows by (auto simp: rows_ok_def)
  then have "summary_ok (map release ps @ ss) (mergeSummary psum ssum)"
    by (intro summary_ok_merged[OF p mode(1) _ s mode(2)])
  with gs rows control show thesis by (intro that[of ss]) (simp_all add: c P(3) S(3))
qed

end
