(* ===== verification/Example_Run.thy ===== *)
theory Example_Run
  imports Pipeline Config_Store_Props Ingest_Props
begin

text \<open>
  A complete strict run, evaluated: the files, configurations, options and environment of one
  payment and the settlement that pays it. The properties of whole runs are applied to it.
\<close>

section \<open>Inputs\<close>

text \<open>A payment of 8.90, the settlement that pays it, and one rule for each source.\<close>

definition ex_inputs :: input_fs where
  "ex_inputs path = Inr (if path = ''p.csv'' then
     \<lparr>file_size = 400, file_hash = ''aa'', file_bom = False, file_records =
     [Inr \<lparr>csv_fields = payment_required,
            csv_line = 1, csv_last_line = 1, csv_before = 0, csv_after = 280\<rparr>,
      Inr \<lparr>csv_fields =
              [''5 Jan 2024 3:04:05 pm GMT+11'', ''7 Jan 2024 1:00:00 am GMT+11'', ''S1'', ''Order'',
               ''item'', ''O-1'', ''SKU1'', ''8.90'', ''Released'', ''8.90'', ''0'', ''0'', ''0'', ''0'',
               ''0'', ''0'', ''0'', ''0'', ''0''],
            csv_line = 2, csv_last_line = 2, csv_before = 280, csv_after = 400\<rparr>]\<rparr>
   else \<lparr>file_size = 330, file_hash = ''bb'', file_bom = False, file_records =
     [Inr \<lparr>csv_fields = settlement_required,
            csv_line = 1, csv_last_line = 1, csv_before = 0, csv_after = 180\<rparr>,
      Inr \<lparr>csv_fields =
              [''S1'', '''', '''', '''', '''', '''', '''', ''AUD'', ''8.90'', '''', '''', '''', '''', ''''],
            csv_line = 2, csv_last_line = 2, csv_before = 180, csv_after = 220\<rparr>,
      Inr \<lparr>csv_fields =
              [''S1'', ''Order'', ''8.90'', ''ItemPrice'', ''Principal'', ''05.01.2024'',
               ''05.01.2024 04:04:05 UTC'', '''', '''', ''O-1'', '''', ''SKU1'', '''', ''''],
            csv_line = 3, csv_last_line = 3, csv_before = 220, csv_after = 330\<rparr>]\<rparr>)"

definition ex_rule_of :: "source \<Rightarrow> config_rule" where
  "ex_rule_of src =
     \<lparr>rule_ID = 0, rule_Source = src, rule_OriginFile = (if src = SourcePayment then ''p_config.csv'' else ''s_config.csv''), rule_OriginLine = 2,
      rule_TransactionType = ''ORDER'', rule_Description = (if src = SourcePayment then ''any'' else []),
      rule_AmountField = (if src = SourcePayment then ''product_sales'' else []),
      rule_AmountType = (if src = SourcePayment then [] else ''ItemPrice''),
      rule_AmountDescription = (if src = SourcePayment then [] else ''Principal''),
      rule_RecordRef = ''txn_ref+sku'', rule_PositiveTarget = ''sales_product_charges'',
      rule_NegativeTarget = ''sales_product_charges''\<rparr>"


definition ex_configs :: file_system where
  "ex_configs path =
     Inr (if path = ''p_config.csv'' then
         [Inr \<lparr>csv_fields = [''transaction_type'', ''description'', ''amount_field'', ''record_ref'',
                ''to_summary_field_when_positive_amount'', ''to_summary_field_when_negative_amount''],
              csv_line = 1, csv_last_line = 1, csv_before = 0, csv_after = 118\<rparr>,
          Inr \<lparr>csv_fields = [''ORDER'', ''any'', ''product_sales'', ''txn_ref+sku'',
                ''sales_product_charges'', ''sales_product_charges''],
              csv_line = 2, csv_last_line = 2, csv_before = 118, csv_after = 190\<rparr>]
       else
         [Inr \<lparr>csv_fields = [''transaction_type'', ''amount_type'', ''amount_description'', ''record_ref'',
                ''to_summary_field_when_positive_amount'', ''to_summary_field_when_negative_amount''],
              csv_line = 1, csv_last_line = 1, csv_before = 0, csv_after = 118\<rparr>,
          Inr \<lparr>csv_fields = [''ORDER'', ''ItemPrice'', ''Principal'', ''txn_ref+sku'',
                ''sales_product_charges'', ''sales_product_charges''],
              csv_line = 2, csv_last_line = 2, csv_before = 118, csv_after = 190\<rparr>])"

definition ex_saved :: opened where
  "ex_saved = \<lparr>op_sheets = sheet_names, op_cell = (\<lambda>_ _. Inr ''0.00''),
     op_rows = (\<lambda>sheet. Inr (if sheet = ''Run Info''
       then [[''Property'', ''Value''], [''mode'', ''strict''], [''mapping_issues'', ''0'']]
       else [[''x''], [''y'']]))\<rparr>"

definition ex_env :: environment where
  "ex_env =
     \<lparr>env_inputs = ex_inputs, env_configs = ex_configs, env_info = (\<lambda>p. Inr (ex_info p p)),
      env_abs = Inr, env_clean = id, env_dir = (\<lambda>_. ''.''), env_base = id, env_mkdir = (\<lambda>_. None),
      env_open_db = None,
      env_publisher = \<lparr>pub_clean = id, pub_temp = (\<lambda>_. Inr ''tmp''), pub_save = (\<lambda>_. Inr ex_saved),
        pub_partial = (\<lambda>_. ex_saved), pub_rename = (\<lambda>_. None), pub_remove = (\<lambda>_. None)\<rparr>,
      env_issue_text = (\<lambda>_. ''issue''), env_error_text = (\<lambda>_. ''error''), env_sha = (\<lambda>_. ''00''),
      env_config_db = ex_dbms, env_run_db = ex_dbms\<lparr>next_file := (\<lambda>k. int k + 3)\<rparr>, env_config_commit = Committed,
      env_claim_commit = Committed, env_run_commit = Committed, env_report_commit = Committed\<rparr>"

definition ex_options :: options where
  "ex_options =
     \<lparr>opt_payments = ''p.csv'', opt_settlements = ''s.csv'', opt_payment_config = ''p_config.csv'',
      opt_settlement_config = ''s_config.csv'', opt_settlement_id = ''S1'', opt_output = ''out.xlsx'',
      opt_mode = ''strict'', opt_database = True, opt_run_name = ''run'', opt_config_version = [],
      opt_retry = False\<rparr>"

definition ex_world :: world where
  "ex_world =
     \<lparr>w_books = Map.empty,
      w_database = \<lparr>db_runs = \<lparr>rt_rows = [], rt_next = 1\<rparr>,
        db_catalog = \<lparr>cat_files = [], cat_versions = [], cat_config_files = [], cat_rules = []\<rparr>,
        db_run_files = [], db_rows = [], db_mappings = [], db_contributions = [], db_controls = [],
        db_totals = [], db_groups = [], db_members = [], db_issues = []\<rparr>,
      w_artifacts = []\<rparr>"


definition ex_ru :: rule_choice where
  "ex_ru = \<lparr>ru_payment = [ex_rule_of SourcePayment],
    ru_settlement = [ex_rule_of SourceSettlement],
    ru_version = Some \<lparr>fc_ID = 1, fc_Name = ''config-00'', fc_ContentSHA256 = ''00''\<rparr>,
    ru_files = Some (ex_info ''p_config.csv'' ''p_config.csv'', ex_info ''s_config.csv'' ''s_config.csv'')\<rparr>"

text \<open>The world after the rules have been imported.\<close>

definition ex_claimed :: world where
  "ex_claimed = set_catalog (fst (choose_rules ex_env ex_options (db_catalog (w_database ex_world)))) ex_world"

section \<open>Evaluation\<close>

lemma ex_chosen: "choose_rules ex_env ex_options (db_catalog (w_database ex_world)) =
    (db_catalog (w_database ex_claimed), Inr ex_ru)"
proof -
  have "snd (choose_rules ex_env ex_options (db_catalog (w_database ex_world))) = Inr ex_ru" by code_simp
  then show ?thesis by (simp add: prod_eq_iff ex_claimed_def set_catalog_def)
qed

lemma ex_persisted:
  "case ParsePayments ex_inputs ''p.csv'' of Inl _ \<Rightarrow> False | Inr (p0, pinfo) \<Rightarrow>
  (case reconcile_rows ex_inputs ''s.csv'' ''S1'' Strict (ru_payment ex_ru) (ru_settlement ex_ru) (Classify p0 ''S1'') of Inl _ \<Rightarrow> False | Inr c \<Rightarrow>
   Buckets (res_Summary (co_result c)) = [(''sales_product_charges'', [(SourcePayment, 890), (SourceSettlement, 890)])] \<and>
   res_SettlementHeader (co_result c) = 890 \<and>
   length (res_PaymentRows (co_result c) @ res_SettlementRows (co_result c)) = 3 \<and>
   list_all (\<lambda>g. g_Scope g = ScopeIn) (res_Groups (co_result c)) \<and>
   list_all (\<lambda>x. row_Source (m_Row x) \<in> {SourcePayment, SourceSettlement})
     (res_PaymentRows (co_result c) @ res_SettlementRows (co_result c)) \<and>
   (case writeGroups (res_Groups (co_result c)) of Inl _ \<Rightarrow> False | Inr _ \<Rightarrow> True) \<and>
  (case persist_run ex_env ex_options Strict pinfo ex_ru c ex_claimed of (w, Inr i) \<Rightarrow> i = 1 | _ \<Rightarrow> False))" 
  by code_simp

lemma ex_options_ok: "check_options ex_env ex_options = None"
  by code_simp

lemma ex_writeSummary:
  assumes "Buckets (res_Summary r) = [(''sales_product_charges'', [(SourcePayment, 890), (SourceSettlement, 890)])]"
    and "res_SettlementHeader r = 890"
  shows "\<exists>cs. writeSummary r = Inr cs"
  by (simp add: writeSummary_def summaryRows_def assms figure_row_def row_figure_def
      sumFields_def subtotal_fields_def add_field_def bucket_def gget_def sumSummary_def add_side_def
      Add_cases Sub_cases)

lemma ex_publish:
  assumes "writeSummary (co_result c) = Inr cs" and "writeGroups (res_Groups (co_result c)) = Inr ls"
  shows "\<exists>books. publish ex_env ex_options Strict c meta Map.empty = (books, None)"
proof -
  have cells: "check_zero ex_saved as = None" for as
    by (induction as) (simp_all add: ex_saved_def zero_texts_def)
  have "check_sheets ex_saved = None" "check_data ex_saved data_sheets = None" by code_simp+
  moreover from this have "verifyStructure (open_in [p \<mapsto> ex_saved]) p = None" for p
    by (simp add: verifyStructure_def open_in_def)
  ultimately have "\<exists>books. Write (env_publisher ex_env) (env_issue_text ex_env) ''out.xlsx'' (co_result c) meta Map.empty =
      (books, None) \<and> books ''out.xlsx'' = Some ex_saved"
    using assms by (simp add: Write_def build_workbook_def ex_env_def)
  moreover have "Verify (open_in books) ''out.xlsx'' = None" if "books ''out.xlsx'' = Some ex_saved" for books
  proof -
    have "op_rows ex_saved ''Run Info'' = Inr [[''Property'', ''Value''], [''mode'', ''strict''], [''mapping_issues'', ''0'']]"
      by (simp add: ex_saved_def)
    moreover have "gget [] (run_info [[''Property'', ''Value''], [''mode'', ''strict''], [''mapping_issues'', ''0'']]) ''mode'' = ''strict''"
      "gget [] (run_info [[''Property'', ''Value''], [''mode'', ''strict''], [''mapping_issues'', ''0'']]) ''mapping_issues'' = ''0''"
      by code_simp+
    ultimately show ?thesis
      using that cells \<open>check_sheets ex_saved = None\<close> \<open>check_data ex_saved data_sheets = None\<close>
      by (simp add: Verify_def verifyStructure_def open_in_def Let_def)
  qed
  ultimately show ?thesis by (auto simp: publish_def ex_env_def ex_options_def)
qed

lemma persist_run_books:
  "persist_run env opts m pinfo ru c (w\<lparr>w_books := b\<rparr>) =
     apfst (\<lambda>w. w\<lparr>w_books := b\<rparr>) (persist_run env opts m pinfo ru c w)"
  by (simp add: persist_run_def split: prod.splits sum.splits option.splits)

lemma ex_run:
  "\<exists>w c. run ex_env ex_options ex_world = (w, Inr (c, Some 1)) \<and>
     list_all (\<lambda>g. g_Scope g = ScopeIn) (res_Groups (co_result c)) \<and>
     length (res_PaymentRows (co_result c) @ res_SettlementRows (co_result c)) = 3"
proof -
  obtain p0 pinfo where p: "ParsePayments ex_inputs ''p.csv'' = Inr (p0, pinfo)"
    using ex_persisted by (auto split: sum.splits)
  obtain c where c: "reconcile_rows ex_inputs ''s.csv'' ''S1'' Strict (ru_payment ex_ru) (ru_settlement ex_ru)
      (Classify p0 ''S1'') = Inr c"
    using ex_persisted p by (auto split: sum.splits)
  note facts = ex_persisted[unfolded p sum.case prod.case c]
  obtain cs where cs: "writeSummary (co_result c) = Inr cs" using ex_writeSummary facts by blast
  obtain ls where ls: "writeGroups (res_Groups (co_result c)) = Inr ls" using facts by (auto split: sum.splits)
  obtain w where w: "persist_run ex_env ex_options Strict pinfo ex_ru c ex_claimed = (w, Inr 1)"
    using facts by (auto split: prod.splits sum.splits)
  have mode: "run_mode_of ex_options = Strict" by (simp add: run_mode_of_def ex_options_def)
  obtain books where books: "publish ex_env ex_options Strict c
      (metadata ex_env ex_options pinfo (length p0) ex_ru c) Map.empty = (books, None)"
    using ex_publish[OF cs ls] by blast
  have env: "env_inputs ex_env = ex_inputs" "env_open_db ex_env = None" "opt_payments ex_options = ''p.csv''"
    "opt_settlements ex_options = ''s.csv''" "opt_settlement_id ex_options = ''S1''" "opt_database ex_options"
    by (simp_all add: ex_env_def ex_options_def)
  have start: "set_catalog (db_catalog (w_database ex_claimed)) ex_world = ex_claimed" "w_books ex_claimed = Map.empty"
    by (simp_all add: ex_claimed_def set_catalog_def ex_world_def)
  have "run ex_env ex_options ex_world = (w\<lparr>w_books := books\<rparr>, Inr (c, Some 1))"
    by (simp add: run_def ex_options_ok env p ex_chosen Let_def mode c start books persist_run_books w)
  with facts show ?thesis by blast
qed

end
