(* ===== verification/Run_Props.thy ===== *)
theory Run_Props
  imports Pipeline_Props Example_Run Runs_Props
begin

text \<open>
  The database over whole runs: what \<open>Persist\<close> keeps, and the verdict of \<open>VerifyRun\<close> on a strict run
  that the command has completed.
\<close>

section \<open>The invariant of the database\<close>

text \<open>A run that is not in the table, or that is claimed or failed.\<close>

definition unfinished :: "int \<Rightarrow> run_table \<Rightarrow> bool" where
  "unfinished i t \<longleftrightarrow> list_all (\<lambda>r. run_id r = i \<longrightarrow> run_stage r \<in> {CLAIMED, FAILED}) (rt_rows t)"

definition database_ok :: "database \<Rightarrow> bool" where
  "database_ok d \<longleftrightarrow>
     distinct (map run_id (rt_rows (db_runs d))) \<and>
     list_all (\<lambda>i. i < rt_next (db_runs d)) (map run_id (rt_rows (db_runs d))) \<and>
     (\<forall>i. unfinished i (db_runs d) \<longrightarrow> no_rows i d)"

definition same_tables :: "database \<Rightarrow> database \<Rightarrow> bool" where
  "same_tables d d' \<longleftrightarrow> (\<forall>i. tables_of i d' = tables_of i d)"

lemma same_tables_runs [simp]: "same_tables d (d\<lparr>db_runs := t\<rparr>)"
  by (simp add: same_tables_def tables_of_def)

lemma unfinished_insert: "unfinished i (insert_run r t) \<Longrightarrow> unfinished i t"
  by (simp add: unfinished_def insert_run_def)

lemma unfinished_update:
  assumes "unfinished i (update_run j f t)" and "keeps f"
    and "\<And>r. run_stage (f r) \<in> {CLAIMED, FAILED} \<Longrightarrow> r \<in> set (rt_rows t) \<Longrightarrow> run_id r = j \<Longrightarrow> run_stage r \<in> {CLAIMED, FAILED}"
  shows "unfinished i t"
  unfolding unfinished_def list_all_iff
proof (intro ballI impI)
  fix r assume r: "r \<in> set (rt_rows t)" "run_id r = i"
  have "run_id (f r) = i" using assms(2) r(2) by (simp add: keeps_def)
  then have "run_stage (if run_id r = j then f r else r) \<in> {CLAIMED, FAILED}"
    using assms(1) r unfolding unfinished_def rows_update_run update_rows_def list_all_iff
    by (auto split: if_splits)
  with assms(3) r show "run_stage r \<in> {CLAIMED, FAILED}" by (auto split: if_splits)
qed

text \<open>What every update of the table of runs by \<open>Persist\<close> and \<open>RegisterReport\<close> is like.\<close>

definition runs_follow :: "run_table \<Rightarrow> run_table \<Rightarrow> bool" where
  "runs_follow t t' \<longleftrightarrow>
     (distinct (map run_id (rt_rows t)) \<and> list_all (\<lambda>i. i < rt_next t) (map run_id (rt_rows t)) \<longrightarrow>
      distinct (map run_id (rt_rows t')) \<and> list_all (\<lambda>i. i < rt_next t') (map run_id (rt_rows t'))) \<and>
     (\<forall>i. unfinished i t' \<longrightarrow> unfinished i t)"

lemma runs_follow_refl [simp]: "runs_follow t t"
  by (simp add: runs_follow_def)

lemma runs_follow_trans [trans]: "runs_follow t u \<Longrightarrow> runs_follow u v \<Longrightarrow> runs_follow t v"
  by (simp add: runs_follow_def)

lemma runs_follow_update:
  assumes "keeps f"
    and "\<And>r. run_stage (f r) \<in> {CLAIMED, FAILED} \<Longrightarrow> r \<in> set (rt_rows t) \<Longrightarrow> run_id r = j \<Longrightarrow> run_stage r \<in> {CLAIMED, FAILED}"
  shows "runs_follow t (update_run j f t)"
  using assms unfinished_update[OF _ assms(1)] by (auto simp: runs_follow_def)

lemma runs_follow_mark: "runs_follow t (markRunFailed i cause t)"
proof (cases rule: markRunFailed_cases[of i cause t])
  case none
  then show ?thesis by simp
next
  case (fail d)
  have "runs_follow t (update_run i (fail_run d) t)"
    by (rule runs_follow_update) (auto simp: fail_run_def split: if_splits)
  then show ?thesis by (simp only: fail)
qed

lemma runs_follow_reconcile: "runs_follow t (update_run i reconcile_run t)"
  by (rule runs_follow_update) (simp_all add: reconcile_run_def)

lemma runs_follow_report: "runs_follow t (update_run i report_run t)"
  by (rule runs_follow_update) (auto simp: report_run_def split: if_splits)

lemma runs_follow_claim:
  assumes "distinct (map run_id (rt_rows t))" and "claimRun c name fp selected m config retry t = (t', res)"
  shows "runs_follow t t'"
  using assms(2)
proof (cases rule: claimRun_cases)
  case same
  then show ?thesis by simp
next
  case insert
  then show ?thesis
    using unfinished_insert by (auto simp: runs_follow_def insert_run_def new_run_def list_all_iff)
next
  case (retry r)
  have r: "r \<in> set (rt_rows t)" using find_run_Some[OF retry(1)] by blast
  have "run_stage x = FAILED" if "x \<in> set (rt_rows t)" "run_id x = run_id r" for x
  proof -
    have "x = r" using assms(1) r that by (auto simp: distinct_map dest: inj_onD)
    then show ?thesis using retry(2) by simp
  qed
  then have "runs_follow t (update_run (run_id r) (retry_run (run_attempt r)) t)"
    by (intro runs_follow_update) simp_all
  then show ?thesis by (simp only: retry(3))
qed

lemma database_ok_follow:
  assumes "database_ok d" and "runs_follow (db_runs d) (db_runs d')" and "same_tables d d'"
  shows "database_ok d'"
  using assms by (auto simp: database_ok_def runs_follow_def same_tables_def no_rows_tables)


section \<open>The claim\<close>

lemma same_id: "distinct (map run_id rs) \<Longrightarrow> x \<in> set rs \<Longrightarrow> y \<in> set rs \<Longrightarrow> run_id x = run_id y \<Longrightarrow> x = y"
  by (auto simp: distinct_map dest: inj_onD)

lemma claim_fresh:
  assumes "database_ok d" and "claimRun c name fp selected m config retry (db_runs d) = (t, Inr (i, False))"
  obtains r where "unfinished i (db_runs d)" "r \<in> set (rt_rows t)" "run_id r = i"
    "(\<forall>x \<in> set (rt_rows (db_runs d)). run_id x = i \<longrightarrow> run_mode x = m \<and> run_selected x = selected) \<Longrightarrow>
       run_mode r = m \<and> run_selected r = selected"
  using assms(2)
proof (cases rule: claimRun_cases)
  case same
  then show thesis by blast
next
  case insert
  then have i: "i = rt_next (db_runs d)" by simp
  show thesis
  proof (rule that[of "new_run i name fp selected m config"])
    show "unfinished i (db_runs d)"
      using assms(1) by (auto simp: i database_ok_def unfinished_def list_all_iff)
  qed (simp_all add: insert i insert_run_def new_run_def)
next
  case (retry r)
  then have i: "i = run_id r" and r: "r \<in> set (rt_rows (db_runs d))" by (auto dest: find_run_Some)
  have ids: "distinct (map run_id (rt_rows (db_runs d)))" using assms(1) by (simp add: database_ok_def)
  show thesis
  proof (rule that[of "retry_run (run_attempt r) r"])
    show "unfinished i (db_runs d)"
      using same_id[OF ids _ r] retry(2) by (fastforce simp: unfinished_def list_all_iff i)
    show "retry_run (run_attempt r) r \<in> set (rt_rows t)"
      unfolding retry(3) rows_update_run update_rows_def using r by (force simp: image_iff)
  qed (use r in \<open>simp_all add: i retry_run_def\<close>)
qed

lemma claim_existing:
  assumes "claimRun c name fp selected m config retry t = (t', Inr (i, True))"
  shows "t' = t" and "\<not> unfinished i t"
  using assms
  by (auto simp: claimRun_def end_tx_def unfinished_def list_all_iff dest: find_run_Some
      split: option.splits if_splits commit_outcome.splits)

section \<open>Persisting\<close>

lemma persist_tx_ok:
  assumes "persist_tx db i selected config pinfo sinfo all gs s rules issues d = Inr d'"
    and "\<forall>m \<in> set all. row_Source (m_Row m) \<in> {SourcePayment, SourceSettlement}"
    and "database_ok d" and "unfinished i (db_runs d)" and "i \<in> set (map run_id (rt_rows (db_runs d)))"
  shows "run_view i selected all gs s issues d'" and "database_ok d'"
    and "\<not> unfinished i (db_runs d')" and "j \<noteq> i \<Longrightarrow> tables_of j d' = tables_of j d"
    and "db_runs d' = update_run i reconcile_run (db_runs d)"
    and "run_tables i selected config pinfo sinfo all gs s issues d'"
proof -
  have "no_rows i d" using assms(3,4) by (simp add: database_ok_def)
  note tx = persist_tx_Inr[OF assms(1,2) this]
  show "run_view i selected all gs s issues d'" by (rule tx(1))
  show "run_tables i selected config pinfo sinfo all gs s issues d'" by (rule tx(4))
  show same: "tables_of j d' = tables_of j d" if "j \<noteq> i" for j by (rule tx(3)[OF that])
  show runs: "db_runs d' = update_run i reconcile_run (db_runs d)" by (rule tx(2))
  obtain r where "r \<in> set (rt_rows (db_runs d))" "run_id r = i" using assms(5) by auto
  then have "reconcile_run r \<in> set (rt_rows (db_runs d'))"
    unfolding runs rows_update_run update_rows_def by (force simp: image_iff)
  then show fin: "\<not> unfinished i (db_runs d')"
    using \<open>run_id r = i\<close> unfolding unfinished_def list_all_iff
    by (intro notI) (drule bspec, assumption, simp add: reconcile_run_def)
  have "runs_follow (db_runs d) (db_runs d')" unfolding runs by (rule runs_follow_reconcile)
  then show "database_ok d'"
    using assms(3) same fin unfolding database_ok_def runs_follow_def no_rows_tables by metis
qed


lemma persist_tx_marked:
  "persist_tx db i selected config pinfo sinfo all gs s rules issues d = Inr d' \<Longrightarrow>
     mark_failed error_text i e d' = d'"
  by (auto simp: persist_tx_def mark_failed_def result_simps)

lemma Persist_cases:
  assumes "Persist sha db error_text c1 c2 name selected m config retry pinfo sinfo payments settlements
      gs s rules issues d = (d', res)"
  obtains (refused) "d' = d" "isl res"
  | (unclaimed) fp t e where "claimRun c1 name fp selected m config retry (db_runs d) = (t, Inl e)"
      "d' = d\<lparr>db_runs := t\<rparr>" "isl res"
  | (existing) fp t i where "claimRun c1 name fp selected m config retry (db_runs d) = (t, Inr (i, True))"
      "d' = d\<lparr>db_runs := t\<rparr>" "res = Inr i"
  | (undone) fp t i e where "claimRun c1 name fp selected m config retry (db_runs d) = (t, Inr (i, False))"
      "d' = mark_failed error_text i e (d\<lparr>db_runs := t\<rparr>)" "isl res"
  | (written) fp t i where "claimRun c1 name fp selected m config retry (db_runs d) = (t, Inr (i, False))"
      "persist_tx db i selected config pinfo sinfo (payments @ settlements) gs s rules issues
         (d\<lparr>db_runs := t\<rparr>) = Inr d'" "res = Inr i \<or> isl res" "m = Strict \<Longrightarrow> strict_gate s gs = None"
proof (cases "config \<le> 0 \<or> (m = Strict \<and> strict_gate s gs \<noteq> None)")
  case True
  with assms show thesis by (intro refused) (auto simp: Persist_def split: if_splits option.splits)
next
  case False
  let ?fp = "runFingerprint sha pinfo sinfo selected m config rules"
  from False have gate: "\<not> config \<le> 0" "(if m = Strict then strict_gate s gs else None) = None"
    "m = Strict \<Longrightarrow> strict_gate s gs = None" by auto
  obtain t cl where claim: "claimRun c1 name ?fp selected m config retry (db_runs d) = (t, cl)"
    by (cases "claimRun c1 name ?fp selected m config retry (db_runs d)")
  note run = assms[unfolded Persist_def gate(2) claim, simplified gate(1) if_False option.case prod.case]
  consider (err) e where "cl = Inl e" | (old) i where "cl = Inr (i, True)" | (new) i where "cl = Inr (i, False)"
    by (cases cl) auto
  then show thesis
  proof cases
    case (err e)
    with run claim show thesis by (intro unclaimed[of ?fp t e]) auto
  next
    case (old i)
    with run claim show thesis by (intro existing[of ?fp t i]) simp_all
  next
    case (new i)
    show thesis
    proof (cases "persist_tx db i selected config pinfo sinfo (payments @ settlements) gs s rules issues (d\<lparr>db_runs := t\<rparr>)")
      case (Inl e)
      with run claim new show thesis by (intro undone[of ?fp t i e]) (auto simp: Let_def)
    next
      case (Inr d2)
      note marked = persist_tx_marked[OF this]
      show thesis
      proof (cases c2)
        case RolledBack
        with run claim new Inr show thesis
          by (intro undone[of ?fp t i PersistCommit]) (auto simp: Let_def)
      qed (use run claim new Inr marked gate(3) in \<open>intro written[of ?fp t i]; auto simp: Let_def\<close>)+
    qed
  qed
qed

lemma claimed_database:
  assumes "database_ok d" and "claimRun c name fp selected m config retry (db_runs d) = (t, res)"
  shows "database_ok (d\<lparr>db_runs := t\<rparr>)" and "unfinished i t \<Longrightarrow> unfinished i (db_runs d)"
proof -
  have "runs_follow (db_runs d) t"
    using assms(1) by (intro runs_follow_claim[OF _ assms(2)]) (simp add: database_ok_def)
  then show "database_ok (d\<lparr>db_runs := t\<rparr>)" "unfinished i t \<Longrightarrow> unfinished i (db_runs d)"
    using database_ok_follow[OF assms(1), of "d\<lparr>db_runs := t\<rparr>"] by (simp_all add: runs_follow_def)
qed

text \<open>A claimed run is in the table and not finished.\<close>

lemma claimed_run:
  assumes "database_ok d" and "claimRun c name fp selected m config retry (db_runs d) = (t, Inr (i, False))"
  shows "unfinished i t" and "i \<in> set (map run_id (rt_rows t))" and "unfinished i (db_runs d)"
proof -
  show "unfinished i (db_runs d)" by (rule claim_fresh[OF assms]) 
  show "i \<in> set (map run_id (rt_rows t))" by (rule claim_fresh[OF assms]) auto
  show "unfinished i t"
    using assms(2) \<open>unfinished i (db_runs d)\<close>
  proof (cases rule: claimRun_cases)
    case (retry r)
    then have "i = run_id r" by simp
    then show ?thesis unfolding retry(3) unfinished_def rows_update_run update_rows_def
      by (auto simp: list_all_iff retry_run_def)
  qed (auto simp: unfinished_def insert_run_def new_run_def)
qed

section \<open>The run of the command\<close>

lemma database_ok_catalog [simp]: "database_ok (d\<lparr>db_catalog := c\<rparr>) = database_ok d"
  by (simp add: database_ok_def no_rows_def)

lemma run_view_runs [simp]:
  "run_view i selected all gs s issues (d\<lparr>db_runs := t\<rparr>) = run_view i selected all gs s issues d"
  by (simp add: run_view_def rows_of_run_def mapped_rows_def member_ids_def)

lemma run_Inr:
  assumes "run env opts w = (w', Inr (c, Some i))"
  obtains p0 pinfo ru cat books where
    "ParsePayments (env_inputs env) (opt_payments opts) = Inr (p0, pinfo)"
    "reconcile_rows (env_inputs env) (opt_settlements opts) (opt_settlement_id opts) (run_mode_of opts)
       (ru_payment ru) (ru_settlement ru) (Classify p0 (opt_settlement_id opts)) = Inr c"
    "persist_run env opts (run_mode_of opts) pinfo ru c ((set_catalog cat w)\<lparr>w_books := books\<rparr>) = (w', Inr i)"
  using assms
  by (auto simp: run_def Let_def split: option.splits sum.splits prod.splits if_splits)

lemma RegisterReport_None:
  assumes "RegisterReport info c i kind path s = (s', None)"
  shows "runs s' = update_run i report_run (runs s)"
  using assms by (auto simp: RegisterReport_def Let_def split: sum.splits if_splits commit_outcome.splits)

lemma persist_run_Inr:
  assumes "persist_run env opts m pinfo ru c w = (w', Inr i)"
  obtains d where
    "Persist (env_sha env) (env_run_db env) (env_error_text env) (env_claim_commit env)
       (env_run_commit env) (opt_run_name opts) (opt_settlement_id opts) m
       (case ru_version ru of None \<Rightarrow> 0 | Some v \<Rightarrow> fc_ID v) (opt_retry opts) pinfo (co_sinfo c)
       (res_PaymentRows (co_result c)) (res_SettlementRows (co_result c))
       (res_Groups (co_result c)) (res_Summary (co_result c))
       (ru_payment ru @ ru_settlement ru) (map (env_issue_text env) (res_Issues (co_result c)))
       (w_database w) = (d, Inr i)"
    "w_database w' = d\<lparr>db_runs := update_run i report_run (db_runs d)\<rparr>"
  using assms
  by (auto simp: persist_run_def Let_def split: option.splits sum.splits prod.splits
      dest!: RegisterReport_None)

lemma reported_row:
  assumes "database_ok d" and "claimRun c name fp selected Strict config retry (db_runs d) = (t, Inr (i, False))"
    and "\<forall>x \<in> set (rt_rows (db_runs d)). run_id x = i \<longrightarrow> run_mode x = Strict \<and> run_selected x = selected"
  obtains r where "find (\<lambda>r. run_id r = i)
      (rt_rows (update_run i report_run (update_run i reconcile_run t))) = Some r"
    "run_stage r = REPORTED" "run_mode r = Strict" "run_status r = PASS" "run_selected r = selected"
proof (rule claim_fresh[OF assms(1,2)])
  fix r assume r: "r \<in> set (rt_rows t)" "run_id r = i"
    "\<forall>x \<in> set (rt_rows (db_runs d)). run_id x = i \<longrightarrow> run_mode x = Strict \<and> run_selected x = selected \<Longrightarrow>
       run_mode r = Strict \<and> run_selected r = selected"
  let ?rows = "rt_rows (update_run i report_run (update_run i reconcile_run t))"
  let ?r = "report_run (reconcile_run r)"
  have mode: "run_mode r = Strict \<and> run_selected r = selected" using r(3) assms(3) by blast
  have "distinct (map run_id (rt_rows t))"
    using claimed_database(1)[OF assms(1,2)] by (simp add: database_ok_def)
  then have "distinct (map run_id ?rows)" by (simp del: update_rows_columns add: update_rows_columns(1))
  moreover have "?r \<in> set ?rows"
    unfolding rows_update_run update_rows_def map_map using r(1,2)
    by (force simp: image_iff reconcile_run_def)
  moreover have id: "run_id ?r = i" using r(2) by (simp add: report_run_def reconcile_run_def)
  ultimately have "find (\<lambda>u. run_id u = i) ?rows = Some ?r" using find_key[of run_id ?rows ?r] by simp
  then show thesis using mode by (intro that[of ?r]) (simp_all add: report_run_def reconcile_run_def)
qed

lemma Persist_database:
  assumes "Persist sha db error_text c1 c2 name selected m config retry pinfo sinfo payments settlements
      gs s rules issues d = (d', res)"
    and "\<forall>x \<in> set (payments @ settlements). row_Source (m_Row x) \<in> {SourcePayment, SourceSettlement}"
    and "database_ok d"
  shows "database_ok d' \<and> (\<forall>i. \<not> unfinished i (db_runs d) \<longrightarrow> \<not> unfinished i (db_runs d') \<and> tables_of i d' = tables_of i d) \<and>
    (\<forall>i. res = Inr i \<longrightarrow> \<not> unfinished i (db_runs d') \<and>
       (unfinished i (db_runs d) \<longrightarrow> run_tables i selected config pinfo sinfo (payments @ settlements) gs s issues d'))"
  using assms(1)
proof (cases rule: Persist_cases)
  case refused
  with assms(3) show ?thesis by (auto simp: isl_def)
next
  case (unclaimed fp t e)
  with claimed_database[OF assms(3) unclaimed(1)] show ?thesis by (auto simp: tables_of_def isl_def)
next
  case (existing fp t i)
  with claim_existing[OF existing(1)] assms(3) show ?thesis by simp
next
  case (undone fp t i e)
  have "database_ok (mark_failed error_text i e (d\<lparr>db_runs := t\<rparr>))"
    unfolding mark_failed_def
    by (rule database_ok_follow[OF claimed_database(1)[OF assms(3) undone(1)]])
      (simp_all add: runs_follow_mark same_tables_def tables_of_def)
  moreover have "unfinished j (markRunFailed i (error_text e) t) \<Longrightarrow> unfinished j (db_runs d)" for j
    using claimed_database(2)[OF assms(3) undone(1)] runs_follow_mark[of t i "error_text e"]
    by (simp add: runs_follow_def)
  ultimately show ?thesis using undone by (auto simp: mark_failed_def tables_of_def isl_def)
next
  case (written fp t i)
  note claim = claimed_run[OF assms(3) written(1)]
  note tx = persist_tx_ok[OF written(2) assms(2) claimed_database(1)[OF assms(3) written(1)]]
  have "tables_of j d' = tables_of j d" if "\<not> unfinished j (db_runs d)" for j
  proof -
    have "j \<noteq> i" using that claim(3) by auto
    then have "tables_of j d' = tables_of j (d\<lparr>db_runs := t\<rparr>)" using claim by (intro tx(4)) simp_all
    then show ?thesis by (simp add: tables_of_def)
  qed
  moreover have "unfinished j (db_runs d') \<Longrightarrow> unfinished j (db_runs d)" for j
    using claimed_database(2)[OF assms(3) written(1)] runs_follow_reconcile[of t i] tx(5) claim
    by (simp add: runs_follow_def)
  ultimately show ?thesis using tx(2,3,6) claim written(3) by auto
qed


section \<open>Properties\<close>

text \<open>
  C3. \<open>Persist\<close> keeps the invariant of the database: ids are unique and below the sequence, and a run
  that is not in the table, claimed or failed has nothing in any table, those of the files of runs
  included. A run that was finished before stays finished and keeps its rows, whatever fails and
  however the commits end; the run it returns is finished, and when it was not before, the tables
  hold exactly what it was given (\<open>run_tables\<close>): the two input files and the files of the
  configuration, each row with all its fields, each contribution to a row as a mapping with its row,
  rule, field, amount, target and decision, the posted ones under the mapping they come from, the
  controls, both totals of every bucket with the number of contributions posted to them, each group
  with its figures, the rows of each group as its members, and the issues.
\<close>

theorem Persist_keeps_database:
  assumes "Persist sha db error_text c1 c2 name selected m config retry pinfo sinfo payments settlements
      gs s rules issues d = (d', res)"
    and "\<forall>x \<in> set (payments @ settlements). row_Source (m_Row x) \<in> {SourcePayment, SourceSettlement}"
    and "database_ok d"
  shows "database_ok d' \<and> (\<forall>i. \<not> unfinished i (db_runs d) \<longrightarrow> \<not> unfinished i (db_runs d') \<and> tables_of i d' = tables_of i d) \<and>
    (\<forall>i. res = Inr i \<longrightarrow> \<not> unfinished i (db_runs d') \<and>
       (unfinished i (db_runs d) \<longrightarrow> run_tables i selected config pinfo sinfo (payments @ settlements) gs s issues d'))"
  by (rule Persist_database[OF assms])

theorem Persist_keeps_database_witness:
  "\<exists>pinfo sinfo (p :: issue mapped list) s gs sm rules issues d. length (p @ s) = 3 \<and>
     Persist (env_sha ex_env) (env_run_db ex_env) (env_error_text ex_env) Committed Committed
       ''run'' ''S1'' Strict 1 False pinfo sinfo p s gs sm rules issues (w_database ex_claimed) = (d, Inr 1) \<and>
     database_ok d \<and> run_tables 1 ''S1'' 1 pinfo sinfo (p @ s) gs sm issues d"
proof -
  obtain p0 pinfo where p: "ParsePayments ex_inputs ''p.csv'' = Inr (p0, pinfo)"
    using ex_persisted by (auto split: sum.splits)
  obtain c where c: "reconcile_rows ex_inputs ''s.csv'' ''S1'' Strict (ru_payment ex_ru) (ru_settlement ex_ru)
      (Classify p0 ''S1'') = Inr c"
    using ex_persisted p by (auto split: sum.splits)
  note facts = ex_persisted[unfolded p sum.case prod.case c]
  obtain w where w: "persist_run ex_env ex_options Strict pinfo ex_ru c ex_claimed = (w, Inr 1)"
    using facts by (auto split: prod.splits sum.splits)
  have rows: "\<forall>x \<in> set (res_PaymentRows (co_result c) @ res_SettlementRows (co_result c)).
      row_Source (m_Row x) \<in> {SourcePayment, SourceSettlement}"
    using facts unfolding list_all_iff by blast
  have db: "database_ok (w_database ex_claimed)" "unfinished 1 (db_runs (w_database ex_claimed))"
    by (simp_all add: ex_claimed_def set_catalog_def ex_world_def database_ok_def no_rows_def unfinished_def)
  have env: "env_claim_commit ex_env = Committed" "env_run_commit ex_env = Committed"
    "opt_run_name ex_options = ''run''" "opt_settlement_id ex_options = ''S1''" "\<not> opt_retry ex_options"
    "ru_version ex_ru = Some \<lparr>fc_ID = 1, fc_Name = ''config-00'', fc_ContentSHA256 = ''00''\<rparr>"
    by (simp_all add: ex_env_def ex_options_def ex_ru_def)
  show ?thesis
  proof (rule persist_run_Inr[OF w], unfold env option.case frozen_config.simps)
    fix d
    assume "Persist (env_sha ex_env) (env_run_db ex_env) (env_error_text ex_env) Committed Committed
       ''run'' ''S1'' Strict 1 (opt_retry ex_options) pinfo (co_sinfo c)
       (res_PaymentRows (co_result c)) (res_SettlementRows (co_result c))
       (res_Groups (co_result c)) (res_Summary (co_result c))
       (ru_payment ex_ru @ ru_settlement ex_ru) (map (env_issue_text ex_env) (res_Issues (co_result c)))
       (w_database ex_claimed) = (d, Inr 1)"
    then have per: "Persist (env_sha ex_env) (env_run_db ex_env) (env_error_text ex_env) Committed Committed
       ''run'' ''S1'' Strict 1 False pinfo (co_sinfo c)
       (res_PaymentRows (co_result c)) (res_SettlementRows (co_result c))
       (res_Groups (co_result c)) (res_Summary (co_result c))
       (ru_payment ex_ru @ ru_settlement ex_ru) (map (env_issue_text ex_env) (res_Issues (co_result c)))
       (w_database ex_claimed) = (d, Inr 1)"
      using env(5) by simp
    note kept = Persist_keeps_database[OF per rows db(1)]
    have "database_ok d" using kept by (rule conjunct1)
    moreover have "run_tables 1 ''S1'' 1 pinfo (co_sinfo c)
        (res_PaymentRows (co_result c) @ res_SettlementRows (co_result c))
        (res_Groups (co_result c)) (res_Summary (co_result c)) (map (env_issue_text ex_env) (res_Issues (co_result c))) d"
      using kept db(2) by simp
    moreover have "length (res_PaymentRows (co_result c) @ res_SettlementRows (co_result c)) = 3"
      using facts by (elim conjE)
    ultimately show ?thesis using per by (intro exI conjI)
  qed
qed

text \<open>
  C2. What \<open>recon verify\<close> says of a strict run that the command has just completed and registered in
  a sound database: it accepts the run exactly when the expected number of rows is not given or
  right, and every group outside the selected settlement that has rows of both sources has the same
  amount on both sides. Whatever is in scope has been checked when the run was persisted; every
  other count and sum that the verification compares agrees. The database stays sound.
\<close>

theorem strict_run_verified:
  assumes "run env opts w = (w', Inr (c, Some i))" and "opt_mode opts = ''strict''"
    and "database_ok (w_database w)"
    and "\<forall>r \<in> set (rt_rows (db_runs (w_database w))). run_id r = i \<longrightarrow>
      run_stage r \<in> {CLAIMED, FAILED} \<and> run_mode r = Strict \<and> run_selected r = opt_settlement_id opts"
  shows "database_ok (w_database w') \<and>
    ((\<exists>v. VerifyRun (w_database w') i expected = Inr v) \<longleftrightarrow>
     (expected \<le> 0 \<or>
      expected = int (length (res_PaymentRows (co_result c) @ res_SettlementRows (co_result c)))) \<and>
     (\<forall>g \<in> set (res_Groups (co_result c)). g_Scope g \<noteq> ScopeIn \<longrightarrow> \<not> unequal_amounts g))"
proof (rule run_Inr[OF assms(1)])
  fix p0 pinfo ru cat books
  let ?sid = "opt_settlement_id opts" and ?ps = "res_PaymentRows (co_result c)"
    and ?ss = "res_SettlementRows (co_result c)" and ?gs = "res_Groups (co_result c)"
    and ?s = "res_Summary (co_result c)" and ?d0 = "(w_database w)\<lparr>db_catalog := cat\<rparr>"
  assume parse: "ParsePayments (env_inputs env) (opt_payments opts) = Inr (p0, pinfo)"
    and rows: "reconcile_rows (env_inputs env) (opt_settlements opts) ?sid (run_mode_of opts)
       (ru_payment ru) (ru_settlement ru) (Classify p0 ?sid) = Inr c"
    and persist: "persist_run env opts (run_mode_of opts) pinfo ru c ((set_catalog cat w)\<lparr>w_books := books\<rparr>) = (w', Inr i)"
  have mode: "run_mode_of opts = Strict" using assms(2) by (simp add: run_mode_of_def)
  have "\<forall>r \<in> set p0. row_Source r = SourcePayment"
    using parsed_payments_ok[OF parse] by (auto simp: payment_ok_def)
  then obtain ss where
    gs: "BuildGroups ?ps ss = Inr ?gs" and ss: "?ss = map release ss" and issues: "res_Issues (co_result c) = []"
    and ok: "rows_ok ?sid ?ps ss" "summary_ok (?ps @ ss) ?s" "control_ok ?sid ss"
    using reconcile_rows_strict[OF rows[unfolded mode]] by metis
  show ?thesis
  proof (rule persist_run_Inr[OF persist[unfolded mode]])
    fix d
    assume per: "Persist (env_sha env) (env_run_db env) (env_error_text env) (env_claim_commit env)
       (env_run_commit env) (opt_run_name opts) ?sid Strict
       (case ru_version ru of None \<Rightarrow> 0 | Some v \<Rightarrow> fc_ID v) (opt_retry opts) pinfo (co_sinfo c)
       ?ps ?ss ?gs ?s (ru_payment ru @ ru_settlement ru)
       (map (env_issue_text env) (res_Issues (co_result c)))
       (w_database ((set_catalog cat w)\<lparr>w_books := books\<rparr>)) = (d, Inr i)"
      and w': "w_database w' = d\<lparr>db_runs := update_run i report_run (db_runs d)\<rparr>"
    have d0: "w_database ((set_catalog cat w)\<lparr>w_books := books\<rparr>) = ?d0" by (simp add: set_catalog_def)
    have ok0: "database_ok ?d0" using assms(3) by simp
    have run: "unfinished i (db_runs ?d0)" using assms(4) by (auto simp: unfinished_def list_all_iff)
    from per[unfolded d0] show ?thesis
    proof (cases rule: Persist_cases)
      case (existing fp t j)
      with claim_existing(2)[OF existing(1)] run show ?thesis by simp
    next
      case (written fp t j)
      then have ji: "j = i" by (auto simp: isl_def)
      note tx = written(2)[unfolded ji ss issues list.map]
      note claim = claimed_run[OF ok0 written(1)[unfolded ji]]
      have src: "\<forall>m \<in> set (?ps @ map release ss). row_Source (m_Row m) \<in> {SourcePayment, SourceSettlement}"
        using rows_ok_all[OF ok(1)] by auto
      note fin = persist_tx_ok[OF tx src claimed_database(1)[OF ok0 written(1)]]
      have cl: "unfinished i (db_runs (?d0\<lparr>db_runs := t\<rparr>))"
        "i \<in> set (map run_id (rt_rows (db_runs (?d0\<lparr>db_runs := t\<rparr>))))" using claim by simp_all
      have tables: "run_view i ?sid (?ps @ ss) ?gs ?s [] (w_database w')"
        using run_view_release[OF fin(1)[OF cl]] by (simp add: w')
      obtain r where row: "find (\<lambda>r. run_id r = i) (rt_rows (db_runs (w_database w'))) = Some r"
        "run_stage r = REPORTED" "run_mode r = Strict" "run_status r = PASS" "run_selected r = ?sid"
        by (rule reported_row[OF ok0 written(1)[unfolded ji]]) (use assms(4) fin(5)[OF cl] in \<open>simp_all add: w'\<close>)
      note gate = written(4)[OF refl]
      have "\<not> unequal_amounts g" if "g \<in> set ?gs" "g_Scope g = ScopeIn" for g
        using group_gate_amounts[OF strict_gate_groups[OF gate that(1)] that(2)] by (auto simp: unequal_amounts_def)
      then have "(\<forall>g \<in> set ?gs. \<not> unequal_amounts g) \<longleftrightarrow>
          (\<forall>g \<in> set ?gs. g_Scope g \<noteq> ScopeIn \<longrightarrow> \<not> unequal_amounts g)" by blast
      moreover have "database_ok (w_database w')"
        unfolding w' by (rule database_ok_follow[OF fin(2)[OF cl]]) (simp_all add: runs_follow_report)
      ultimately show ?thesis
        using strict_tables_verified[OF tables gs ok gate row] by (simp add: ss)
    qed auto
  qed
qed


theorem strict_run_verified_witness:
  "\<exists>w c v. run ex_env ex_options ex_world = (w, Inr (c, Some 1)) \<and> VerifyRun (w_database w) 1 3 = Inr v"
proof -
  obtain w c where r: "run ex_env ex_options ex_world = (w, Inr (c, Some 1))"
    and groups: "list_all (\<lambda>g. g_Scope g = ScopeIn) (res_Groups (co_result c))"
    and rows: "length (res_PaymentRows (co_result c) @ res_SettlementRows (co_result c)) = 3"
    using ex_run by blast
  have "opt_mode ex_options = ''strict''" by (simp add: ex_options_def)
  moreover have "database_ok (w_database ex_world)"
    by (simp add: database_ok_def ex_world_def no_rows_def)
  moreover have "rt_rows (db_runs (w_database ex_world)) = []" by (simp add: ex_world_def)
  ultimately have "\<exists>v. VerifyRun (w_database w) 1 3 = Inr v"
    using strict_run_verified[OF r, of 3] groups rows by (simp add: list_all_iff)
  with r show ?thesis by blast
qed

end
