(* ===== verification/Flags.thy ===== *)
theory Flags
  imports Go_Text
begin

text \<open>
  The part of the standard library's package \<open>flag\<close> that the commands use: a flag set that continues
  on errors, with string, integer and boolean flags, and \<open>strconv.ParseInt\<close> with base 0 and
  \<open>strconv.ParseBool\<close> that read their values.
\<close>

section \<open>Values\<close>

datatype flag_value = VString string | VInt int | VBool bool

definition lower_ascii :: "char \<Rightarrow> nat" where
  "lower_ascii c = (let n = of_char c :: nat in if 65 \<le> n \<and> n \<le> 90 then n + 32 else n)"

definition digit_value :: "char \<Rightarrow> nat option" where
  "digit_value c =
     (let n = lower_ascii c
      in if 48 \<le> n \<and> n \<le> 57 then Some (n - 48)
         else if 97 \<le> n \<and> n \<le> 122 then Some (n - 97 + 10) else None)"

definition base_prefix :: "char \<Rightarrow> nat option" where
  "base_prefix c =
     (if lower_ascii c = 98 then Some 2 else if lower_ascii c = 111 then Some 8
      else if lower_ascii c = 120 then Some 16 else None)"

text \<open>The base of a literal and the digits after its prefix.\<close>

definition literal_base :: "string \<Rightarrow> nat \<times> string" where
  "literal_base s =
     (case s of
        CHR ''0'' # c # d # cs \<Rightarrow>
          (case base_prefix c of Some b \<Rightarrow> (b, d # cs) | None \<Rightarrow> (8, c # d # cs))
      | CHR ''0'' # cs \<Rightarrow> (8, cs)
      | _ \<Rightarrow> (10, s))"

fun read_digits :: "nat \<Rightarrow> nat \<Rightarrow> string \<Rightarrow> nat option" where
  "read_digits base n [] = Some n"
| "read_digits base n (c # cs) =
     (if c = CHR ''_'' then read_digits base n cs
      else case digit_value c of None \<Rightarrow> None
      | Some d \<Rightarrow> if base \<le> d then None else read_digits base (n * base + d) cs)"

text \<open>\<open>underscoreOK\<close>: the class of the character before is a digit, an underscore or another.\<close>

datatype char_class = ClassStart | ClassDigit | ClassUnderscore | ClassOther

fun underscores :: "bool \<Rightarrow> char_class \<Rightarrow> string \<Rightarrow> bool" where
  "underscores hex k [] \<longleftrightarrow> k \<noteq> ClassUnderscore"
| "underscores hex k (c # cs) \<longleftrightarrow>
     (if (case digit_value c of None \<Rightarrow> False | Some d \<Rightarrow> d < 10 \<or> hex \<and> d < 16)
      then underscores hex ClassDigit cs
      else if c = CHR ''_'' then k = ClassDigit \<and> underscores hex ClassUnderscore cs
      else k \<noteq> ClassUnderscore \<and> underscores hex ClassOther cs)"

definition underscoreOK :: "string \<Rightarrow> bool" where
  "underscoreOK s =
     (case s of
        CHR ''0'' # c # cs \<Rightarrow>
          (case base_prefix c of Some b \<Rightarrow> underscores (b = 16) ClassDigit cs
           | None \<Rightarrow> underscores False ClassStart s)
      | _ \<Rightarrow> underscores False ClassStart s)"

definition ParseUint :: "string \<Rightarrow> nat option" where
  "ParseUint s =
     (case literal_base s of (base, digits) \<Rightarrow>
      (case (if s = [] then None else read_digits base 0 digits) of None \<Rightarrow> None
       | Some n \<Rightarrow> if n < 2 ^ 64 \<and> (CHR ''_'' \<in> set digits \<longrightarrow> underscoreOK s) then Some n else None))"

definition ParseInt :: "string \<Rightarrow> int option" where
  "ParseInt s =
     (let neg = (case s of CHR ''-'' # _ \<Rightarrow> True | _ \<Rightarrow> False);
          t = (case s of CHR ''-'' # cs \<Rightarrow> cs | CHR ''+'' # cs \<Rightarrow> cs | _ \<Rightarrow> s)
      in case ParseUint t of None \<Rightarrow> None
         | Some n \<Rightarrow>
             if neg then (if n \<le> 2 ^ 63 then Some (- int n) else None)
             else (if n < 2 ^ 63 then Some (int n) else None))"

definition ParseBool :: "string \<Rightarrow> bool option" where
  "ParseBool s =
     (if s \<in> {''1'', ''t'', ''T'', ''TRUE'', ''true'', ''True''} then Some True
      else if s \<in> {''0'', ''f'', ''F'', ''FALSE'', ''false'', ''False''} then Some False
      else None)"

text \<open>A flag keeps the kind of its default.\<close>

definition set_flag :: "flag_value \<Rightarrow> string \<Rightarrow> flag_value option" where
  "set_flag v s =
     (case v of VString _ \<Rightarrow> Some (VString s) | VInt _ \<Rightarrow> map_option VInt (ParseInt s)
      | VBool _ \<Rightarrow> map_option VBool (ParseBool s))"

section \<open>Parsing\<close>

type_synonym flag_set = "(string, flag_value) gomap"

datatype flag_error =
    BadFlagSyntax string
  | HelpRequested
  | UndefinedFlag string
  | InvalidFlagValue string string
  | MissingFlagValue string

definition split_flag :: "string \<Rightarrow> string \<times> string option" where
  "split_flag name =
     (let k = takeWhile (\<lambda>c. c \<noteq> CHR ''='') (tl name); rest = dropWhile (\<lambda>c. c \<noteq> CHR ''='') (tl name)
      in (hd name # k, if rest = [] then None else Some (tl rest)))"

text \<open>The name of an argument that is a flag; \<open>None\<close> ends the flags.\<close>

definition flag_name :: "string \<Rightarrow> string option" where
  "flag_name s =
     (case s of
        CHR ''-'' # CHR ''-'' # cs \<Rightarrow> Some cs
      | CHR ''-'' # c # cs \<Rightarrow> Some (c # cs)
      | _ \<Rightarrow> None)"

definition assign_flag :: "string \<Rightarrow> flag_value \<Rightarrow> string \<Rightarrow> flag_set \<Rightarrow> flag_error + flag_set" where
  "assign_flag name v s fs =
     (case set_flag v s of None \<Rightarrow> Inl (InvalidFlagValue name s) | Some v' \<Rightarrow> Inr (gput name v' fs))"

fun parse_flags :: "flag_set \<Rightarrow> string list \<Rightarrow> flag_error + flag_set \<times> string list" where
  "parse_flags fs [] = Inr (fs, [])"
| "parse_flags fs (a # args) =
     (if a = ''--'' then Inr (fs, args)
      else case flag_name a of None \<Rightarrow> Inr (fs, a # args)
      | Some name \<Rightarrow>
          if name = [] \<or> hd name = CHR ''-'' \<or> hd name = CHR ''='' then Inl (BadFlagSyntax a)
          else (case split_flag name of (k, value) \<Rightarrow>
            (case map_of fs k of
               None \<Rightarrow> Inl (if k = ''help'' \<or> k = ''h'' then HelpRequested else UndefinedFlag k)
             | Some v \<Rightarrow>
                 (case (value, v) of
                    (Some s, _) \<Rightarrow>
                      (case assign_flag k v s fs of Inl e \<Rightarrow> Inl e | Inr fs' \<Rightarrow> parse_flags fs' args)
                  | (None, VBool _) \<Rightarrow>
                      (case assign_flag k v ''true'' fs of Inl e \<Rightarrow> Inl e | Inr fs' \<Rightarrow> parse_flags fs' args)
                  | (None, _) \<Rightarrow>
                      (case args of [] \<Rightarrow> Inl (MissingFlagValue k)
                       | s # args' \<Rightarrow>
                           (case assign_flag k v s fs of Inl e \<Rightarrow> Inl e
                            | Inr fs' \<Rightarrow> parse_flags fs' args'))))))"

text \<open>Flags that are read back have the kind they were defined with.\<close>

definition text_flag :: "flag_set \<Rightarrow> string \<Rightarrow> string" where
  "text_flag fs k = (case map_of fs k of Some (VString s) \<Rightarrow> s | _ \<Rightarrow> [])"

definition int_flag :: "flag_set \<Rightarrow> string \<Rightarrow> int" where
  "int_flag fs k = (case map_of fs k of Some (VInt i) \<Rightarrow> i | _ \<Rightarrow> 0)"

definition bool_flag :: "flag_set \<Rightarrow> string \<Rightarrow> bool" where
  "bool_flag fs k = (case map_of fs k of Some (VBool b) \<Rightarrow> b | _ \<Rightarrow> False)"

end
