(* ===== verification/Commands.thy ===== *)
theory Commands
  imports Flags Pipeline Patch Migrate_Store
begin

text \<open>
  The commands of \<open>cmd/recon/main.go\<close>: each defines its flags, refuses positional arguments and
  missing options, and calls the components. \<open>main\<close> chooses the command and gives the exit status.
  What a command prints is its output as a value.
\<close>

section \<open>The program and its surroundings\<close>

text \<open>
  The world of a run, the schema of its database, and the configuration files that have been
  patched. \<open>cmd_url\<close> is the variable \<open>DATABASE_URL\<close>, \<open>cmd_open\<close> the outcome of opening a database.
\<close>

record 's system =
  sys_world :: world
  sys_schema :: "'s schema"
  sys_patched :: "(string, string list list) gomap"

record 's machine =
  cmd_env :: environment
  cmd_url :: string
  cmd_open :: "string \<Rightarrow> io_error option"
  cmd_write :: "string \<Rightarrow> string list list \<Rightarrow> io_error option"
  cmd_migrations :: "'s migrations"

datatype command_error =
    FlagFailure flag_error
  | PositionalArguments "string list"
  | OptionsRequired "string list"
  | BadSourceOption string
  | ReportFailure verify_error
  | OpenFailure io_error
  | MigrateFailure migrate_error
  | RunCheckFailure run_error
  | PatchFailure patch_error
  | ConfigFailure config_error
  | FileFailure io_error
  | ImportFailure frozen_error
  | RunFailure run_failure
  | ProfileFailure ingest_error

datatype command_output =
    VerifiedReport string
  | VerifiedRun run_verification
  | ExplainedFigures "explain_row list"
  | WrotePatched string
  | ImportedConfig frozen_config
  | MigrationsApplied
  | WroteReport string computed "int option"
  | Profiled nat file_info nat file_info

type_synonym 's outcome = "'s system \<times> (command_error + command_output)"

section \<open>Commands\<close>

definition with_flags ::
  "flag_set \<Rightarrow> string list \<Rightarrow> 's system \<Rightarrow> (flag_set \<Rightarrow> 's outcome) \<Rightarrow> 's outcome" where
  "with_flags fs args s k =
     (case parse_flags fs args of Inl e \<Rightarrow> (s, Inl (FlagFailure e))
      | Inr (f, rest) \<Rightarrow> if rest \<noteq> [] then (s, Inl (PositionalArguments rest)) else k f)"

definition with_database ::
  "'s machine \<Rightarrow> string \<Rightarrow> 's system \<Rightarrow> 's outcome \<Rightarrow> 's outcome" where
  "with_database m url s k = (case cmd_open m url of Some e \<Rightarrow> (s, Inl (OpenFailure e)) | None \<Rightarrow> k)"

definition with_migrations ::
  "'s machine \<Rightarrow> 's system \<Rightarrow> ('s system \<Rightarrow> 's outcome) \<Rightarrow> 's outcome" where
  "with_migrations m s k =
     (case Migrate (cmd_migrations m) (sys_schema s) of
        (t, Some e) \<Rightarrow> (s\<lparr>sys_schema := t\<rparr>, Inl (MigrateFailure e))
      | (t, None) \<Rightarrow> k (s\<lparr>sys_schema := t\<rparr>))"

definition verify :: "'s machine \<Rightarrow> string list \<Rightarrow> 's system \<Rightarrow> 's outcome" where
  "verify m args s =
     with_flags [(''report'', VString [])] args s (\<lambda>f.
       let file = text_flag f ''report''
       in if file = [] then (s, Inl (OptionsRequired [''report'']))
          else case Verify (open_in (w_books (sys_world s))) file of
            Some e \<Rightarrow> (s, Inl (ReportFailure e))
          | None \<Rightarrow> (s, Inr (VerifiedReport file)))"

definition verifyDB :: "'s machine \<Rightarrow> string list \<Rightarrow> 's system \<Rightarrow> 's outcome" where
  "verifyDB m args s =
     with_flags [(''postgres-url'', VString (cmd_url m)), (''run-id'', VInt 0), (''expected-rows'', VInt 0)]
       args s (\<lambda>f.
       let url = text_flag f ''postgres-url''; i = int_flag f ''run-id''
       in if url = [] \<or> i \<le> 0 then (s, Inl (OptionsRequired [''postgres-url'', ''run-id'']))
          else with_database m url s
            (case VerifyRun (w_database (sys_world s)) i (int_flag f ''expected-rows'') of
               Inl e \<Rightarrow> (s, Inl (RunCheckFailure e))
             | Inr v \<Rightarrow> (s, Inr (VerifiedRun v))))"

definition explain :: "'s machine \<Rightarrow> string list \<Rightarrow> 's system \<Rightarrow> 's outcome" where
  "explain m args s =
     with_flags [(''postgres-url'', VString (cmd_url m)), (''run-id'', VInt 0), (''record-ref'', VString []),
         (''summary-field'', VString []), (''source-line'', VInt 0)] args s (\<lambda>f.
       let url = text_flag f ''postgres-url''; i = int_flag f ''run-id''
       in if url = [] \<or> i \<le> 0 then (s, Inl (OptionsRequired [''postgres-url'', ''run-id'']))
          else with_database m url s
            (s, Inr (ExplainedFigures (Explain (w_database (sys_world s)) i (text_flag f ''record-ref'')
               (text_flag f ''summary-field'') (int_flag f ''source-line'')))))"

definition patchConfig :: "'s machine \<Rightarrow> string list \<Rightarrow> 's system \<Rightarrow> 's outcome" where
  "patchConfig m args s =
     with_flags [(''input'', VString []), (''patch'', VString ''fixes/mapping_fixes.csv''),
         (''output'', VString []), (''source'', VString [])] args s (\<lambda>f.
       let input = text_flag f ''input''; out = text_flag f ''output''; src = text_flag f ''source''
       in if input = [] \<or> out = [] \<or> src = []
          then (s, Inl (OptionsRequired [''input'', ''output'', ''source'']))
          else if src \<noteq> source_string SourcePayment \<and> src \<noteq> source_string SourceSettlement
          then (s, Inl (BadSourceOption src))
          else (case LoadPatch (env_configs (cmd_env m)) (text_flag f ''patch'') of
                  Inl e \<Rightarrow> (s, Inl (PatchFailure e))
                | Inr ops \<Rightarrow>
               (case ApplyPatch (env_configs (cmd_env m)) (env_abs (cmd_env m)) (cmd_write m) input out src ops of
                  Inl e \<Rightarrow> (s, Inl (PatchFailure e))
                | Inr (path, rows) \<Rightarrow>
                    (s\<lparr>sys_patched := gput path rows (sys_patched s)\<rparr>, Inr (WrotePatched out)))))"

definition importConfig :: "'s machine \<Rightarrow> string list \<Rightarrow> 's system \<Rightarrow> 's outcome" where
  "importConfig m args s =
     with_flags [(''payment-config'', VString []), (''settlement-config'', VString []), (''name'', VString []),
         (''note'', VString ''imported by recon''), (''postgres-url'', VString (cmd_url m))] args s (\<lambda>f.
       let pc = text_flag f ''payment-config''; sc = text_flag f ''settlement-config'';
           url = text_flag f ''postgres-url''; env = cmd_env m
       in if pc = [] \<or> sc = [] \<or> url = []
          then (s, Inl (OptionsRequired [''payment-config'', ''settlement-config'', ''postgres-url'']))
          else (case LoadConfig (env_configs env) pc SourcePayment of Inl e \<Rightarrow> (s, Inl (ConfigFailure e))
          | Inr pr \<Rightarrow>
         (case LoadConfig (env_configs env) sc SourceSettlement of Inl e \<Rightarrow> (s, Inl (ConfigFailure e))
          | Inr sr \<Rightarrow>
         (case env_info env pc of Inl e \<Rightarrow> (s, Inl (FileFailure e))
          | Inr pinfo \<Rightarrow>
         (case env_info env sc of Inl e \<Rightarrow> (s, Inl (FileFailure e))
          | Inr sinfo \<Rightarrow>
          with_database m url s (with_migrations m s (\<lambda>s.
            case EnsureFrozenConfig (env_sha env) (env_config_db env) (env_config_commit env)
                   (text_flag f ''name'') (text_flag f ''note'') pinfo sinfo (pr @ sr)
                   (db_catalog (w_database (sys_world s))) of
              (c, Inl e) \<Rightarrow> (s\<lparr>sys_world := set_catalog c (sys_world s)\<rparr>, Inl (ImportFailure e))
            | (c, Inr v) \<Rightarrow>
                (s\<lparr>sys_world := set_catalog c (sys_world s)\<rparr>, Inr (ImportedConfig v)))))))))"

definition migrate :: "'s machine \<Rightarrow> string list \<Rightarrow> 's system \<Rightarrow> 's outcome" where
  "migrate m args s =
     with_flags [(''postgres-url'', VString (cmd_url m))] args s (\<lambda>f.
       let url = text_flag f ''postgres-url''
       in if url = [] then (s, Inl (OptionsRequired [''postgres-url'']))
          else with_database m url s (with_migrations m s (\<lambda>s. (s, Inr MigrationsApplied))))"

definition run_flags :: "'s machine \<Rightarrow> flag_set" where
  "run_flags m =
     [(''payments'', VString []), (''settlements'', VString []), (''payment-config'', VString []),
      (''settlement-config'', VString []), (''settlement-id'', VString []),
      (''output'', VString ''reconciliation.xlsx''), (''mode'', VString ''diagnostic-baseline''),
      (''postgres-url'', VString (cmd_url m)), (''run-name'', VString ''local-run''),
      (''config-version'', VString []), (''retry'', VBool False)]"

definition run_options :: "flag_set \<Rightarrow> options" where
  "run_options f =
     \<lparr>opt_payments = text_flag f ''payments'', opt_settlements = text_flag f ''settlements'',
      opt_payment_config = text_flag f ''payment-config'',
      opt_settlement_config = text_flag f ''settlement-config'',
      opt_settlement_id = text_flag f ''settlement-id'', opt_output = text_flag f ''output'',
      opt_mode = text_flag f ''mode'', opt_database = (text_flag f ''postgres-url'' \<noteq> []),
      opt_run_name = text_flag f ''run-name'', opt_config_version = text_flag f ''config-version'',
      opt_retry = bool_flag f ''retry''\<rparr>"

text \<open>The database is opened and migrated once the options have been checked.\<close>

definition run_command :: "'s machine \<Rightarrow> string list \<Rightarrow> 's system \<Rightarrow> 's outcome" where
  "run_command m args s =
     with_flags (run_flags m) args s (\<lambda>f.
       let opts = run_options f; env = (cmd_env m)\<lparr>env_open_db := None\<rparr>;
           go = (\<lambda>s. case run env opts (sys_world s) of
                  (w, Inl e) \<Rightarrow> (s\<lparr>sys_world := w\<rparr>, Inl (RunFailure e))
                | (w, Inr (c, i)) \<Rightarrow> (s\<lparr>sys_world := w\<rparr>, Inr (WroteReport (opt_output opts) c i)))
       in case check_options env opts of Some e \<Rightarrow> (s, Inl (RunFailure e))
          | None \<Rightarrow>
              if opt_database opts
              then with_database m (text_flag f ''postgres-url'') s (with_migrations m s go)
              else go s)"

definition profile :: "'s machine \<Rightarrow> string list \<Rightarrow> 's system \<Rightarrow> 's outcome" where
  "profile m args s =
     with_flags [(''payments'', VString []), (''settlements'', VString [])] args s (\<lambda>f.
       let p = text_flag f ''payments''; q = text_flag f ''settlements''; fs = env_inputs (cmd_env m)
       in if p = [] \<or> q = [] then (s, Inl (OptionsRequired [''payments'', ''settlements'']))
          else (case ParsePayments fs p of Inl e \<Rightarrow> (s, Inl (ProfileFailure e))
          | Inr (pp, pi) \<Rightarrow>
         (case ParseSettlements fs q of Inl e \<Rightarrow> (s, Inl (ProfileFailure e))
          | Inr (ss, si) \<Rightarrow> (s, Inr (Profiled (length pp) pi (length ss) si)))))"

section \<open>The program\<close>

definition command :: "string \<Rightarrow> ('s machine \<Rightarrow> string list \<Rightarrow> 's system \<Rightarrow> 's outcome) option" where
  "command name =
     map_of [(''run'', run_command), (''migrate'', migrate), (''profile'', profile),
       (''patch-config'', patchConfig), (''import-config'', importConfig), (''verify'', verify),
       (''verify-db'', verifyDB), (''explain'', explain)] name"

text \<open>The arguments include the name of the program; the exit status is 2 for a usage error.\<close>

definition main :: "'s machine \<Rightarrow> string list \<Rightarrow> 's system \<Rightarrow> 's system \<times> nat" where
  "main m args s =
     (case args of _ # name # rest \<Rightarrow>
        (case command name of None \<Rightarrow> (s, 2)
         | Some f \<Rightarrow> (case f m rest s of (s', Inl _) \<Rightarrow> (s', 1) | (s', Inr _) \<Rightarrow> (s', 0)))
      | _ \<Rightarrow> (s, 2))"

end
