(* ===== verification/Commands_Props.thy ===== *)
theory Commands_Props
  imports Commands Run_Props
begin

text \<open>
  What the commands keep: whatever is called with whatever arguments and however it fails, the
  database stays sound and finished runs keep their rows.
\<close>

section \<open>Databases after a command\<close>

definition runs_kept :: "database \<Rightarrow> database \<Rightarrow> bool" where
  "runs_kept d d' \<longleftrightarrow>
     database_ok d' \<and>
     (\<forall>i. \<not> unfinished i (db_runs d) \<longrightarrow> \<not> unfinished i (db_runs d') \<and> tables_of i d' = tables_of i d)"

lemma runs_kept_refl [simp]: "database_ok d \<Longrightarrow> runs_kept d d"
  by (simp add: runs_kept_def)

lemma runs_kept_trans: "runs_kept d u \<Longrightarrow> runs_kept u v \<Longrightarrow> runs_kept d v"
  by (simp add: runs_kept_def)

lemma runs_kept_catalog [simp]: "database_ok d \<Longrightarrow> runs_kept d (d\<lparr>db_catalog := c\<rparr>)"
  by (simp add: runs_kept_def tables_of_def)

lemma runs_kept_report: "database_ok d \<Longrightarrow> runs_kept d (d\<lparr>db_runs := update_run i report_run (db_runs d)\<rparr>)"
  using database_ok_follow[of d "d\<lparr>db_runs := update_run i report_run (db_runs d)\<rparr>"]
    runs_follow_report[of "db_runs d" i]
  by (auto simp: runs_kept_def runs_follow_def tables_of_def)

section \<open>A run\<close>

lemma mapped_sources:
  assumes "Map e rows = Inr (out, s, issues)"
  shows "map m_Row out = rows"
proof -
  have "m_Row (row_output e row) = row" for row
    using mapRow_contributions[of e row "fst (mapRow e row)" "snd (mapRow e row)"]
    by (cases "mapRow e row"; cases "snd (mapRow e row)") (simp_all add: row_output_def)
  with Map_Inr[OF assms] show ?thesis by (simp add: comp_def)
qed

lemma reconcile_rows_sources:
  assumes "reconcile_rows fs path sid m pr sr (Classify p0 sid) = Inr c"
    and "\<forall>r \<in> set p0. row_Source r = SourcePayment"
  shows "\<forall>x \<in> set (res_PaymentRows (co_result c) @ res_SettlementRows (co_result c)).
    row_Source (m_Row x) \<in> {SourcePayment, SourceSettlement}"
proof -
  from assms(1) obtain ps psum pi s0 sinfo ss ssum si where
    p: "Map \<lparr>Rules = pr, Mode = m\<rparr> (Classify p0 sid) = Inr (ps, psum, pi)" and
    s0: "ParseSettlements fs path = Inr (s0, sinfo)" and
    s: "Map \<lparr>Rules = sr, Mode = m\<rparr> (Classify s0 sid) = Inr (ss, ssum, si)" and
    c: "res_PaymentRows (co_result c) = map release ps" "res_SettlementRows (co_result c) = map release ss"
    by (auto simp: reconcile_rows_def Let_def releaseRawMaps_map split: sum.splits prod.splits)
  have src: "row_Source (m_Row x) = src"
    if "map m_Row out = Classify rows sid" "\<forall>r \<in> set rows. row_Source r = src" "x \<in> set out" for out rows src x
  proof -
    have "m_Row x \<in> set (Classify rows sid)" using that(3) unfolding that(1)[symmetric] by simp
    with that(2) show ?thesis by (auto simp: Classify_def)
  qed
  have "\<forall>r \<in> set s0. row_Source r = SourceSettlement"
    using parsed_settlements_source[OF s0] by (auto simp: settlement_source_ok_def)
  with src[OF mapped_sources[OF p] assms(2)] src[OF mapped_sources[OF s]] show ?thesis
    unfolding c by auto
qed

lemma persist_run_kept:
  assumes "persist_run env opts m pinfo ru c w = (w', r)" and "database_ok (w_database w)"
    and "\<forall>x \<in> set (res_PaymentRows (co_result c) @ res_SettlementRows (co_result c)).
      row_Source (m_Row x) \<in> {SourcePayment, SourceSettlement}"
  shows "runs_kept (w_database w) (w_database w')"
proof -
  let ?persist = "Persist (env_sha env) (env_run_db env) (env_error_text env) (env_claim_commit env)
       (env_run_commit env) (opt_run_name opts) (opt_settlement_id opts) m
       (case ru_version ru of None \<Rightarrow> 0 | Some v \<Rightarrow> fc_ID v) (opt_retry opts) pinfo (co_sinfo c)
       (res_PaymentRows (co_result c)) (res_SettlementRows (co_result c))
       (res_Groups (co_result c)) (res_Summary (co_result c))
       (ru_payment ru @ ru_settlement ru) (map (env_issue_text env) (res_Issues (co_result c))) (w_database w)"
  obtain d x where per: "?persist = (d, x)" by (cases ?persist)
  have d: "runs_kept (w_database w) d"
    using Persist_database[OF per assms(3,2)] by (simp add: runs_kept_def)
  show ?thesis
  proof (cases x)
    case (Inl e)
    with assms(1) per d show ?thesis by (auto simp: persist_run_def)
  next
    case (Inr i)
    let ?store = "\<lparr>runs = db_runs d, workers = {}, contents = {}, artifacts = w_artifacts w\<rparr>"
    obtain s e where reg: "RegisterReport (env_info env) (env_report_commit env) i ''reconciliation''
        (opt_output opts) ?store = (s, e)"
      by (cases "RegisterReport (env_info env) (env_report_commit env) i ''reconciliation'' (opt_output opts) ?store")
    have w': "w_database w' = d\<lparr>db_runs := runs s\<rparr>"
      using assms(1) per Inr reg by (auto simp: persist_run_def split: option.splits)
    have "runs s = db_runs d \<or> runs s = update_run i report_run (db_runs d)"
      using reg by (auto simp: RegisterReport_def Let_def split: sum.splits if_splits commit_outcome.splits)
    then have "runs_kept d (w_database w')"
    proof
      assume "runs s = db_runs d"
      with d show ?thesis by (simp add: w' runs_kept_def)
    next
      assume "runs s = update_run i report_run (db_runs d)"
      moreover have "database_ok d" using d by (simp add: runs_kept_def)
      ultimately show ?thesis using runs_kept_report[of d i] by (simp add: w')
    qed
    with d show ?thesis by (rule runs_kept_trans)
  qed
qed

lemma run_kept:
  assumes "run env opts w = (w', r)" and "database_ok (w_database w)"
  shows "runs_kept (w_database w) (w_database w')"
proof -
  have world: "w_database (set_catalog cat w) = (w_database w)\<lparr>db_catalog := cat\<rparr>" for cat
    by (simp add: set_catalog_def)
  consider (same) "w' = w" | (catalog) cat where "w_database w' = (w_database w)\<lparr>db_catalog := cat\<rparr>"
    | (persist) p0 pinfo ru cat books c r' where
      "ParsePayments (env_inputs env) (opt_payments opts) = Inr (p0, pinfo)"
      "reconcile_rows (env_inputs env) (opt_settlements opts) (opt_settlement_id opts) (run_mode_of opts)
         (ru_payment ru) (ru_settlement ru) (Classify p0 (opt_settlement_id opts)) = Inr c"
      "persist_run env opts (run_mode_of opts) pinfo ru c ((set_catalog cat w)\<lparr>w_books := books\<rparr>) = (w', r')"
    using assms(1) world
    by (auto simp: run_def Let_def split: option.splits sum.splits prod.splits if_splits)
  then show ?thesis
  proof cases
    case same
    with assms(2) show ?thesis by simp
  next
    case catalog
    with assms(2) show ?thesis by simp
  next
    case persist
    have "\<forall>r \<in> set p0. row_Source r = SourcePayment"
      using parsed_payments_ok[OF persist(1)] by (auto simp: payment_ok_def)
    from persist_run_kept[OF persist(3) _ reconcile_rows_sources[OF persist(2) this]]
    have "runs_kept ((w_database w)\<lparr>db_catalog := cat\<rparr>) (w_database w')" using assms(2) by (simp add: world)
    then show ?thesis using runs_kept_catalog[OF assms(2)] by (rule runs_kept_trans[rotated])
  qed
qed

section \<open>The commands\<close>

definition system_kept :: "'s system \<Rightarrow> 's system \<Rightarrow> bool" where
  "system_kept s s' \<longleftrightarrow> runs_kept (w_database (sys_world s)) (w_database (sys_world s'))"

lemma with_flags_cases:
  assumes "with_flags fs args s k = (s', r)"
  obtains "s' = s" "isl r" | f where "k f = (s', r)"
  using assms by (auto simp: with_flags_def split: sum.splits prod.splits if_splits)

lemma with_database_cases:
  assumes "with_database m url s k = (s', r)"
  obtains "s' = s" "isl r" | "k = (s', r)"
  using assms by (auto simp: with_database_def split: option.splits)

lemma with_migrations_cases:
  assumes "with_migrations m s k = (s', r)"
  obtains t where "s' = s\<lparr>sys_schema := t\<rparr>" "isl r" | t where "k (s\<lparr>sys_schema := t\<rparr>) = (s', r)"
  using assms by (auto simp: with_migrations_def split: option.splits prod.splits)

lemmas command_defs = verify_def verifyDB_def explain_def profile_def migrate_def patchConfig_def
  importConfig_def run_command_def

text \<open>Four commands only read.\<close>

lemma reading_commands:
  "verify m args s = (s', r) \<Longrightarrow> s' = s"
  "verifyDB m args s = (s', r) \<Longrightarrow> s' = s"
  "explain m args s = (s', r) \<Longrightarrow> s' = s"
  "profile m args s = (s', r) \<Longrightarrow> s' = s"
  by (auto simp: command_defs Let_def elim!: with_flags_cases with_database_cases
      split: if_splits sum.splits option.splits prod.splits)

lemma writing_commands:
  assumes "database_ok (w_database (sys_world s))"
  shows "migrate m args s = (s', r) \<Longrightarrow> system_kept s s'"
    and "patchConfig m args s = (s', r) \<Longrightarrow> system_kept s s'"
    and "importConfig m args s = (s', r) \<Longrightarrow> system_kept s s'"
    and "run_command m args s = (s', r) \<Longrightarrow> system_kept s s'"
  using assms
  by (auto simp: command_defs Let_def system_kept_def set_catalog_def
      elim!: with_flags_cases with_database_cases with_migrations_cases
      split: if_splits sum.splits option.splits prod.splits dest!: run_kept)


lemma command_cases:
  assumes "command name = Some f"
  obtains "f = run_command" | "f = migrate" | "f = patchConfig" | "f = importConfig"
  | "name = ''profile''" "f = profile" | "name = ''verify''" "f = verify"
  | "name = ''verify-db''" "f = verifyDB" | "name = ''explain''" "f = explain"
  using assms by (auto simp: command_def split: if_splits)

lemma command_kept:
  assumes "command name = Some f" and "f m rest s = (s', r)" and "database_ok (w_database (sys_world s))"
  shows "system_kept s s'"
proof -
  have "system_kept s s" using assms(3) by (simp add: system_kept_def)
  with assms(2,3) show ?thesis
    by (rule_tac command_cases[OF assms(1)]) (auto dest: reading_commands writing_commands)
qed

lemma verify_ok:
  "verify m args s = (s', Inr x) \<Longrightarrow> \<exists>file. Verify (open_in (w_books (sys_world s))) file = None"
  by (auto simp: verify_def Let_def elim!: with_flags_cases split: if_splits option.splits)

lemma verifyDB_ok:
  "verifyDB m args s = (s', Inr x) \<Longrightarrow>
     \<exists>i > 0. \<exists>expected v. VerifyRun (w_database (sys_world s)) i expected = Inr v"
  by (auto simp: verifyDB_def Let_def not_le elim!: with_flags_cases with_database_cases
      split: if_splits sum.splits) blast

section \<open>Properties\<close>

text \<open>
  C4. The program keeps the database sound: whatever arguments it is called with and however the
  command ends, ids stay unique, unfinished runs own no rows, and a finished run stays finished and
  keeps all its rows. A usage error and the commands \<open>verify\<close>, \<open>verify-db\<close>, \<open>explain\<close> and \<open>profile\<close>
  change nothing at all; \<open>verify\<close> and \<open>verify-db\<close> exit with status 0 only if a report or a run has
  been verified.
\<close>

theorem main_keeps_runs:
  assumes "main m args s = (s', status)" and "database_ok (w_database (sys_world s))"
  shows "runs_kept (w_database (sys_world s)) (w_database (sys_world s')) \<and> status \<le> 2 \<and>
    (status = 2 \<or> args ! 1 \<in> {''verify'', ''verify-db'', ''explain'', ''profile''} \<longrightarrow> s' = s) \<and>
    (status = 0 \<and> args ! 1 = ''verify'' \<longrightarrow> (\<exists>file. Verify (open_in (w_books (sys_world s))) file = None)) \<and>
    (status = 0 \<and> args ! 1 = ''verify-db'' \<longrightarrow>
       (\<exists>i > 0. \<exists>expected v. VerifyRun (w_database (sys_world s)) i expected = Inr v))"
proof (cases "s' = s \<and> status = 2")
  case True
  with assms(2) show ?thesis by simp
next
  case False
  with assms(1) obtain a name rest f u r where args: "args = a # name # rest" and f: "command name = Some f"
    and run: "f m rest s = (u, r)" and s': "s' = u" and status: "status = (if isl r then 1 else 0)"
    by (auto simp: main_def split: list.splits option.splits sum.splits prod.splits)
  have "runs_kept (w_database (sys_world s)) (w_database (sys_world s'))"
    using command_kept[OF f run assms(2)] by (simp add: s' system_kept_def)
  moreover have "s' = s" if "name \<in> {''verify'', ''verify-db'', ''explain'', ''profile''}"
    using that f run by (auto simp: command_def s' dest: reading_commands)
  moreover have "\<exists>file. Verify (open_in (w_books (sys_world s))) file = None" if "status = 0" "name = ''verify''"
    using that f run status by (cases r) (auto simp: command_def dest: verify_ok)
  moreover have "\<exists>i > 0. \<exists>expected v. VerifyRun (w_database (sys_world s)) i expected = Inr v"
    if "status = 0" "name = ''verify-db''"
    using that f run status by (cases r) (auto simp: command_def dest: verifyDB_ok)
  ultimately show ?thesis using status by (simp add: args)
qed

text \<open>The run of the example, from the arguments of the program.\<close>

definition ex_machine :: "string list machine" where
  "ex_machine =
     \<lparr>cmd_env = ex_env, cmd_url = [], cmd_open = (\<lambda>_. None), cmd_write = (\<lambda>_ _. None),
      cmd_migrations = ex_migrations\<rparr>"

definition ex_arguments :: "string list" where
  "ex_arguments =
     [''--payments'', ''p.csv'', ''-settlements=s.csv'', ''--payment-config'', ''p_config.csv'',
      ''--settlement-config'', ''s_config.csv'', ''--settlement-id'', ''S1'', ''--output'', ''out.xlsx'',
      ''--mode'', ''strict'', ''--postgres-url'', ''db'', ''--run-name'', ''run'', ''-retry=false'']"

definition ex_system :: "string list system" where
  "ex_system = \<lparr>sys_world = ex_world, sys_schema = \<lparr>sch_versions = [], sch_state = []\<rparr>, sys_patched = []\<rparr>"

lemma ex_main:
  "\<exists>s' c. main ex_machine (''recon'' # ''run'' # ex_arguments) ex_system = (s', 0) \<and>
     run ex_env ex_options ex_world = (sys_world s', Inr (c, Some 1))"
proof -
  have flags: "case parse_flags (run_flags ex_machine) ex_arguments of Inl _ \<Rightarrow> False
      | Inr (f, rest) \<Rightarrow> rest = [] \<and> run_options f = ex_options"
    by code_simp
  obtain f where f: "parse_flags (run_flags ex_machine) ex_arguments = Inr (f, [])" "run_options f = ex_options"
    using flags by (auto split: sum.splits)
  have env: "(cmd_env ex_machine)\<lparr>env_open_db := None\<rparr> = ex_env" by (simp add: ex_machine_def ex_env_def)
  have "snd (Migrate (cmd_migrations ex_machine) (sys_schema ex_system)) = None" by code_simp
  then obtain t where t: "Migrate (cmd_migrations ex_machine) (sys_schema ex_system) = (t, None)"
    by (cases "Migrate (cmd_migrations ex_machine) (sys_schema ex_system)") simp
  obtain w c where w: "run ex_env ex_options ex_world = (w, Inr (c, Some 1))" using ex_run by blast
  have "sys_world ex_system = ex_world" "opt_database ex_options" by (simp_all add: ex_system_def ex_options_def)
  then have "run_command ex_machine ex_arguments ex_system =
      (ex_system\<lparr>sys_schema := t, sys_world := w\<rparr>, Inr (WroteReport (opt_output ex_options) c (Some 1)))"
    using f env t w ex_options_ok
    by (simp add: run_command_def with_flags_def with_database_def with_migrations_def Let_def)
      (simp add: ex_machine_def)
  with w show ?thesis by (auto simp: main_def command_def)
qed

theorem main_keeps_runs_witness:
  "\<exists>s'. main ex_machine (''recon'' # ''run'' # ex_arguments) ex_system = (s', 0) \<and>
     runs_kept (w_database ex_world) (w_database (sys_world s'))"
proof -
  obtain s' where r: "main ex_machine (''recon'' # ''run'' # ex_arguments) ex_system = (s', 0)"
    using ex_main by blast
  have "database_ok (w_database (sys_world ex_system))"
    by (simp add: database_ok_def ex_system_def ex_world_def no_rows_def)
  from main_keeps_runs[OF r this] r show ?thesis by (auto simp: ex_system_def)
qed

end
