(* ===== verification/Spec2Isabelle.thy ===== *)
theory Spec2Isabelle
  imports Prelude Go_Strings Go_Text Money Domain Normalize Mapping_Config Engine Engine_Props
    Summary_Props Reconcile Group_Props Patch Patch_Props Go_Time Dates Ingest Ingest_Props Report
    Report_Props Fingerprint Runs Runs_Props Migrate_Store Config_Store Config_Store_Props Persist
    Persist_Props Verify_Run Verify_Props Pipeline Pipeline_Props Example_Run Run_Props Flags Commands
    Commands_Props
begin

text \<open>
  Verification of the payment settlement reconciliation program, a command line tool in Go with a
  PostgreSQL store. A run reads a file of payments and a file of settlements, classifies their rows
  against a selected settlement, maps every row to summary fields with configured rules, groups the
  rows of both sources by record reference, checks the activity against the settlement's header,
  writes a workbook, and persists everything under a run that can be verified and explained later.

  The parts and how they correspond to the source (paths under \<open>src/\<close>):

  \<^item> \<open>Prelude\<close>: error sums (\<open>foldE\<close>, \<open>mapE\<close>, \<open>loopE\<close>), Go maps as association lists (\<open>gget\<close>,
    \<open>gput\<close>), sorting by a less function (locale \<open>keyed_order\<close>), and the locales \<open>ledger\<close> and
    \<open>bounded_ledger\<close> for maps of exact sums. \<open>Go_Strings\<close>, \<open>Go_Text\<close>, \<open>Go_Time\<close>, \<open>Flags\<close>: what the code uses of the packages
    \<open>strings\<close>, \<open>unicode/utf8\<close>, \<open>strconv\<close>, \<open>time\<close> and \<open>flag\<close>, on strings of bytes.
  \<^item> \<open>Money\<close> (\<open>internal/money/money.go\<close>): amounts are 64-bit words; parsing, checked addition and
    subtraction, printing. Exactness, round trip and bounds are proved against unbounded integers.
  \<^item> \<open>Domain\<close> (\<open>internal/domain/types.go\<close>) and \<open>Normalize\<close> (\<open>internal/normalize\<close>): the data types
    as records and datatypes; labels and headers.
  \<^item> \<open>Mapping_Config\<close>, \<open>Engine\<close> (\<open>internal/mapping/config.go\<close>, \<open>engine.go\<close>): rules and the
    mapping of rows. \<open>Engine_Props\<close>: where contributions come from, one key per row, fallback rules,
    strict mode. \<open>Summary_Props\<close>: the summary is a ledger, so it conserves money.
    \<open>Patch\<close>, \<open>Patch_Props\<close> (\<open>patch.go\<close>): guarded edits of a configuration.
  \<^item> \<open>Reconcile\<close>, \<open>Group_Props\<close> (\<open>internal/reconcile\<close>): scopes and groups; the groups partition
    the rows, their amounts are exact sums, and their order is fixed.
  \<^item> \<open>Ingest\<close>, \<open>Dates\<close>, \<open>Ingest_Props\<close> (\<open>internal/ingest\<close>): both parsers over the records of the
    CSV reader; what holds of every row that parses; which timestamps are read.
  \<^item> \<open>Report\<close>, \<open>Report_Props\<close> (\<open>internal/report\<close>): the cell values of the workbook, its
    verification and its publication by rename.
  \<^item> \<open>Fingerprint\<close>, \<open>Runs\<close>, \<open>Runs_Props\<close> (\<open>internal/store/store.go\<close>, \<open>artifact.go\<close>): the identity
    texts that are hashed, and the life of runs: a step relation in which any number of processes
    claim, persist, fail, die and report, its invariant, and its refinement of an automaton with one
    phase per fingerprint. \<open>Migrate_Store\<close>: the migrations.
  \<^item> \<open>Config_Store\<close>, \<open>Config_Store_Props\<close> (\<open>config.go\<close>): frozen configurations over their tables.
  \<^item> \<open>Persist\<close>, \<open>Persist_Props\<close> (\<open>store.go\<close>): the tables of a run with the constraints of the
    migrations, the strict gate, the transaction, and what the tables hold after it.
    \<open>Verify_Run\<close>, \<open>Verify_Props\<close> (\<open>verify.go\<close>, \<open>explain.go\<close>): the queries over the tables, each
    reduced to the rows, contributions and groups of the run.
  \<^item> \<open>Pipeline\<close>, \<open>Pipeline_Props\<close>, \<open>Run_Props\<close> (\<open>run\<close> of \<open>cmd/recon/main.go\<close>): the composition of a
    run, what a strict computation establishes, the invariant of the database, and the verdict of
    the database verification on a run. \<open>Example_Run\<close> evaluates a complete run.
    \<open>Commands\<close>, \<open>Commands_Props\<close>: flags, the other commands, the exit status, and what every
    invocation of the program keeps.

  Errors of the source are values: every return of an error is a branch of a sum type. Functions
  that change state return the new state, also when they fail. Concurrency is the interleaving of
  the steps of \<open>Runs\<close>; each step is one transaction, which may commit, be rolled back, or commit
  without the client being told. All recursion is structural or has a proved measure; no fuel is
  used, and the only infinite behaviour, the store of runs, is an inductive relation.

  Outside the program, and parameters of the model: the file system and path functions, the CSV
  reader (a stream of records and errors), the excelize library (a saved workbook is what its reader
  sees), SHA-256 (an arbitrary function; no property assumes it injective), the ids of database
  sequences, the texts and dates PostgreSQL accepts, and the effect of the SQL of a migration.

  Where the iteration order of a Go map decides which of several errors is reported, the model takes
  one order; the affected choices are the first missing option, the first field of a failed gate and
  the order of summary buckets. The sums themselves are proved to be exact, hence independent of
  the order, whenever they are accepted.

  Not modelled: printed texts (outputs are values), memory marks and garbage collection, widths,
  styles and print layouts of the sheets, the JSON copies of the payload maps, opening connections
  and the advisory lock beyond its outcomes, the foreign key of a run to its frozen version (the id was
  read from the catalog), foreign keys to rows that the same transaction has just written, and triggers that forbid updates the program never makes.
\<close>

end
